(* ===== verification/Sim_Prelude.thy ===== *)
theory Sim_Prelude
  imports Main "HOL-Library.Word"
begin

unbundle bit_operations_syntax

text \<open>
  Shared vocabulary of the development: the machine integer types of the simulator, the
  result type in which every failing assert, thrown exception and out-of-range access of
  the C++ code is a value, the access functions of C++ vectors and heap arrays, and the
  generic lemmas (on results, on bits of words) that the component theories rest on.
\<close>

section \<open>Types\<close>

type_synonym u8 = "8 word"
type_synonym u16 = "16 word"
type_synonym u32 = "32 word"
type_synonym u64 = "64 word"
type_synonym addr_t = "64 word"

datatype sim_error =
    Assert_Failed            \<comment> \<open>a failing \<open>assert\<close> (the build keeps them on)\<close>
  | Out_Of_Range             \<comment> \<open>an index outside of a vector, bitset or heap array\<close>
  | Null_Deref               \<comment> \<open>a null pointer followed\<close>
  | Undefined_Shift          \<comment> \<open>a shift by at least the width of the operand\<close>
  | Division_By_Zero
  | Signed_Overflow          \<comment> \<open>signed arithmetic outside of the type\<close>
  | Undefined_Conversion     \<comment> \<open>a floating-point value outside of the integer type\<close>
  | No_Return                \<comment> \<open>a non-void function that falls off its end\<close>
  | Runtime_Error            \<comment> \<open>\<open>std::runtime_error\<close>\<close>
  | Invalid_Argument         \<comment> \<open>\<open>std::invalid_argument\<close>\<close>
  | Aborted                  \<comment> \<open>a call of \<open>abort\<close>\<close>

type_synonym 'a res = "sim_error + 'a"

named_theorems res_simps \<open>how results combine\<close>
named_theorems bit_lanes \<open>bits of lane masks\<close>

section \<open>Results\<close>

fun bindR :: "'a res \<Rightarrow> ('a \<Rightarrow> 'b res) \<Rightarrow> 'b res" where
  "bindR (Inl e) f = Inl e"
| "bindR (Inr x) f = f x"

definition assertR :: "bool \<Rightarrow> 'a res \<Rightarrow> 'a res" where
  "assertR b k = (if b then k else Inl Assert_Failed)"

definition failR :: "bool \<Rightarrow> sim_error \<Rightarrow> 'a res \<Rightarrow> 'a res" where
  "failR b e k = (if b then Inl e else k)"

lemma bindR_eq_Inr [res_simps]: "bindR m f = Inr y \<longleftrightarrow> (\<exists>x. m = Inr x \<and> f x = Inr y)"
  by (cases m) auto

lemma bindR_eq_Inl [res_simps]:
  "bindR m f = Inl e \<longleftrightarrow> m = Inl e \<or> (\<exists>x. m = Inr x \<and> f x = Inl e)"
  by (cases m) auto

lemma bindR_Inr_right [simp]: "bindR m Inr = m"
  by (cases m) auto

lemma bindR_assoc: "bindR (bindR m f) g = bindR m (\<lambda>x. bindR (f x) g)"
  by (cases m) auto

lemma bindR_cong [fundef_cong]:
  "m = m' \<Longrightarrow> (\<And>x. m' = Inr x \<Longrightarrow> f x = f' x) \<Longrightarrow> bindR m f = bindR m' f'"
  by (cases m') auto

lemma assertR_simps [simp]:
  "assertR True k = k" "assertR False k = Inl Assert_Failed"
  by (simp_all add: assertR_def)

lemma assertR_eq_Inr [res_simps]: "assertR b k = Inr y \<longleftrightarrow> b \<and> k = Inr y"
  by (simp add: assertR_def)

lemma assertR_eq_Inl [res_simps]:
  "assertR b k = Inl e \<longleftrightarrow> (\<not> b \<and> e = Assert_Failed) \<or> (b \<and> k = Inl e)"
  by (auto simp: assertR_def)

lemma assertR_cong [fundef_cong]:
  "b = b' \<Longrightarrow> (b' \<Longrightarrow> k = k') \<Longrightarrow> assertR b k = assertR b' k'"
  by (simp add: assertR_def)

lemma failR_cong [fundef_cong]:
  "b = b' \<Longrightarrow> e = e' \<Longrightarrow> (\<not> b' \<Longrightarrow> k = k') \<Longrightarrow> failR b e k = failR b' e' k'"
  by (simp add: failR_def)

lemma failR_simps [simp]: "failR True e k = Inl e" "failR False e k = k"
  by (simp_all add: failR_def)

lemma failR_eq_Inr [res_simps]: "failR b e k = Inr y \<longleftrightarrow> \<not> b \<and> k = Inr y"
  by (simp add: failR_def)

lemma Inr_neq_Inl_iff: "(\<forall>e. m \<noteq> Inl e) \<longleftrightarrow> (\<exists>x. m = Inr x)"
  by (cases m) auto

text \<open>A C++ \<open>for\<close> loop over the elements of a list, stopping at the first failure.\<close>

fun foldR :: "('a \<Rightarrow> 's \<Rightarrow> 's res) \<Rightarrow> 'a list \<Rightarrow> 's \<Rightarrow> 's res" where
  "foldR f [] s = Inr s"
| "foldR f (x # xs) s = bindR (f x s) (foldR f xs)"

lemma foldR_append: "foldR f (xs @ ys) s = bindR (foldR f xs s) (foldR f ys)"
proof (induction xs arbitrary: s)
  case Nil
  then show ?case by simp
next
  case (Cons x xs)
  then show ?case by (cases "f x s") simp_all
qed

lemma foldR_invariant:
  assumes "foldR f xs s = Inr t" and "P s"
    and "\<And>x u v. x \<in> set xs \<Longrightarrow> f x u = Inr v \<Longrightarrow> P u \<Longrightarrow> P v"
  shows "P t"
  using assms
proof (induction xs arbitrary: s)
  case Nil
  then show ?case by simp
next
  case (Cons x xs)
  from Cons.prems(1) obtain u where u: "f x s = Inr u" "foldR f xs u = Inr t"
    by (auto simp: res_simps)
  have "P u" using Cons.prems(3)[OF _ u(1) Cons.prems(2)] by simp
  then show ?case using Cons.IH[OF u(2)] Cons.prems(3) by fastforce
qed

lemma foldR_total:
  assumes "P s" and "\<And>x u. x \<in> set xs \<Longrightarrow> P u \<Longrightarrow> \<exists>v. f x u = Inr v \<and> P v"
  shows "\<exists>t. foldR f xs s = Inr t \<and> P t"
  using assms
proof (induction xs arbitrary: s)
  case Nil
  then show ?case by simp
next
  case (Cons x xs)
  from Cons.prems obtain u where "f x s = Inr u" "P u" by fastforce
  with Cons show ?case by auto
qed

text \<open>A loop \<open>for (i = 0; i < n; i++)\<close> whose body may fail.\<close>

definition forR :: "nat \<Rightarrow> (nat \<Rightarrow> 's \<Rightarrow> 's res) \<Rightarrow> 's \<Rightarrow> 's res" where
  "forR n f s = foldR f [0..<n] s"

lemma forR_invariant:
  assumes "forR n f s = Inr t" "P s" "\<And>i u v. i < n \<Longrightarrow> f i u = Inr v \<Longrightarrow> P u \<Longrightarrow> P v"
  shows "P t"
  using assms foldR_invariant[of f "[0..<n]" s t P] by (auto simp: forR_def)

lemma forR_total:
  assumes "P s" "\<And>i u. i < n \<Longrightarrow> P u \<Longrightarrow> \<exists>v. f i u = Inr v \<and> P v"
  shows "\<exists>t. forR n f s = Inr t \<and> P t"
  using assms foldR_total[of P s "[0..<n]" f] by (auto simp: forR_def)

lemma forR_skip: "(\<And>i. i < n \<Longrightarrow> f i s = Inr s) \<Longrightarrow> forR n f s = Inr s"
  by (induction n) (auto simp: forR_def foldR_append)

lemma forR_Suc: "forR (Suc n) f s = bindR (forR n f s) (f n)"
proof -
  have "foldR f [] = Inr" by (rule ext) simp
  then show ?thesis by (cases "foldR f [0..<n] s") (simp_all add: forR_def foldR_append)
qed

lemma forR_0 [simp]: "forR 0 f s = Inr s"
  by (simp add: forR_def)

text \<open>A loop that keeps a property of its counter and its state never fails.\<close>

lemma forR_upto:
  assumes "P 0 s" "\<And>i u. i < n \<Longrightarrow> P i u \<Longrightarrow> \<exists>v. f i u = Inr v \<and> P (Suc i) v"
  shows "\<exists>t. forR n f s = Inr t \<and> P n t"
  using assms
proof (induction n)
  case 0
  then show ?case by simp
next
  case (Suc n)
  then obtain t where "forR n f s = Inr t" "P n t" by (auto simp: less_Suc_eq)
  then show ?case using Suc.prems(2)[of n t] by (auto simp: forR_Suc)
qed

section \<open>Vectors and heap arrays\<close>

definition vec_get :: "'a list \<Rightarrow> nat \<Rightarrow> 'a res" where
  "vec_get xs i = (if i < length xs then Inr (xs ! i) else Inl Out_Of_Range)"

definition vec_set :: "'a list \<Rightarrow> nat \<Rightarrow> 'a \<Rightarrow> 'a list res" where
  "vec_set xs i x = (if i < length xs then Inr (xs[i := x]) else Inl Out_Of_Range)"

lemma vec_get_Inr [res_simps]: "vec_get xs i = Inr x \<longleftrightarrow> i < length xs \<and> x = xs ! i"
  by (auto simp: vec_get_def)

lemma vec_set_Inr [res_simps]: "vec_set xs i x = Inr ys \<longleftrightarrow> i < length xs \<and> ys = xs[i := x]"
  by (auto simp: vec_set_def)

lemma vec_get_ok: "i < length xs \<Longrightarrow> vec_get xs i = Inr (xs ! i)"
  by (simp add: vec_get_def)

lemma vec_set_ok: "i < length xs \<Longrightarrow> vec_set xs i x = Inr (xs[i := x])"
  by (simp add: vec_set_def)

lemma vec_get_set:
  "vec_set xs i x = Inr ys \<Longrightarrow> vec_get ys j = (if j = i then Inr x else vec_get xs j)"
  by (auto simp: vec_set_def vec_get_def split: if_splits)

text \<open>A pointer into a store of objects.\<close>

definition deref :: "('k \<rightharpoonup> 'v) \<Rightarrow> 'k \<Rightarrow> 'v res" where
  "deref h p = (case h p of None \<Rightarrow> Inl Null_Deref | Some v \<Rightarrow> Inr v)"

lemma deref_Inr [res_simps]: "deref h p = Inr v \<longleftrightarrow> h p = Some v"
  by (auto simp: deref_def split: option.splits)

lemma deref_simps [simp]: "h p = Some v \<Longrightarrow> deref h p = Inr v"
  by (simp add: deref_def)

section \<open>Little-endian bytes\<close>

text \<open>A 32-bit register seen as the four bytes that a \<open>char*\<close> cast of it addresses.\<close>

definition u32_bytes :: "u32 \<Rightarrow> u8 list" where
  "u32_bytes x = [ucast x, ucast (drop_bit 8 x), ucast (drop_bit 16 x), ucast (drop_bit 24 x)]"

fun bytes_u32 :: "u8 list \<Rightarrow> u32" where
  "bytes_u32 [] = 0"
| "bytes_u32 (b # bs) = ucast b OR push_bit 8 (bytes_u32 bs)"

lemma length_u32_bytes [simp]: "length (u32_bytes x) = 4"
  by (simp add: u32_bytes_def)

lemma bytes_u32_bytes: "bytes_u32 (u32_bytes x) = x"
proof (rule bit_word_eqI)
  fix n assume "n < LENGTH(32)"
  then consider "n < 8" | "8 \<le> n" "n < 16" | "16 \<le> n" "n < 24" | "24 \<le> n" "n < 32"
    by fastforce
  then show "bit (bytes_u32 (u32_bytes x)) n = bit x n"
    by cases (auto simp: u32_bytes_def bit_simps)
qed

section \<open>Shifts\<close>

text \<open>Shifts by the value of a 32-bit variable; at least 32 is undefined.\<close>

definition shl32 :: "u32 \<Rightarrow> u32 \<Rightarrow> u32 res" where
  "shl32 x n = failR (n \<ge> 32) Undefined_Shift (Inr (push_bit (unat n) x))"

definition shr32 :: "u32 \<Rightarrow> u32 \<Rightarrow> u32 res" where
  "shr32 x n = failR (n \<ge> 32) Undefined_Shift (Inr (drop_bit (unat n) x))"

lemma shl32_ok [simp]: "n < 32 \<Longrightarrow> shl32 x n = Inr (push_bit (unat n) x)"
  by (simp add: shl32_def failR_def leD)

lemma shr32_ok [simp]: "n < 32 \<Longrightarrow> shr32 x n = Inr (drop_bit (unat n) x)"
  by (simp add: shr32_def failR_def leD)

section \<open>Walks\<close>

text \<open>
  The interface of an object that is stepped through a range of positions, as the grid of a
  kernel is: while there are more positions, a step moves to the next one. \<open>walk_trace\<close> is the
  sequence of the states met by the loop \<open>while (more) step\<close>, at most \<open>n\<close> of them.
\<close>

fun walk_trace :: "('s \<Rightarrow> bool) \<Rightarrow> ('s \<Rightarrow> 's) \<Rightarrow> nat \<Rightarrow> 's \<Rightarrow> 's list" where
  "walk_trace more step 0 s = []"
| "walk_trace more step (Suc n) s = (if more s then s # walk_trace more step n (step s) else [])"

locale walk =
  fixes step :: "'s \<Rightarrow> 's" and more :: "'s \<Rightarrow> bool" and pos :: "'s \<Rightarrow> nat"
    and ok :: "'s \<Rightarrow> bool" and total :: "'s \<Rightarrow> nat"
  assumes ok_step: "ok s \<Longrightarrow> more s \<Longrightarrow> ok (step s)"
    and pos_step: "ok s \<Longrightarrow> more s \<Longrightarrow> pos (step s) = Suc (pos s)"
    and total_step: "total (step s) = total s"
    and more_pos: "ok s \<Longrightarrow> more s \<longleftrightarrow> pos s < total s"
begin

lemma total_iter: "total ((step ^^ n) s) = total s"
  by (induction n) (simp_all add: total_step)

lemma iter_ok:
  "ok s \<Longrightarrow> pos s + n \<le> total s \<Longrightarrow> ok ((step ^^ n) s) \<and> pos ((step ^^ n) s) = pos s + n"
proof (induction n)
  case (Suc n)
  then have "ok ((step ^^ n) s)" "pos ((step ^^ n) s) = pos s + n" by auto
  moreover from this Suc.prems have "more ((step ^^ n) s)" by (simp add: more_pos total_iter)
  ultimately show ?case by (simp add: ok_step pos_step)
qed simp

lemma iter_more: "ok s \<Longrightarrow> pos s + n < total s \<Longrightarrow> more ((step ^^ n) s)"
  using iter_ok[of s n] by (simp add: more_pos total_iter)

lemma iter_end: "ok s \<Longrightarrow> pos s \<le> total s \<Longrightarrow> \<not> more ((step ^^ (total s - pos s)) s)"
  using iter_ok[of s "total s - pos s"] by (simp add: more_pos total_iter)

lemma trace_pos: "ok s \<Longrightarrow> total s \<le> pos s + n \<Longrightarrow> map pos (walk_trace more step n s) = [pos s..<total s]"
proof (induction n arbitrary: s)
  case 0
  then show ?case by simp
next
  case (Suc n)
  show ?case
  proof (cases "more s")
    case True
    then have "pos s < total s" using Suc.prems more_pos by blast
    then show ?thesis
      using Suc.IH[of "step s"] Suc.prems True by (simp add: ok_step pos_step total_step upt_conv_Cons)
  next
    case False
    then show ?thesis using Suc.prems more_pos by auto
  qed
qed

lemma trace_length: "ok s \<Longrightarrow> total s \<le> pos s + n \<Longrightarrow> length (walk_trace more step n s) = total s - pos s"
  using arg_cong[OF trace_pos[of s n], of length] by simp

end

section \<open>Register files\<close>

text \<open>
  The contract of a register file that the instruction handlers use: a write to a register that
  can be written succeeds, is seen by the next read of that register and by no other read, and
  changes nothing about which registers can be written.
\<close>

locale reg_file =
  fixes get :: "'i \<Rightarrow> 's \<Rightarrow> u32 res" and put :: "'i \<Rightarrow> u32 \<Rightarrow> 's \<Rightarrow> 's res"
    and writable :: "'s \<Rightarrow> 'i \<Rightarrow> bool"
  assumes put_ok: "writable s i \<Longrightarrow> \<exists>s'. put i v s = Inr s'"
    and get_put: "writable s i \<Longrightarrow> put i v s = Inr s' \<Longrightarrow> get j s' = (if j = i then Inr v else get j s)"
    and writable_put: "writable s i \<Longrightarrow> put i v s = Inr s' \<Longrightarrow> writable s' j \<longleftrightarrow> writable s j"
begin

lemma put_one:
  assumes "writable s i"
  obtains s' where "put i v s = Inr s'" "\<And>j. get j s' = (if j = i then Inr v else get j s)"
    "\<And>j. writable s' j \<longleftrightarrow> writable s j"
  using put_ok[OF assms, of v] get_put[OF assms, of v] writable_put[OF assms, of v] by blast

text \<open>Two writes, the second of which wins where they meet: a result and a flag.\<close>

lemma put_two:
  assumes "writable s i" "writable s j"
  shows "\<exists>s'. bindR (put i a s) (put j b) = Inr s' \<and>
    (\<forall>k. get k s' = (if k = j then Inr b else if k = i then Inr a else get k s)) \<and>
    (\<forall>k. writable s' k \<longleftrightarrow> writable s k)"
proof -
  obtain s1 where 1: "put i a s = Inr s1" "\<And>k. get k s1 = (if k = i then Inr a else get k s)"
    "\<And>k. writable s1 k \<longleftrightarrow> writable s k" using put_one[OF assms(1)] by blast
  have "writable s1 j" using 1(3) assms(2) by simp
  then obtain s2 where "put j b s1 = Inr s2" "\<And>k. get k s2 = (if k = j then Inr b else get k s1)"
    "\<And>k. writable s2 k \<longleftrightarrow> writable s1 k" using put_one by blast
  with 1 show ?thesis by simp
qed

text \<open>Writes to different registers commute, as far as reads can tell.\<close>

lemma put_commute:
  assumes "writable s i" "writable s j" "i \<noteq> j"
  shows "\<exists>s1 s2. bindR (put i a s) (put j b) = Inr s1 \<and> bindR (put j b s) (put i a) = Inr s2 \<and>
    (\<forall>k. get k s1 = get k s2)"
  using put_two[OF assms(1,2), of a b] put_two[OF assms(2,1), of b a] assms(3) by fastforce

text \<open>A list of registers written one after the other, then read back.\<close>

lemma put_list:
  assumes "distinct (map fst ws)" "\<forall>(i, v) \<in> set ws. writable s i"
  shows "\<exists>s'. foldR (\<lambda>(i, v). put i v) ws s = Inr s' \<and>
    (\<forall>k. get k s' = (case map_of ws k of Some v \<Rightarrow> Inr v | None \<Rightarrow> get k s)) \<and>
    (\<forall>k. writable s' k \<longleftrightarrow> writable s k)"
  using assms
proof (induction ws arbitrary: s)
  case (Cons p ws)
  obtain i v where p: "p = (i, v)" by (cases p)
  then have "writable s i" using Cons.prems(2) by simp
  then obtain s1 where 1: "put i v s = Inr s1" "\<And>j. get j s1 = (if j = i then Inr v else get j s)"
    "\<And>j. writable s1 j \<longleftrightarrow> writable s j" using put_one by blast
  have "\<forall>(j, u) \<in> set ws. writable s1 j" using 1(3) Cons.prems(2) by auto
  then obtain s2 where 2: "foldR (\<lambda>(i, v). put i v) ws s1 = Inr s2"
    "\<And>k. get k s2 = (case map_of ws k of Some v \<Rightarrow> Inr v | None \<Rightarrow> get k s1)"
    "\<And>k. writable s2 k \<longleftrightarrow> writable s1 k"
    using Cons.IH[of s1] Cons.prems(1) by (auto simp: p)
  have "map_of ws i = None" using Cons.prems(1) by (auto simp: p map_of_eq_None_iff)
  then show ?case using 1 2 by (auto simp: p split: option.splits)
qed simp

text \<open>
  A loop over different registers whose body is one write. \<open>P\<close> is what the writes keep of the
  rest of the state, on which the value written may depend.
\<close>

lemma put_seq:
  assumes "P s" "\<And>i u. i < n \<Longrightarrow> P u \<Longrightarrow> f i u = put (r i) (v i) u"
    and "\<And>i x u u'. P u \<Longrightarrow> put i x u = Inr u' \<Longrightarrow> P u'"
    and "inj_on r {..<n}" "\<And>i. i < n \<Longrightarrow> writable s (r i)"
  shows "\<exists>s'. forR n f s = Inr s' \<and> P s' \<and> (\<forall>i < n. get (r i) s' = Inr (v i)) \<and>
    (\<forall>k. k \<notin> r ` {..<n} \<longrightarrow> get k s' = get k s) \<and> (\<forall>k. writable s' k \<longleftrightarrow> writable s k)"
  using assms(2,4,5)
proof (induction n)
  case 0
  then show ?case using assms(1) by (simp add: forR_def)
next
  case (Suc n)
  then obtain s1 where 1: "forR n f s = Inr s1" "P s1" "\<forall>i < n. get (r i) s1 = Inr (v i)"
    "\<forall>k. k \<notin> r ` {..<n} \<longrightarrow> get k s1 = get k s" "\<forall>k. writable s1 k \<longleftrightarrow> writable s k"
    by (auto simp: lessThan_Suc)
  have "writable s1 (r n)" using 1(5) Suc.prems(3) by simp
  then obtain s2 where 2: "put (r n) (v n) s1 = Inr s2"
    "\<And>k. get k s2 = (if k = r n then Inr (v n) else get k s1)" "\<And>k. writable s2 k \<longleftrightarrow> writable s1 k"
    using put_one by blast
  have "forR (Suc n) f s = Inr s2" using 1(1,2) 2(1) Suc.prems(1)[of n] by (simp add: forR_def foldR_append)
  moreover have "P s2" using assms(3) 1(2) 2(1) by blast
  moreover have "get (r i) s2 = Inr (v i)" if "i < Suc n" for i
    using that 1(3) Suc.prems(2) by (cases "i = n") (auto simp: 2(2) inj_on_def)
  moreover have "get k s2 = get k s" if "k \<notin> r ` {..<Suc n}" for k
    using that 1(4) by (auto simp: 2(2) lessThan_Suc)
  ultimately show ?case using 1(5) 2(3) by blast
qed

end

section \<open>Bits of lane masks\<close>

definition lanes :: "u32 \<Rightarrow> nat set" where
  "lanes m = {i. bit m i}"

lemma mem_lanes [simp]: "i \<in> lanes m \<longleftrightarrow> bit m i"
  by (simp add: lanes_def)

lemma bit_mask_lt [dest]: "bit (m :: u32) i \<Longrightarrow> i < 32"
  using bit_imp_le_length[of m i] by simp

lemma lanes_lt: "i \<in> lanes m \<Longrightarrow> i < 32"
  by (auto dest: bit_imp_le_length)

lemma finite_lanes [simp]: "finite (lanes m)"
  by (rule finite_subset[of _ "{..<32}"]) (auto dest: lanes_lt bit_imp_le_length)

lemma lanes_eq_iff: "lanes a = lanes b \<longleftrightarrow> a = b"
  by (auto simp: lanes_def set_eq_iff intro: bit_word_eqI)

lemma lanes_0 [simp]: "lanes 0 = {}"
  by (auto simp: lanes_def)

lemma lanes_empty_iff [simp]: "lanes m = {} \<longleftrightarrow> m = 0"
proof -
  have "lanes (0 :: u32) = {}" by (auto simp: lanes_def)
  then show ?thesis using lanes_eq_iff[of m 0] by simp
qed

lemma bit_set_lane [bit_lanes]: "bit (set_bit i (m :: u32)) j \<longleftrightarrow> (j = i \<and> i < 32) \<or> bit m j"
  by (auto simp: bit_simps)

lemma bit_unset_lane [bit_lanes]: "bit (unset_bit i (m :: u32)) j \<longleftrightarrow> bit m j \<and> j \<noteq> i"
  by (auto simp: bit_simps)

lemma bit_lane_singleton [bit_lanes]: "bit (2 ^ i :: u32) j \<longleftrightarrow> j = i \<and> i < 32"
  by (auto simp: bit_simps)

lemma lanes_set_bit: "i < 32 \<Longrightarrow> lanes (set_bit i m) = insert i (lanes m)"
  by (auto simp: bit_lanes)

lemma lanes_unset_bit: "lanes (unset_bit i m) = lanes m - {i}"
  by (auto simp: bit_lanes)

lemma lanes_or: "lanes (a OR b) = lanes a \<union> lanes b"
  by (auto simp: bit_simps)

lemma lanes_and: "lanes (a AND b) = lanes a \<inter> lanes b"
  by (auto simp: bit_simps)

lemma lanes_not: "lanes (NOT a) = {..<32} - lanes a"
  by (auto simp: bit_simps dest: bit_imp_le_length)

text \<open>The mask of the lanes that satisfy a predicate.\<close>

definition mask_of :: "(nat \<Rightarrow> bool) \<Rightarrow> u32" where
  "mask_of P = fold (\<lambda>i m. if P i then set_bit i m else m) [0..<32] 0"

lemma bit_fold_set_bit:
  "\<forall>i \<in> set is. i < 32 \<Longrightarrow> bit (fold (\<lambda>i m. if P i then set_bit i m else m) is (m :: u32)) j
     \<longleftrightarrow> bit m j \<or> (j \<in> set is \<and> P j)"
  by (induction "is" arbitrary: m) (auto simp: bit_lanes)

lemma bit_mask_of [bit_lanes]: "bit (mask_of P) j \<longleftrightarrow> j < 32 \<and> P j"
  by (simp add: mask_of_def bit_fold_set_bit)

lemma mask_of_eqI: "(\<And>j. j < 32 \<Longrightarrow> bit m j \<longleftrightarrow> P j) \<Longrightarrow> m = mask_of P"
  by (rule bit_word_eqI) (simp add: bit_lanes)

end
