(* ===== verification/Simt_Stack.thy ===== *)
theory Simt_Stack
  imports Sim_Prelude
begin

text \<open>
  The SIMT stack of a warp (model/Warp.cpp, model/inc/Warp.h). A stack entry holds a program
  counter, the lanes that execute from it and the program counter at which they reconverge.
  \<open>Warp_update\<close> is called after every instruction with the next program counter of every lane:
  it regroups the lanes of the top entry, splits the entry when they diverge and pops it when
  they reach their reconvergence point. The deque \<open>m_stack\<close> is a list whose head is
  \<open>m_stack.back()\<close>; a bitset over 32 lanes is a 32-bit word.
\<close>

section \<open>State\<close>

text \<open>The members of the external enumeration \<open>opu_op_t\<close> that the sources name.\<close>

datatype op_type_t = NO_OP | CALL_OP | RET_OP | CALL_OPS | RET_OPS | BARRIER_OP
  | MEMORY_BARRIER_OP | OTHER_OP nat

datatype stack_entry_type = STACK_ENTRY_TYPE_NORMAL | STACK_ENTRY_TYPE_CALL

record SimtStack_entry =
  se_PC :: addr_t
  se_calldepth :: u32
  se_active_mask :: u32
  se_recvg_pc :: addr_t
  se_branch_div_cycle :: u64
  se_type :: stack_entry_type

type_synonym simt_stack = "SimtStack_entry list"

text \<open>\<open>w_div_stats\<close> lists the calls of \<open>ptx_file_line_stats_add_warp_divergence\<close>, last first.\<close>

record Warp =
  w_warp_id :: u32
  w_warp_size :: nat
  w_stack :: simt_stack
  w_finished :: bool
  w_div_stats :: "addr_t list"

definition null_pc :: addr_t where
  "null_pc = -1"

definition new_SimtStack_entry :: SimtStack_entry where
  "new_SimtStack_entry = \<lparr>se_PC = -1, se_calldepth = 0, se_active_mask = 0, se_recvg_pc = -1,
     se_branch_div_cycle = 0, se_type = STACK_ENTRY_TYPE_NORMAL\<rparr>"

definition stack_back :: "simt_stack \<Rightarrow> SimtStack_entry res" where
  "stack_back stk = (case stk of [] \<Rightarrow> Inl Out_Of_Range | e # _ \<Rightarrow> Inr e)"

definition modify_back :: "(SimtStack_entry \<Rightarrow> SimtStack_entry) \<Rightarrow> simt_stack \<Rightarrow> simt_stack res" where
  "modify_back f stk = (case stk of [] \<Rightarrow> Inl Out_Of_Range | e # es \<Rightarrow> Inr (f e # es))"

section \<open>Simple operations\<close>

definition Warp_reset :: "Warp \<Rightarrow> Warp" where
  "Warp_reset w = w\<lparr>w_stack := []\<rparr>"

definition new_Warp :: "u32 \<Rightarrow> nat \<Rightarrow> Warp" where
  "new_Warp wid warpSize = Warp_reset \<lparr>w_warp_id = wid, w_warp_size = warpSize, w_stack = [],
     w_finished = False, w_div_stats = []\<rparr>"

definition Warp_launch :: "addr_t \<Rightarrow> u32 \<Rightarrow> Warp \<Rightarrow> Warp" where
  "Warp_launch start_pc active_mask w =
     (let w = Warp_reset w;
          e = new_SimtStack_entry\<lparr>se_PC := start_pc, se_calldepth := 1,
                se_active_mask := active_mask, se_type := STACK_ENTRY_TYPE_NORMAL\<rparr>
      in w\<lparr>w_stack := e # w_stack w\<rparr>)"

definition get_simt_active_mask :: "Warp \<Rightarrow> u32 res" where
  "get_simt_active_mask w =
     assertR (length (w_stack w) > 0) (bindR (stack_back (w_stack w)) (\<lambda>e. Inr (se_active_mask e)))"

definition set_simt_active_mask :: "u32 \<Rightarrow> bool \<Rightarrow> Warp \<Rightarrow> Warp res" where
  "set_simt_active_mask active isatomic w =
     assertR (length (w_stack w) > 0)
       (bindR (modify_back (\<lambda>e. e\<lparr>se_active_mask := active\<rparr>) (w_stack w))
         (\<lambda>stk. Inr (w\<lparr>w_stack := stk\<rparr>)))"

definition update_simt_active_mask :: "bool \<Rightarrow> Warp \<Rightarrow> Warp res" where
  "update_simt_active_mask isatomic_op w =
     bindR (get_simt_active_mask w) (\<lambda>m. set_simt_active_mask m isatomic_op w)"

text \<open>Program counters are read into \<open>unsigned\<close> variables: the upper 32 bits are lost.\<close>

definition get_pdom_stack_top_info :: "Warp \<Rightarrow> (u32 \<times> u32) res" where
  "get_pdom_stack_top_info w =
     assertR (length (w_stack w) > 0)
       (bindR (stack_back (w_stack w)) (\<lambda>e. Inr (ucast (se_PC e), ucast (se_recvg_pc e))))"

definition get_rp :: "Warp \<Rightarrow> u32 res" where
  "get_rp w = assertR (length (w_stack w) > 0)
     (bindR (stack_back (w_stack w)) (\<lambda>e. Inr (ucast (se_recvg_pc e))))"

definition SetFinished :: "bool \<Rightarrow> Warp \<Rightarrow> Warp" where
  "SetFinished f w = w\<lparr>w_finished := f\<rparr>"

section \<open>Grouping the lanes of the top entry by their next program counter\<close>

text \<open>
  The inner loop of \<open>Warp::update\<close>, for lanes \<open>i - 1\<close> down to 0. Its state is
  \<open>top_active_mask\<close>, \<open>tmp_next_pc\<close> and \<open>tmp_active_mask\<close>. As in the code, \<open>tmp_next_pc\<close> equal
  to \<open>null_pc\<close> means that no lane has been taken yet.
\<close>

definition extract_lane :: "u32 \<Rightarrow> addr_t list \<Rightarrow> nat \<Rightarrow> u32 \<times> addr_t \<times> u32 \<Rightarrow> u32 \<times> addr_t \<times> u32" where
  "extract_lane dn npc i st =
     (case st of (act, pc, grp) \<Rightarrow>
        if bit act i then
          if bit dn i then (unset_bit i act, pc, grp)
          else if pc = null_pc then (unset_bit i act, npc ! i, set_bit i grp)
          else if pc = npc ! i then (unset_bit i act, pc, set_bit i grp)
          else (act, pc, grp)
        else (act, pc, grp))"

fun extract_group :: "u32 \<Rightarrow> addr_t list \<Rightarrow> nat \<Rightarrow> u32 \<times> addr_t \<times> u32 \<Rightarrow> u32 \<times> addr_t \<times> u32" where
  "extract_group dn npc 0 st = st"
| "extract_group dn npc (Suc i) st = extract_group dn npc i (extract_lane dn npc i st)"

text \<open>\<open>divergent_paths\<close> is a \<open>std::map\<close>: an association list sorted by its keys.\<close>

type_synonym paths = "(addr_t \<times> u32) list"

fun paths_put :: "addr_t \<Rightarrow> u32 \<Rightarrow> paths \<Rightarrow> paths" where
  "paths_put k v [] = [(k, v)]"
| "paths_put k v ((k', v') # ps) =
     (if k < k' then (k, v) # (k', v') # ps
      else if k = k' then (k, v) # ps
      else (k', v') # paths_put k v ps)"

definition paths_erase :: "addr_t \<Rightarrow> paths \<Rightarrow> paths" where
  "paths_erase k ps = filter (\<lambda>(k', _). k' \<noteq> k) ps"

lemma extract_group_snoc:
  "extract_group dn npc n (act, pc, grp) = (act', pc', grp') \<Longrightarrow> lanes act' \<subseteq> lanes act"
proof (induction n arbitrary: act pc grp)
  case 0
  then show ?case by simp
next
  case (Suc n)
  obtain t p g where e: "extract_lane dn npc n (act, pc, grp) = (t, p, g)"
    by (metis prod_cases3)
  then have "lanes t \<subseteq> lanes act"
    by (auto simp: extract_lane_def bit_lanes split: if_splits)
  then show ?case using Suc e by fastforce
qed

lemma extract_group_shrinks:
  "extract_group dn npc n (act, null_pc, grp) = (act', pc', grp') \<Longrightarrow> pc' \<noteq> null_pc
   \<Longrightarrow> lanes act' \<subset> lanes act"
proof (induction n arbitrary: act grp)
  case 0
  then show ?case by simp
next
  case (Suc n)
  show ?case
  proof (cases "bit act n")
    case True
    obtain t p g where e: "extract_lane dn npc n (act, null_pc, grp) = (t, p, g)"
      by (metis prod_cases3)
    with True have "t = unset_bit n act"
      by (auto simp: extract_lane_def split: if_splits)
    moreover from Suc.prems(1) e have "lanes act' \<subseteq> lanes t"
      by (auto dest: extract_group_snoc)
    ultimately show ?thesis using True by (auto simp: bit_lanes)
  next
    case False
    then have "extract_lane dn npc n (act, null_pc, grp) = (act, null_pc, grp)"
      by (simp add: extract_lane_def)
    with Suc show ?thesis by simp
  qed
qed

text \<open>The outer loop: one group per iteration, until no active lane is left.\<close>

function collect_paths :: "u32 \<Rightarrow> addr_t list \<Rightarrow> nat \<Rightarrow> u32 \<Rightarrow> paths \<Rightarrow> nat \<Rightarrow> (paths \<times> nat) res" where
  "collect_paths dn npc ws act ps num =
     (if act = 0 then Inr (ps, num)
      else let g = extract_group dn npc ws (act, null_pc, 0);
               act' = fst g; pc = fst (snd g); grp = snd (snd g)
           in if pc = null_pc then assertR (act' = 0) (collect_paths dn npc ws act' ps num)
              else collect_paths dn npc ws act' (paths_put pc grp ps) (num + 1))"
  by pat_completeness auto
termination
proof (relation "measure (\<lambda>(dn, npc, ws, act, ps, num). card (lanes act))", goal_cases)
  case 1
  then show ?case by simp
next
  case (2 dn npc ws act ps num g act' pc grp)
  then show ?case by (simp add: card_gt_0_iff)
next
  case (3 dn npc ws act ps num g act' pc grp)
  then have "lanes act' \<subset> lanes act"
    using extract_group_shrinks[of dn npc ws act 0 act' pc grp] by (metis prod.collapse)
  then show ?case by (simp add: psubset_card_mono)
qed

declare collect_paths.simps [simp del]

section \<open>Updating the stack with the groups\<close>

text \<open>
  What the loop over the groups keeps constant (\<open>path_ctx\<close>) and what it changes
  (\<open>path_state\<close>). \<open>Returned\<close> is a \<open>return\<close> out of the loop.
\<close>

record path_ctx =
  px_recvg_pc :: addr_t
  px_op :: op_type_t
  px_not_taken_pc :: addr_t
  px_num :: nat
  px_top_recvg_pc :: addr_t
  px_top_type :: stack_entry_type

record path_state =
  ps_paths :: paths
  ps_stack :: simt_stack
  ps_diverged :: bool
  ps_new_recvg_pc :: addr_t

datatype loop_result = Continue path_state | Returned simt_stack

definition select_path :: "path_ctx \<Rightarrow> nat \<Rightarrow> paths \<Rightarrow> (addr_t \<times> u32 \<times> paths) res" where
  "select_path cx i ps =
     (case map_of ps (px_not_taken_pc cx) of
        Some m \<Rightarrow> assertR (i = 0)
          (Inr (px_not_taken_pc cx, m, paths_erase (px_not_taken_pc cx) ps))
      | None \<Rightarrow> (case ps of [] \<Rightarrow> Inl Out_Of_Range
                 | (pc, m) # _ \<Rightarrow> Inr (pc, m, paths_erase pc ps)))"

definition handle_call :: "path_ctx \<Rightarrow> addr_t \<Rightarrow> u32 \<Rightarrow> simt_stack \<Rightarrow> loop_result res" where
  "handle_call cx pc m stk =
     assertR (px_num cx = 1)
       (Inr (Returned (new_SimtStack_entry\<lparr>se_PC := pc, se_active_mask := m,
                         se_type := STACK_ENTRY_TYPE_CALL\<rparr> # stk)))"

definition handle_ret :: "path_ctx \<Rightarrow> addr_t \<Rightarrow> simt_stack \<Rightarrow> loop_result res" where
  "handle_ret cx pc stk =
     assertR (px_num cx = 1)
       (let stk = tl stk in
        assertR (length stk > 0)
          (bindR (modify_back (\<lambda>e. e\<lparr>se_PC := pc\<rparr>) stk) (\<lambda>stk.
           bindR (stack_back stk) (\<lambda>e.
             if pc = se_recvg_pc e \<and> se_type e \<noteq> STACK_ENTRY_TYPE_CALL
             then assertR (se_type e = STACK_ENTRY_TYPE_NORMAL) (Inr (Returned (tl stk)))
             else Inr (Returned stk)))))"

definition mark_divergence :: "path_ctx \<Rightarrow> path_state \<Rightarrow> path_state res" where
  "mark_divergence cx s =
     (if px_num cx > 1 \<and> \<not> ps_diverged s then
        let s = s\<lparr>ps_diverged := True, ps_new_recvg_pc := px_recvg_pc cx\<rparr> in
        if ps_new_recvg_pc s \<noteq> px_top_recvg_pc cx then
          bindR (modify_back (\<lambda>e. e\<lparr>se_PC := ps_new_recvg_pc s\<rparr>) (ps_stack s))
            (\<lambda>stk. Inr (s\<lparr>ps_stack := new_SimtStack_entry # stk\<rparr>))
        else Inr s
      else Inr s)"

definition place_path :: "path_ctx \<Rightarrow> addr_t \<Rightarrow> u32 \<Rightarrow> path_state \<Rightarrow> path_state res" where
  "place_path cx pc m s =
     bindR (modify_back (\<lambda>e. let e = e\<lparr>se_PC := pc, se_active_mask := m\<rparr> in
              if ps_diverged s then e\<lparr>se_calldepth := 0, se_recvg_pc := ps_new_recvg_pc s\<rparr>
              else e\<lparr>se_recvg_pc := px_top_recvg_pc cx\<rparr>) (ps_stack s))
       (\<lambda>stk. Inr (s\<lparr>ps_stack := new_SimtStack_entry # stk\<rparr>))"

definition path_step :: "path_ctx \<Rightarrow> nat \<Rightarrow> path_state \<Rightarrow> loop_result res" where
  "path_step cx i s =
     bindR (select_path cx i (ps_paths s)) (\<lambda>(pc, m, ps).
       let s = s\<lparr>ps_paths := ps\<rparr> in
       if px_op cx = CALL_OP then handle_call cx pc m (ps_stack s)
       else if px_op cx = RET_OP \<and> px_top_type cx = STACK_ENTRY_TYPE_CALL
         then handle_ret cx pc (ps_stack s)
       else if pc = px_top_recvg_pc cx \<and> px_top_type cx \<noteq> STACK_ENTRY_TYPE_CALL
         then Inr (Continue s)
       else bindR (mark_divergence cx s) (\<lambda>s.
         if ps_diverged s \<and> pc = ps_new_recvg_pc s then Inr (Continue s)
         else bindR (place_path cx pc m s) (\<lambda>s. Inr (Continue s))))"

fun paths_loop :: "path_ctx \<Rightarrow> nat \<Rightarrow> nat \<Rightarrow> path_state \<Rightarrow> loop_result res" where
  "paths_loop cx i 0 s = Inr (Continue s)"
| "paths_loop cx i (Suc n) s =
     bindR (path_step cx i s) (\<lambda>r. case r of
       Returned stk \<Rightarrow> Inr (Returned stk)
     | Continue s' \<Rightarrow> paths_loop cx (i + 1) n s')"

text \<open>After the loop the entry that is still to be filled is popped.\<close>

fun finish_update :: "addr_t \<Rightarrow> loop_result \<Rightarrow> Warp \<Rightarrow> Warp res" where
  "finish_update top_pc (Returned stk) w = Inr (w\<lparr>w_stack := stk\<rparr>)"
| "finish_update top_pc (Continue s) w =
     assertR (length (ps_stack s) > 0)
       (Inr (w\<lparr>w_stack := tl (ps_stack s),
               w_div_stats := (if ps_diverged s then [top_pc] else []) @ w_div_stats w\<rparr>))"

definition Warp_update ::
  "u32 \<Rightarrow> addr_t list \<Rightarrow> addr_t \<Rightarrow> op_type_t \<Rightarrow> u32 \<Rightarrow> addr_t \<Rightarrow> Warp \<Rightarrow> Warp res" where
  "Warp_update thread_done next_pc recvg_pc next_inst_op next_inst_size next_inst_pc w =
     assertR (length (w_stack w) > 0)
    (assertR (length next_pc = w_warp_size w)
    (bindR (stack_back (w_stack w)) (\<lambda>topE.
     assertR (se_PC topE = next_inst_pc)
    (assertR (se_active_mask topE \<noteq> 0)
    (failR (w_warp_size w > 32) Out_Of_Range
    (bindR (collect_paths thread_done next_pc (w_warp_size w) (se_active_mask topE) [] 0)
      (\<lambda>(paths, num).
     assertR (num \<le> 2)
    (bindR (paths_loop
        \<lparr>px_recvg_pc = recvg_pc, px_op = next_inst_op,
         px_not_taken_pc = next_inst_pc + ucast next_inst_size, px_num = num,
         px_top_recvg_pc = se_recvg_pc topE, px_top_type = se_type topE\<rparr>
        0 num
        \<lparr>ps_paths = paths, ps_stack = w_stack w, ps_diverged = False, ps_new_recvg_pc = null_pc\<rparr>)
      (\<lambda>r. finish_update (se_PC topE) r w)
      ))))))))"

section \<open>What the grouping computes\<close>

lemma extract_lane_null_pc [simp]:
  "bit act n \<Longrightarrow> bit dn n \<Longrightarrow> extract_lane dn npc n (act, pc, grp) = (unset_bit n act, pc, grp)"
  "\<not> bit act n \<Longrightarrow> extract_lane dn npc n (act, pc, grp) = (act, pc, grp)"
  by (simp_all add: extract_lane_def)

lemma extract_group_started:
  assumes "extract_group dn npc n (act, pc, grp) = (act', pc', grp')" "pc \<noteq> null_pc" "n \<le> 32"
  shows "pc' = pc"
    "bit act' j \<longleftrightarrow> bit act j \<and> \<not> (j < n \<and> (bit dn j \<or> npc ! j = pc))"
    "bit grp' j \<longleftrightarrow> bit grp j \<or> (j < n \<and> bit act j \<and> \<not> bit dn j \<and> npc ! j = pc)"
  using assms
proof (induction n arbitrary: act grp)
  case (Suc n)
  { case 1 then show ?case using Suc.IH(1) by (auto simp: extract_lane_def split: if_splits) }
  { case 2 then show ?case using Suc.IH(2)
      by (auto simp: extract_lane_def bit_lanes less_Suc_eq split: if_splits) }
  { case 3 then show ?case using Suc.IH(3)
      by (auto simp: extract_lane_def bit_lanes less_Suc_eq split: if_splits) }
qed auto

text \<open>A lane is live when it is active and its thread has not completed.\<close>

definition live :: "u32 \<Rightarrow> u32 \<Rightarrow> nat set" where
  "live dn act = {j. bit act j \<and> \<not> bit dn j}"

lemma mem_live [simp]: "j \<in> live dn act \<longleftrightarrow> bit act j \<and> \<not> bit dn j"
  by (simp add: live_def)

lemma finite_live [simp]: "finite (live dn act)"
  by (rule finite_subset[OF _ finite_lanes[of act]]) auto

lemma extract_group_null:
  assumes "extract_group dn npc n (act, null_pc, 0) = (act', pc', grp')" "n \<le> 32"
    and "\<forall>j < n. bit act j \<longrightarrow> \<not> bit dn j \<longrightarrow> npc ! j \<noteq> null_pc"
  shows "(bit act' j \<longleftrightarrow> bit act j \<and> \<not> (j < n \<and> (bit dn j \<or> npc ! j = pc'))) \<and>
    (bit grp' j \<longleftrightarrow> j < n \<and> bit act j \<and> \<not> bit dn j \<and> npc ! j = pc') \<and>
    (if live dn act \<inter> {..<n} = {} then pc' = null_pc
     else pc' \<noteq> null_pc \<and> pc' \<in> (!) npc ` (live dn act \<inter> {..<n}))"
  using assms
proof (induction n arbitrary: act)
  case 0
  then show ?case by auto
next
  case (Suc n)
  consider (skip) "\<not> bit act n" | (dead) "bit act n" "bit dn n" | (take) "bit act n" "\<not> bit dn n"
    by blast
  then show ?case
  proof cases
    case skip
    then have "live dn act \<inter> {..<Suc n} = live dn act \<inter> {..<n}" by (auto simp: less_Suc_eq)
    then show ?thesis using Suc.IH[of act] Suc.prems skip by (auto simp: less_Suc_eq)
  next
    case dead
    then have "live dn act \<inter> {..<Suc n} = live dn (unset_bit n act) \<inter> {..<n}"
      by (auto simp: less_Suc_eq bit_lanes)
    then show ?thesis using Suc.IH[of "unset_bit n act"] Suc.prems dead
      by (auto simp: less_Suc_eq bit_lanes)
  next
    case take
    then have ne: "npc ! n \<noteq> null_pc" using Suc.prems by auto
    have "extract_group dn npc n (unset_bit n act, npc ! n, set_bit n 0) = (act', pc', grp')"
      using Suc.prems(1) take by (simp add: extract_lane_def)
    note s = extract_group_started[OF this ne]
    have "n \<in> live dn act \<inter> {..<Suc n}" using take by simp
    then show ?thesis using s(1) s(2,3)[of j] ne Suc.prems(2) take
      by (auto simp: less_Suc_eq bit_lanes)
  qed
qed

lemma map_of_paths_put [simp]: "map_of (paths_put k v ps) = (map_of ps)(k \<mapsto> v)"
  by (induction k v ps rule: paths_put.induct) auto

lemma set_paths_put [simp]: "fst ` set (paths_put k v ps) = insert k (fst ` set ps)"
  by (induction k v ps rule: paths_put.induct) auto

lemma sorted_paths_put:
  "sorted_wrt (<) (map fst ps) \<Longrightarrow> sorted_wrt (<) (map fst (paths_put k v ps))"
proof (induction k v ps rule: paths_put.induct)
  case (2 k v k' v' ps)
  have "set (map fst (paths_put k v ps)) = insert k (set (map fst ps))" by simp
  with 2 show ?case by (auto simp del: set_map)
qed simp

text \<open>
  The groups as the code means them: one per next program counter of a live lane, in
  increasing order, each with the mask of its lanes.
\<close>

definition group_mask :: "u32 \<Rightarrow> addr_t list \<Rightarrow> u32 \<Rightarrow> addr_t \<Rightarrow> u32" where
  "group_mask dn npc act k = mask_of (\<lambda>j. bit act j \<and> \<not> bit dn j \<and> npc ! j = k)"

definition next_pcs :: "u32 \<Rightarrow> addr_t list \<Rightarrow> u32 \<Rightarrow> addr_t set" where
  "next_pcs dn npc act = (!) npc ` live dn act"

definition groups :: "u32 \<Rightarrow> addr_t list \<Rightarrow> u32 \<Rightarrow> paths" where
  "groups dn npc act =
     map (\<lambda>k. (k, group_mask dn npc act k)) (sorted_list_of_set (next_pcs dn npc act))"

lemma bit_group_mask [bit_lanes]:
  "bit (group_mask dn npc act k) j \<longleftrightarrow> bit act j \<and> \<not> bit dn j \<and> npc ! j = k"
  by (auto simp: group_mask_def bit_lanes dest: bit_imp_le_length)

lemma finite_next_pcs [simp]: "finite (next_pcs dn npc act)"
  by (simp add: next_pcs_def)

lemma in_next_pcs: "bit act j \<Longrightarrow> \<not> bit dn j \<Longrightarrow> npc ! j \<in> next_pcs dn npc act"
  by (simp add: next_pcs_def)

lemma sorted_alist_eqI:
  assumes "sorted_wrt (<) (map fst a)" "sorted_wrt (<) (map fst b)" "map_of a = map_of b"
  shows "a = (b :: paths)"
proof -
  have d: "distinct (map fst a)" "distinct (map fst b)" "sorted (map fst a)" "sorted (map fst b)"
    using assms(1,2) by (auto simp: strict_sorted_iff)
  have "set (map fst a) = set (map fst b)"
    using assms(3) by (metis dom_map_of_conv_image_fst set_map)
  then have k: "map fst a = map fst b" using d by (metis sorted_distinct_set_unique)
  have tab: "map (\<lambda>k. (k, the (map_of c k))) (map fst c) = c" if "distinct (map fst c)" for c :: paths
    using that by (auto simp: comp_def intro!: map_idI)
  show ?thesis by (rule trans[OF tab[OF d(1), unfolded k assms(3), symmetric] tab[OF d(2)]])
qed

text \<open>What the theorems below assume of the arguments of \<open>Warp_update\<close>: every active lane
  exists and no live lane jumps to the address that stands for ``none''.\<close>

definition lanes_ok :: "u32 \<Rightarrow> addr_t list \<Rightarrow> u32 \<Rightarrow> bool" where
  "lanes_ok dn npc act \<longleftrightarrow> length npc \<le> 32 \<and> lanes act \<subseteq> {..<length npc} \<and>
     null_pc \<notin> next_pcs dn npc act"

lemma collect_paths_0 [simp]: "collect_paths dn npc ws 0 ps num = Inr (ps, num)"
  by (subst collect_paths.simps) simp

lemma collect_paths_dead:
  "act \<noteq> 0 \<Longrightarrow> extract_group dn npc ws (act, null_pc, 0) = (0, null_pc, grp) \<Longrightarrow>
   collect_paths dn npc ws act ps num = Inr (ps, num)"
  by (subst collect_paths.simps) (simp add: Let_def)

lemma collect_paths_group:
  "act \<noteq> 0 \<Longrightarrow> extract_group dn npc ws (act, null_pc, 0) = (act', pc, grp) \<Longrightarrow> pc \<noteq> null_pc \<Longrightarrow>
   collect_paths dn npc ws act ps num = collect_paths dn npc ws act' (paths_put pc grp ps) (num + 1)"
  by (subst collect_paths.simps) (simp add: Let_def)

lemma collect_paths_spec:
  assumes "lanes_ok dn npc act" "sorted_wrt (<) (map fst ps)"
  shows "\<exists>ps' num'. collect_paths dn npc (length npc) act ps num = Inr (ps', num') \<and>
    sorted_wrt (<) (map fst ps') \<and> num' = num + card (next_pcs dn npc act) \<and>
    map_of ps' = (\<lambda>k. if k \<in> next_pcs dn npc act then Some (group_mask dn npc act k)
                      else map_of ps k)"
  using assms
proof (induction dn npc "length npc" act ps num rule: collect_paths.induct)
  case (1 dn npc act ps num)
  obtain act' pc grp where e: "extract_group dn npc (length npc) (act, null_pc, 0) = (act', pc, grp)"
    by (metis prod_cases3)
  have len: "length npc \<le> 32" and sub: "\<And>j. bit act j \<Longrightarrow> j < length npc"
    using 1(3) by (auto simp: lanes_ok_def)
  have nn: "\<forall>j < length npc. bit act j \<longrightarrow> \<not> bit dn j \<longrightarrow> npc ! j \<noteq> null_pc"
    using 1(3) in_next_pcs[of act _ dn npc] by (metis lanes_ok_def)
  note g = extract_group_null[OF e len nn]
  have lv: "live dn act \<inter> {..<length npc} = live dn act" using sub by auto
  have g1: "bit act' j \<longleftrightarrow> bit act j \<and> \<not> bit dn j \<and> npc ! j \<noteq> pc"
    and g2: "bit grp j \<longleftrightarrow> bit act j \<and> \<not> bit dn j \<and> npc ! j = pc" for j
    using g[of j] sub[of j] by blast+
  have lv': "live dn act' = {j \<in> live dn act. npc ! j \<noteq> pc}" by (auto simp: g1)
  show ?case
  proof (cases "act = 0")
    case True
    then show ?thesis using 1(4) by (simp add: next_pcs_def live_def)
  next
    case act: False
    show ?thesis
    proof (cases "live dn act = {}")
      case True
      then have "pc = null_pc" "\<And>j. \<not> bit act' j"
        using g lv g1 by (auto simp: set_eq_iff)
      then have "pc = null_pc" "act' = 0" by (auto intro: bit_word_eqI)
      then have "collect_paths dn npc (length npc) act ps num = Inr (ps, num)"
        using act e by (intro collect_paths_dead) auto
      then show ?thesis using True 1(4) by (simp add: next_pcs_def)
    next
      case False
      then have pc: "pc \<noteq> null_pc" "pc \<in> next_pcs dn npc act"
        using g lv by (auto simp: next_pcs_def)
      have grp: "grp = group_mask dn npc act pc"
        by (rule bit_word_eqI) (simp add: bit_lanes g2)
      have np: "next_pcs dn npc act' = next_pcs dn npc act - {pc}"
        unfolding next_pcs_def lv' by auto
      have gm: "k \<noteq> pc \<Longrightarrow> group_mask dn npc act' k = group_mask dn npc act k" for k
        by (rule bit_word_eqI) (auto simp: bit_lanes g1)
      have ok: "lanes_ok dn npc act'"
        using 1(3) np g1 by (auto simp: lanes_ok_def)
      obtain ps' num' where c:
        "collect_paths dn npc (length npc) act' (paths_put pc grp ps) (num + 1) = Inr (ps', num')"
        "sorted_wrt (<) (map fst ps')" "num' = num + 1 + card (next_pcs dn npc act')"
        "map_of ps' = (\<lambda>k. if k \<in> next_pcs dn npc act' then Some (group_mask dn npc act' k)
                           else map_of (paths_put pc grp ps) k)"
        using 1(2)[OF act refl refl refl refl, unfolded e fst_conv snd_conv,
            OF pc(1) ok sorted_paths_put[OF 1(4)]] by blast
      have "card (next_pcs dn npc act) = Suc (card (next_pcs dn npc act'))"
        unfolding np using pc(2) by (metis card_Suc_Diff1 finite_next_pcs)
      moreover have "map_of ps' = (\<lambda>k. if k \<in> next_pcs dn npc act
          then Some (group_mask dn npc act k) else map_of ps k)"
        unfolding c(4) np using pc(2) gm grp by (auto simp: fun_eq_iff)
      ultimately show ?thesis
        using c(1-3) by (simp add: collect_paths_group[OF act e pc(1)])
    qed
  qed
qed

lemma map_fst_groups: "map fst (groups dn npc act) = sorted_list_of_set (next_pcs dn npc act)"
  by (simp add: groups_def comp_def)

lemma length_groups: "length (groups dn npc act) = card (next_pcs dn npc act)"
  by (simp add: groups_def)

lemma map_of_groups:
  "map_of (groups dn npc act) =
     (\<lambda>k. if k \<in> next_pcs dn npc act then Some (group_mask dn npc act k) else None)"
  by (auto simp: groups_def map_of_map_restrict restrict_map_def fun_eq_iff)

lemma collect_paths_groups:
  assumes "lanes_ok dn npc act"
  shows "collect_paths dn npc (length npc) act [] 0 =
    Inr (groups dn npc act, card (next_pcs dn npc act))"
proof -
  obtain ps' where "collect_paths dn npc (length npc) act [] 0 =
      Inr (ps', card (next_pcs dn npc act))"
    "sorted_wrt (<) (map fst ps')"
    "map_of ps' = (\<lambda>k. if k \<in> next_pcs dn npc act then Some (group_mask dn npc act k) else None)"
    using collect_paths_spec[OF assms, of "[]" 0] by (auto simp: cong: if_cong)
  moreover from this have "ps' = groups dn npc act"
    by (intro sorted_alist_eqI) (auto simp: map_fst_groups map_of_groups)
  ultimately show ?thesis by simp
qed

section \<open>The specification of an update\<close>

text \<open>
  What the new stack is, read off the groups: nothing left pops the entry, a call pushes an
  entry, a return out of a call entry pops it and resumes the caller, one group advances or
  reconverges the entry, two groups turn it into the entry that waits at the reconvergence
  point, below one entry per group that is not there yet.
\<close>

definition converged :: "SimtStack_entry \<Rightarrow> addr_t \<Rightarrow> bool" where
  "converged e k \<longleftrightarrow> k = se_recvg_pc e \<and> se_type e \<noteq> STACK_ENTRY_TYPE_CALL"

definition visits :: "addr_t \<Rightarrow> paths \<Rightarrow> paths" where
  "visits nt gs = (case gs of [a, b] \<Rightarrow> if fst b = nt then [b, a] else gs | _ \<Rightarrow> gs)"

definition path_entry :: "SimtStack_entry \<Rightarrow> addr_t \<Rightarrow> addr_t \<times> u32 \<Rightarrow> SimtStack_entry" where
  "path_entry e nr p = e\<lparr>se_PC := fst p, se_active_mask := snd p, se_calldepth := 0, se_recvg_pc := nr\<rparr>"

definition split_entry :: "SimtStack_entry \<Rightarrow> simt_stack \<Rightarrow> addr_t \<Rightarrow> paths \<Rightarrow> simt_stack" where
  "split_entry e es nr vs =
     (let placed = filter (\<lambda>p. \<not> converged e (fst p) \<and> fst p \<noteq> nr) vs in
      if nr \<noteq> se_recvg_pc e then
        map (path_entry new_SimtStack_entry nr) (rev placed) @ e\<lparr>se_PC := nr\<rparr> # es
      else (case placed of [] \<Rightarrow> es
            | x # xs \<Rightarrow> map (path_entry new_SimtStack_entry nr) (rev xs) @ path_entry e nr x # es))"

definition return_to :: "addr_t \<Rightarrow> simt_stack \<Rightarrow> simt_stack" where
  "return_to k stk = (case stk of [] \<Rightarrow> []
     | d # ds \<Rightarrow> if converged d k then ds else d\<lparr>se_PC := k\<rparr> # ds)"

definition returns :: "op_type_t \<Rightarrow> SimtStack_entry \<Rightarrow> bool" where
  "returns oper e \<longleftrightarrow> oper = RET_OP \<and> se_type e = STACK_ENTRY_TYPE_CALL"

definition update_spec ::
  "op_type_t \<Rightarrow> addr_t \<Rightarrow> addr_t \<Rightarrow> SimtStack_entry \<Rightarrow> simt_stack \<Rightarrow> paths \<Rightarrow> simt_stack" where
  "update_spec oper recvg_pc nt e es gs =
     (case gs of
        [] \<Rightarrow> es
      | (k, m) # rest \<Rightarrow>
          if oper = CALL_OP then
            new_SimtStack_entry\<lparr>se_PC := k, se_active_mask := m, se_type := STACK_ENTRY_TYPE_CALL\<rparr> # e # es
          else if returns oper e then return_to k es
          else if rest = [] then
            (if converged e k then es else e\<lparr>se_PC := k, se_active_mask := m\<rparr> # es)
          else split_entry e es recvg_pc (visits nt gs))"

lemmas loop_defs = path_step_def select_path_def handle_call_def handle_ret_def
  mark_divergence_def place_path_def modify_back_def stack_back_def paths_erase_def Let_def

lemma paths_loop_one:
  assumes "px_num cx = 1" "ps_paths s = [(k, m)]" "ps_stack s = e # es" "\<not> ps_diverged s"
    and "px_top_recvg_pc cx = se_recvg_pc e" "px_top_type cx = se_type e"
    and "px_op cx \<noteq> CALL_OP" "\<not> returns (px_op cx) e"
  shows "paths_loop cx 0 (Suc 0) s = Inr (Continue
    (if converged e k then s\<lparr>ps_paths := []\<rparr>
     else s\<lparr>ps_paths := [], ps_stack := new_SimtStack_entry # e\<lparr>se_PC := k, se_active_mask := m\<rparr> # es\<rparr>))"
  using assms by (auto simp: loop_defs converged_def returns_def)

lemma paths_loop_call:
  assumes "px_num cx = 1" "ps_paths s = [(k, m)]" "px_op cx = CALL_OP"
  shows "paths_loop cx 0 (Suc 0) s = Inr (Returned
    (new_SimtStack_entry\<lparr>se_PC := k, se_active_mask := m, se_type := STACK_ENTRY_TYPE_CALL\<rparr> # ps_stack s))"
  using assms by (auto simp: loop_defs)

lemma paths_loop_ret:
  assumes "px_num cx = 1" "ps_paths s = [(k, m)]" "ps_stack s = e # es" "es \<noteq> []"
    and "returns (px_op cx) e" "px_top_type cx = se_type e"
  shows "paths_loop cx 0 (Suc 0) s = Inr (Returned (return_to k es))"
proof (cases es)
  case (Cons d ds)
  then show ?thesis using assms
    by (cases "se_type d") (auto simp: loop_defs converged_def returns_def return_to_def)
qed (use assms in simp)

text \<open>One iteration, on a path \<open>(k, m)\<close>, once the path has been selected.\<close>

lemma path_step_two:
  assumes "select_path cx i (ps_paths s) = Inr (k, m, ps)" "px_num cx = 2" "ps_stack s = e # es"
    and "px_op cx \<noteq> CALL_OP" "\<not> (px_op cx = RET_OP \<and> px_top_type cx = STACK_ENTRY_TYPE_CALL)"
    and "ps_diverged s \<longrightarrow> ps_new_recvg_pc s = px_recvg_pc cx"
  shows "path_step cx i s = Inr (Continue
    (if k = px_top_recvg_pc cx \<and> px_top_type cx \<noteq> STACK_ENTRY_TYPE_CALL then s\<lparr>ps_paths := ps\<rparr>
     else let stk = (if \<not> ps_diverged s \<and> px_recvg_pc cx \<noteq> px_top_recvg_pc cx
                     then new_SimtStack_entry # e\<lparr>se_PC := px_recvg_pc cx\<rparr> # es else e # es);
              stk' = (if k = px_recvg_pc cx then stk
                      else new_SimtStack_entry # path_entry (hd stk) (px_recvg_pc cx) (k, m) # tl stk)
          in s\<lparr>ps_paths := ps, ps_stack := stk', ps_diverged := True,
               ps_new_recvg_pc := px_recvg_pc cx\<rparr>))"
  using assms by (auto simp: loop_defs path_entry_def)

lemma select_visits:
  assumes "fst a \<noteq> fst b" "visits (px_not_taken_pc cx) [a, b] = [v1, v2]"
  shows "select_path cx 0 [a, b] = Inr (fst v1, snd v1, [v2])"
    and "select_path cx (Suc 0) [v2] = Inr (fst v2, snd v2, [])"
    and "fst v1 \<noteq> fst v2"
  using assms by (cases a; cases b; force simp: visits_def select_path_def paths_erase_def
      split: if_splits)+

lemma paths_loop_two:
  assumes "px_num cx = 2" "ps_paths s = [a, b]" "fst a \<noteq> fst b" "ps_stack s = e # es" "\<not> ps_diverged s"
    and "px_top_recvg_pc cx = se_recvg_pc e" "px_top_type cx = se_type e"
    and "px_op cx \<noteq> CALL_OP" "\<not> returns (px_op cx) e"
  shows "\<exists>s'. paths_loop cx 0 (Suc (Suc 0)) s = Inr (Continue s') \<and> ps_diverged s' \<and> ps_stack s' \<noteq> [] \<and>
    tl (ps_stack s') = split_entry e es (px_recvg_pc cx) (visits (px_not_taken_pc cx) [a, b])"
proof -
  obtain v1 v2 where v: "visits (px_not_taken_pc cx) [a, b] = [v1, v2]"
    by (cases "fst b = px_not_taken_pc cx") (auto simp: visits_def)
  note sel = select_visits[OF assms(3) v]
  obtain k1 m1 k2 m2 where k [simp]: "v1 = (k1, m1)" "v2 = (k2, m2)" by (cases v1; cases v2)
  have nr: "\<not> (px_op cx = RET_OP \<and> px_top_type cx = STACK_ENTRY_TYPE_CALL)"
    using assms(7,9) by (simp add: returns_def)
  have st1: "select_path cx 0 (ps_paths s) = Inr (k1, m1, [v2])" using sel(1) assms(2) by simp
  have "ps_diverged s \<longrightarrow> ps_new_recvg_pc s = px_recvg_pc cx" using assms(5) by simp
  note step1 = path_step_two[OF st1 assms(1,4,8) nr this]
  show ?thesis
  proof (cases "converged e k1")
    case True
    then have ne: "\<not> converged e k2" using sel(3) by (auto simp: converged_def)
    have st: "path_step cx 0 s = Inr (Continue (s\<lparr>ps_paths := [v2]\<rparr>))"
      using step1 True assms(5-7) by (simp add: converged_def)
    have "select_path cx 1 (ps_paths (s\<lparr>ps_paths := [v2]\<rparr>)) = Inr (k2, m2, [])" using sel(2) by simp
    note step2 = path_step_two[OF this assms(1) _ assms(8) nr, of e es]
    show ?thesis using st step2 assms(4-7) ne True
      by (auto simp: v split_entry_def converged_def Let_def)
  next
    case False
    define s1 where "s1 = (let stk = (if px_recvg_pc cx \<noteq> px_top_recvg_pc cx
                     then new_SimtStack_entry # e\<lparr>se_PC := px_recvg_pc cx\<rparr> # es else e # es);
              stk' = (if k1 = px_recvg_pc cx then stk
                      else new_SimtStack_entry # path_entry (hd stk) (px_recvg_pc cx) (k1, m1) # tl stk)
          in s\<lparr>ps_paths := [v2], ps_stack := stk', ps_diverged := True,
               ps_new_recvg_pc := px_recvg_pc cx\<rparr>)"
    have st: "path_step cx 0 s = Inr (Continue s1)"
    proof -
      have "\<not> (k1 = px_top_recvg_pc cx \<and> px_top_type cx \<noteq> STACK_ENTRY_TYPE_CALL)"
        using False assms(6,7) by (simp add: converged_def)
      then show ?thesis unfolding step1 s1_def using assms(5) by (simp only: if_False simp_thms)
    qed
    have s1: "ps_paths s1 = [v2]" "ps_diverged s1" "ps_new_recvg_pc s1 = px_recvg_pc cx"
      by (simp_all add: s1_def Let_def)
    have "ps_stack s1 \<noteq> []" by (auto simp: s1_def Let_def)
    then obtain e1 es1 where es1: "ps_stack s1 = e1 # es1" by (cases "ps_stack s1") auto
    have "select_path cx 1 (ps_paths s1) = Inr (k2, m2, [])" using sel(2) s1 by simp
    note step2 = path_step_two[OF this assms(1) es1 assms(8) nr]
    have "paths_loop cx 0 (Suc (Suc 0)) s = Inr (Continue
      (if converged e k2 then s1\<lparr>ps_paths := []\<rparr>
       else s1\<lparr>ps_paths := [], ps_stack := (if k2 = px_recvg_pc cx then e1 # es1
          else new_SimtStack_entry # path_entry e1 (px_recvg_pc cx) (k2, m2) # es1)\<rparr>))"
      using st step2 s1 assms(6,7) by (simp add: converged_def Let_def)
    moreover have "e1 # es1 = (let stk = (if px_recvg_pc cx \<noteq> px_top_recvg_pc cx
                     then new_SimtStack_entry # e\<lparr>se_PC := px_recvg_pc cx\<rparr> # es else e # es) in
              if k1 = px_recvg_pc cx then stk
              else new_SimtStack_entry # path_entry (hd stk) (px_recvg_pc cx) (k1, m1) # tl stk)"
      using es1 by (simp add: s1_def Let_def)
    ultimately show ?thesis using False s1 es1 assms(6,7)
      by (auto simp: v split_entry_def converged_def Let_def split: if_splits)
  qed
qed

text \<open>When an update is expected to succeed.\<close>

definition update_ok ::
  "u32 \<Rightarrow> addr_t list \<Rightarrow> op_type_t \<Rightarrow> addr_t \<Rightarrow> Warp \<Rightarrow> bool" where
  "update_ok dn npc oper pc w =
     (case w_stack w of [] \<Rightarrow> False
      | e # es \<Rightarrow>
          length npc = w_warp_size w \<and> se_PC e = pc \<and> se_active_mask e \<noteq> 0 \<and>
          lanes_ok dn npc (se_active_mask e) \<and>
          card (next_pcs dn npc (se_active_mask e)) \<le>
            (if oper = CALL_OP \<or> returns oper e then 1 else 2) \<and>
          (returns oper e \<longrightarrow> es \<noteq> []))"

lemma groups_cases:
  assumes "card (next_pcs dn npc act) \<le> 2"
  obtains "groups dn npc act = []" "card (next_pcs dn npc act) = 0"
  | k m where "groups dn npc act = [(k, m)]" "card (next_pcs dn npc act) = 1"
  | a b where "groups dn npc act = [a, b]" "fst a \<noteq> fst b" "card (next_pcs dn npc act) = 2"
proof -
  have d: "distinct (map fst (groups dn npc act))" by (simp add: map_fst_groups)
  consider "length (groups dn npc act) = 0" | "length (groups dn npc act) = 1"
    | "length (groups dn npc act) = 2"
    using assms length_groups[of dn npc act] by linarith
  then show ?thesis
  proof cases
    case 1
    then show ?thesis using that(1) length_groups[of dn npc act] by simp
  next
    case 2
    then obtain x where "groups dn npc act = [x]" by (auto simp: length_Suc_conv)
    then show ?thesis using that(2)[of "fst x" "snd x"] 2 length_groups[of dn npc act] by simp
  next
    case 3
    then obtain x y where "groups dn npc act = [x, y]"
      by (auto simp: length_Suc_conv numeral_2_eq_2)
    then show ?thesis using that(3)[of x y] 3 d length_groups[of dn npc act] by simp
  qed
qed

theorem Warp_update_spec:
  assumes "w_stack w = e # es" "update_ok dn npc oper pc w"
  shows "Warp_update dn npc recvg_pc oper sz pc w =
    Inr (w\<lparr>w_stack := update_spec oper recvg_pc (pc + ucast sz) e es (groups dn npc (se_active_mask e)),
           w_div_stats := (if length (groups dn npc (se_active_mask e)) = 2 then [pc] else []) @ w_div_stats w\<rparr>)"
proof -
  have ok: "length npc = w_warp_size w" "se_PC e = pc" "se_active_mask e \<noteq> 0"
    "lanes_ok dn npc (se_active_mask e)" "returns oper e \<longrightarrow> es \<noteq> []"
    and card: "card (next_pcs dn npc (se_active_mask e)) \<le> (if oper = CALL_OP \<or> returns oper e then 1 else 2)"
    using assms by (auto simp: update_ok_def)
  have len: "\<not> w_warp_size w > 32" using ok by (simp add: lanes_ok_def)
  note gr = collect_paths_groups[OF ok(4), unfolded ok(1)]
  let ?g = "groups dn npc (se_active_mask e)"
  let ?cx = "\<lparr>px_recvg_pc = recvg_pc, px_op = oper, px_not_taken_pc = pc + ucast sz,
    px_num = length ?g, px_top_recvg_pc = se_recvg_pc e, px_top_type = se_type e\<rparr>"
  let ?s = "\<lparr>ps_paths = ?g, ps_stack = e # es, ps_diverged = False, ps_new_recvg_pc = null_pc\<rparr>"
  have card2: "card (next_pcs dn npc (se_active_mask e)) \<le> 2" using card by (simp split: if_splits)
  have upd: "Warp_update dn npc recvg_pc oper sz pc w =
    bindR (paths_loop ?cx 0 (length ?g) ?s) (\<lambda>r. finish_update pc r w)"
    using assms(1) ok card2 len gr
    by (simp add: Warp_update_def stack_back_def length_groups)
  show ?thesis
    using card2
  proof (cases rule: groups_cases)
    case 1
    then show ?thesis unfolding upd by (simp add: update_spec_def)
  next
    case (2 k m)
    consider "oper = CALL_OP" | "oper \<noteq> CALL_OP" "returns oper e"
      | "oper \<noteq> CALL_OP" "\<not> returns oper e" by blast
    then show ?thesis
    proof cases
      case 1
      then show ?thesis unfolding upd using 2
        by (simp add: update_spec_def paths_loop_call del: paths_loop.simps)
    next
      case b: 2
      have "paths_loop ?cx 0 (Suc 0) ?s = Inr (Returned (return_to k es))"
        by (rule paths_loop_ret) (use 2 b ok in auto)
      then show ?thesis unfolding upd using 2 b
        by (simp add: update_spec_def del: paths_loop.simps)
    next
      case 3
      have "paths_loop ?cx 0 (Suc 0) ?s = Inr (Continue
        (if converged e k then ?s\<lparr>ps_paths := []\<rparr>
         else ?s\<lparr>ps_paths := [], ps_stack := new_SimtStack_entry # e\<lparr>se_PC := k, se_active_mask := m\<rparr> # es\<rparr>))"
        by (rule paths_loop_one) (use 2 3 in auto)
      then show ?thesis unfolding upd using 2 3
        by (simp add: update_spec_def del: paths_loop.simps)
    qed
  next
    case (3 a b)
    then have oper: "oper \<noteq> CALL_OP" "\<not> returns oper e" using card by (auto split: if_splits)
    have "\<exists>s'. paths_loop ?cx 0 (Suc (Suc 0)) ?s = Inr (Continue s') \<and> ps_diverged s' \<and> ps_stack s' \<noteq> [] \<and>
      tl (ps_stack s') = split_entry e es (px_recvg_pc ?cx) (visits (px_not_taken_pc ?cx) [a, b])"
      by (rule paths_loop_two) (use 3 oper in auto)
    then show ?thesis unfolding upd using 3 oper
      by (cases a) (auto simp: update_spec_def simp del: paths_loop.simps)
  qed
qed

section \<open>Every lane has its own program counter\<close>

text \<open>
  What the stack stands for: independent threads. The program counter of a lane is the one of
  the topmost entry that holds it. \<open>lane_step\<close> is a step of the abstract machine, in which
  the lanes that execute move to their own next program counter and the others do not move.
\<close>

fun lane_pc :: "simt_stack \<Rightarrow> nat \<Rightarrow> addr_t option" where
  "lane_pc [] i = None"
| "lane_pc (e # es) i = (if bit (se_active_mask e) i then Some (se_PC e) else lane_pc es i)"

definition lane_step :: "u32 \<Rightarrow> addr_t list \<Rightarrow> u32 \<Rightarrow> (nat \<Rightarrow> addr_t option) \<Rightarrow> nat \<Rightarrow> addr_t option" where
  "lane_step dn npc act pcs i = (if bit act i \<and> \<not> bit dn i then Some (npc ! i) else pcs i)"

definition agrees :: "u32 \<Rightarrow> simt_stack \<Rightarrow> (nat \<Rightarrow> addr_t option) \<Rightarrow> bool" where
  "agrees dn stk pcs \<longleftrightarrow> (\<forall>i < 32. \<not> bit dn i \<longrightarrow> lane_pc stk i = pcs i)"

text \<open>
  The invariant. A normal entry that reconverges at \<open>r\<close> lies on an entry that holds its live
  lanes and waits at \<open>r\<close>; a call entry has no reconvergence point and lies on the entry of its
  caller, which has the same live lanes.
\<close>

definition entry_ok :: "u32 \<Rightarrow> SimtStack_entry \<Rightarrow> simt_stack \<Rightarrow> bool" where
  "entry_ok dn e es \<longleftrightarrow>
     (if se_type e = STACK_ENTRY_TYPE_CALL then
        se_recvg_pc e = null_pc \<and> es \<noteq> [] \<and>
        (\<forall>i < 32. \<not> bit dn i \<longrightarrow> (bit (se_active_mask e) i \<longleftrightarrow> bit (se_active_mask (hd es)) i))
      else se_recvg_pc e \<noteq> null_pc \<longrightarrow>
        (\<forall>i < 32. bit (se_active_mask e) i \<longrightarrow> \<not> bit dn i \<longrightarrow> lane_pc es i = Some (se_recvg_pc e)))"

fun stack_ok :: "u32 \<Rightarrow> simt_stack \<Rightarrow> bool" where
  "stack_ok dn [] = True"
| "stack_ok dn (e # es) = (entry_ok dn e es \<and> stack_ok dn es)"

text \<open>
  The reconvergence point given for a divergent branch is compatible with the one of the
  entry that diverges: it is a real address inside of a call, and no lane jumps straight to the
  reconvergence point of the entry unless it is also the one of the branch.
\<close>

definition pdom_ok :: "u32 \<Rightarrow> addr_t list \<Rightarrow> addr_t \<Rightarrow> SimtStack_entry \<Rightarrow> bool" where
  "pdom_ok dn npc recvg_pc e \<longleftrightarrow>
     (card (next_pcs dn npc (se_active_mask e)) > 1 \<longrightarrow>
        (if se_type e = STACK_ENTRY_TYPE_CALL then recvg_pc \<noteq> null_pc
         else recvg_pc = se_recvg_pc e \<or> se_recvg_pc e \<notin> next_pcs dn npc (se_active_mask e)))"

lemma group_live: "k \<noteq> k' \<Longrightarrow> bit (group_mask dn npc act k) i \<Longrightarrow> \<not> bit (group_mask dn npc act k') i"
  by (simp add: bit_lanes)

lemma in_groups: "(k, m) \<in> set (groups dn npc act) \<longleftrightarrow>
    k \<in> next_pcs dn npc act \<and> m = group_mask dn npc act k"
  by (auto simp: groups_def)

lemma live_in_group:
  "groups dn npc act = gs \<Longrightarrow> bit act i \<Longrightarrow> \<not> bit dn i \<Longrightarrow>
   \<exists>m. (npc ! i, m) \<in> set gs \<and> bit m i"
  using in_next_pcs[of act i dn npc] by (auto simp: in_groups bit_lanes)

lemma stack_ok_new_PC: "stack_ok dn (e\<lparr>se_PC := k\<rparr> # es) = stack_ok dn (e # es)"
  by (simp add: entry_ok_def)

lemma entry_ok_normal [simp]:
  "se_type e = STACK_ENTRY_TYPE_NORMAL \<Longrightarrow> entry_ok dn e es \<longleftrightarrow> (se_recvg_pc e \<noteq> null_pc \<longrightarrow>
     (\<forall>i. bit (se_active_mask e) i \<longrightarrow> \<not> bit dn i \<longrightarrow> lane_pc es i = Some (se_recvg_pc e)))"
  by (auto simp: entry_ok_def)

lemma entry_ok_call:
  "se_type e = STACK_ENTRY_TYPE_CALL \<Longrightarrow> entry_ok dn e es \<longleftrightarrow> se_recvg_pc e = null_pc \<and> es \<noteq> [] \<and>
     (\<forall>i. \<not> bit dn i \<longrightarrow> (bit (se_active_mask e) i \<longleftrightarrow> bit (se_active_mask (hd es)) i))"
  by (auto simp: entry_ok_def)

lemma converged_lane:
  assumes "entry_ok dn e es" "converged e k" "k \<noteq> null_pc" "bit (se_active_mask e) i" "\<not> bit dn i"
  shows "lane_pc es i = Some k"
  using assms by (cases "se_type e") (auto simp: converged_def)

lemma update_none:
  assumes "groups dn npc (se_active_mask e) = []"
  shows "agrees dn es (lane_step dn npc (se_active_mask e) (lane_pc (e # es)))"
  using live_in_group[OF assms] by (auto simp: agrees_def lane_step_def)

lemma update_call:
  assumes "groups dn npc (se_active_mask e) = [(k, m)]" "stack_ok dn (e # es)"
  defines "c \<equiv> new_SimtStack_entry\<lparr>se_PC := k, se_active_mask := m, se_type := STACK_ENTRY_TYPE_CALL\<rparr>"
  shows "stack_ok dn (c # e # es)"
    and "agrees dn (c # e # es) (lane_step dn npc (se_active_mask e) (lane_pc (e # es)))"
proof -
  have m: "m = group_mask dn npc (se_active_mask e) k"
    using in_groups[of k m dn npc "se_active_mask e"] assms(1) by simp
  have l: "bit (se_active_mask e) i \<Longrightarrow> \<not> bit dn i \<Longrightarrow> npc ! i = k" for i
    using live_in_group[OF assms(1)] by auto
  show "stack_ok dn (c # e # es)"
    using assms(2) l by (auto simp: c_def m new_SimtStack_entry_def entry_ok_call bit_lanes null_pc_def)
  show "agrees dn (c # e # es) (lane_step dn npc (se_active_mask e) (lane_pc (e # es)))"
    using l by (auto simp: c_def m agrees_def lane_step_def bit_lanes)
qed

lemma update_ret:
  assumes "groups dn npc (se_active_mask e) = [(k, m)]" "stack_ok dn (e # es)"
    and "se_type e = STACK_ENTRY_TYPE_CALL" "k \<noteq> null_pc"
  shows "stack_ok dn (return_to k es)"
    and "agrees dn (return_to k es) (lane_step dn npc (se_active_mask e) (lane_pc (e # es)))"
proof -
  have l: "bit (se_active_mask e) i \<Longrightarrow> \<not> bit dn i \<Longrightarrow> npc ! i = k" for i
    using live_in_group[OF assms(1)] by auto
  obtain d ds where es: "es = d # ds" and ok: "entry_ok dn d ds" "stack_ok dn ds"
    and same: "\<And>i. \<not> bit dn i \<Longrightarrow> bit (se_active_mask e) i \<longleftrightarrow> bit (se_active_mask d) i"
    using assms(2,3) by (cases es) (auto simp: entry_ok_call)
  show "stack_ok dn (return_to k es)"
    using ok stack_ok_new_PC[of dn k d ds] by (auto simp: es return_to_def)
  show "agrees dn (return_to k es) (lane_step dn npc (se_active_mask e) (lane_pc (e # es)))"
    using converged_lane[OF ok(1)] assms(4) l same
    by (auto simp: es return_to_def agrees_def lane_step_def)
qed

lemma update_one:
  assumes "groups dn npc (se_active_mask e) = [(k, m)]" "stack_ok dn (e # es)" "k \<noteq> null_pc"
  defines "stk \<equiv> if converged e k then es else e\<lparr>se_PC := k, se_active_mask := m\<rparr> # es"
  shows "stack_ok dn stk" "agrees dn stk (lane_step dn npc (se_active_mask e) (lane_pc (e # es)))"
proof -
  have m: "m = group_mask dn npc (se_active_mask e) k"
    using in_groups[of k m dn npc "se_active_mask e"] assms(1) by simp
  have l: "bit (se_active_mask e) i \<Longrightarrow> \<not> bit dn i \<Longrightarrow> npc ! i = k" for i
    using live_in_group[OF assms(1)] by auto
  have ok: "entry_ok dn e es" "stack_ok dn es" using assms(2) by auto
  show "stack_ok dn stk"
    using ok l by (cases "se_type e") (auto simp: stk_def m entry_ok_call bit_lanes)
  show "agrees dn stk (lane_step dn npc (se_active_mask e) (lane_pc (e # es)))"
    using l converged_lane[OF ok(1) _ assms(3)]
    by (auto simp: stk_def m agrees_def lane_step_def bit_lanes)
qed

text \<open>
  A split entry. \<open>vs\<close> lists the two groups in the order in which they are visited.
\<close>

lemma path_entry_fields [simp]:
  "se_PC (path_entry e nr p) = fst p" "se_active_mask (path_entry e nr p) = snd p"
  "se_recvg_pc (path_entry e nr p) = nr" "se_type (path_entry e nr p) = se_type e"
  by (simp_all add: path_entry_def)

lemma new_entry_fields [simp]: "se_type new_SimtStack_entry = STACK_ENTRY_TYPE_NORMAL"
  by (simp add: new_SimtStack_entry_def)

lemma update_split:
  assumes g: "groups dn npc (se_active_mask e) = [a, b]" "fst a \<noteq> fst b"
    and ok: "stack_ok dn (e # es)"
    and nn: "null_pc \<notin> next_pcs dn npc (se_active_mask e)"
    and pd: "if se_type e = STACK_ENTRY_TYPE_CALL then nr \<noteq> null_pc
             else nr = se_recvg_pc e \<or> se_recvg_pc e \<notin> next_pcs dn npc (se_active_mask e)"
    and vs: "vs = [a, b] \<or> vs = [b, a]"
  shows "stack_ok dn (split_entry e es nr vs) \<and>
    agrees dn (split_entry e es nr vs) (lane_step dn npc (se_active_mask e) (lane_pc (e # es)))"
proof -
  let ?act = "se_active_mask e"
  obtain k1 m1 k2 m2 where v: "vs = [(k1, m1), (k2, m2)]" using vs by (cases a; cases b) auto
  then have sv: "set vs = set (groups dn npc ?act)" using vs g by auto
  have k: "k1 \<in> next_pcs dn npc ?act" "k2 \<in> next_pcs dn npc ?act"
    and m: "m1 = group_mask dn npc ?act k1" "m2 = group_mask dn npc ?act k2"
    using sv in_groups[of _ _ dn npc ?act] by (auto simp: v)
  have ne: "k1 \<noteq> k2" using vs v g(2) by auto
  have k0: "k1 \<noteq> null_pc" "k2 \<noteq> null_pc" using k nn by auto
  have l: "npc ! i = k1 \<or> npc ! i = k2" if "bit ?act i" "\<not> bit dn i" for i
    using live_in_group[OF refl that, of npc] sv v by auto
  have e: "entry_ok dn e es" "stack_ok dn es" using ok by auto
  let ?new = "path_entry new_SimtStack_entry nr"
  let ?r = "lane_step dn npc ?act (lane_pc (e # es))"
  show ?thesis
  proof (cases "nr = se_recvg_pc e")
    case True
    have ty: "se_type e = STACK_ENTRY_TYPE_NORMAL"
      using pd e(1) True by (cases "se_type e") (auto simp: entry_ok_call)
    consider "k1 = nr" | "k2 = nr" | "k1 \<noteq> nr" "k2 \<noteq> nr" by blast
    then show ?thesis
    proof cases
      case 1
      then have "split_entry e es nr vs = path_entry e nr (k2, m2) # es"
        using True ne by (simp add: split_entry_def v converged_def)
      then show ?thesis using e ty k0 1 True
        by (auto simp: agrees_def lane_step_def m bit_lanes dest: l)
    next
      case 2
      then have "split_entry e es nr vs = path_entry e nr (k1, m1) # es"
        using True ne by (simp add: split_entry_def v converged_def)
      then show ?thesis using e ty k0 2 True
        by (auto simp: agrees_def lane_step_def m bit_lanes dest: l)
    next
      case 3
      then have "split_entry e es nr vs = ?new (k2, m2) # path_entry e nr (k1, m1) # es"
        using True ne by (simp add: split_entry_def v converged_def)
      then show ?thesis using e ty l ne 3 True
        by (auto simp: agrees_def lane_step_def m bit_lanes)
    qed
  next
    case False
    let ?e = "e\<lparr>se_PC := nr\<rparr>"
    have nc: "\<not> converged e k1" "\<not> converged e k2"
      using pd False k by (auto simp: converged_def split: if_splits)
    have base: "stack_ok dn (?e # es)" using ok stack_ok_new_PC by blast
    have s: "split_entry e es nr vs =
        (if k2 = nr then [] else [?new (k2, m2)]) @ (if k1 = nr then [] else [?new (k1, m1)]) @ ?e # es"
      using False nc by (simp add: split_entry_def v)
    have "stack_ok dn (split_entry e es nr vs)"
      using base ne unfolding s by (auto simp: m bit_lanes)
    moreover have "agrees dn (split_entry e es nr vs) ?r"
      using l ne unfolding s by (auto simp: agrees_def lane_step_def m bit_lanes)
    ultimately show ?thesis ..
  qed
qed

section \<open>Runs of a warp\<close>

lemma entry_ok_mono: "entry_ok dn e es \<Longrightarrow> lanes dn \<subseteq> lanes dn' \<Longrightarrow> entry_ok dn' e es"
  by (cases "se_type e") (auto simp: entry_ok_call subset_iff)

lemma stack_ok_mono: "stack_ok dn stk \<Longrightarrow> lanes dn \<subseteq> lanes dn' \<Longrightarrow> stack_ok dn' stk"
  by (induction stk) (auto intro: entry_ok_mono)

lemma agrees_trans_step:
  "agrees dn stk pcs \<Longrightarrow> lanes dn \<subseteq> lanes dn' \<Longrightarrow>
   agrees dn' stk' (lane_step dn' npc act (lane_pc stk)) \<Longrightarrow> agrees dn' stk' (lane_step dn' npc act pcs)"
  by (auto simp: agrees_def lane_step_def subset_iff)

lemma update_spec_correct:
  assumes "w_stack w = e # es" "update_ok dn npc oper pc w" "stack_ok dn (w_stack w)"
    "pdom_ok dn npc recvg_pc e"
  shows "stack_ok dn (update_spec oper recvg_pc nt e es (groups dn npc (se_active_mask e))) \<and>
    agrees dn (update_spec oper recvg_pc nt e es (groups dn npc (se_active_mask e)))
      (lane_step dn npc (se_active_mask e) (lane_pc (e # es)))"
proof -
  let ?act = "se_active_mask e"
  have ok: "stack_ok dn (e # es)" and nn: "null_pc \<notin> next_pcs dn npc ?act"
    and card: "card (next_pcs dn npc ?act) \<le> (if oper = CALL_OP \<or> returns oper e then 1 else 2)"
    using assms by (auto simp: update_ok_def lanes_ok_def)
  then have c2: "card (next_pcs dn npc ?act) \<le> 2" by (simp split: if_splits)
  show ?thesis
    using c2
  proof (cases rule: groups_cases)
    case 1
    then show ?thesis using update_none[OF 1(1)] ok by (simp add: update_spec_def)
  next
    case (2 k m)
    then have k: "k \<noteq> null_pc" using in_groups[of k m dn npc ?act] nn by auto
    show ?thesis
      using update_call[OF 2(1) ok] update_ret[OF 2(1) ok _ k] update_one[OF 2(1) ok k]
      by (auto simp: 2 update_spec_def returns_def)
  next
    case (3 a b)
    then have oper: "oper \<noteq> CALL_OP" "\<not> returns oper e" using card by (auto split: if_splits)
    have "visits nt [a, b] = [a, b] \<or> visits nt [a, b] = [b, a]" by (simp add: visits_def)
    from update_split[OF 3(1,2) ok nn _ this] assms(4) show ?thesis
      using 3 oper by (cases a) (auto simp: update_spec_def pdom_ok_def)
  qed
qed

text \<open>
  C1. After every instruction the stack still represents one program counter per thread: when
  the update's arguments are sensible (\<open>update_ok\<close>: at most two next addresses among the live
  lanes, one for a call or a return) and the reconvergence point fits the entry (\<open>pdom_ok\<close>),
  \<open>Warp::update\<close> succeeds, keeps the invariant of the stack, and moves exactly the live lanes
  of the top entry, each to its own next program counter.
\<close>

theorem Warp_update_moves_lanes:
  assumes "w_stack w = e # es" "update_ok dn npc oper pc w" "stack_ok dn (w_stack w)"
    "pdom_ok dn npc recvg_pc e"
  shows "\<exists>w'. Warp_update dn npc recvg_pc oper sz pc w = Inr w' \<and> stack_ok dn (w_stack w') \<and>
    agrees dn (w_stack w') (lane_step dn npc (se_active_mask e) (lane_pc (w_stack w)))"
  using Warp_update_spec[OF assms(1,2)] update_spec_correct[OF assms] assms(1) by simp

lemma lanes_code [code]: "lanes m = set (filter (bit m) [0..<32])"
  by auto

lemma live_code [code]: "live dn act = set (filter (\<lambda>j. bit act j \<and> \<not> bit dn j) [0..<32])"
  by auto

theorem Warp_update_moves_lanes_witness:
  "\<exists>w'. Warp_update 1 [8, 8, 100, 100] 200 (OTHER_OP 0) 8 0 (Warp_launch 0 15 (new_Warp 3 4)) = Inr w' \<and>
     stack_ok 1 (w_stack w') \<and> agrees 1 (w_stack w')
       (lane_step 1 [8, 8, 100, 100] 15 (lane_pc (w_stack (Warp_launch 0 15 (new_Warp 3 4)))))"
proof -
  have "w_stack (Warp_launch 0 15 (new_Warp 3 4)) =
      [new_SimtStack_entry\<lparr>se_PC := 0, se_calldepth := 1, se_active_mask := 15\<rparr>]"
    "update_ok 1 [8, 8, 100, 100] (OTHER_OP 0) 0 (Warp_launch 0 15 (new_Warp 3 4))"
    "stack_ok 1 (w_stack (Warp_launch 0 15 (new_Warp 3 4)))"
    "pdom_ok 1 [8, 8, 100, 100] 200
       (new_SimtStack_entry\<lparr>se_PC := 0, se_calldepth := 1, se_active_mask := 15\<rparr>)"
    by code_simp+
  from Warp_update_moves_lanes[OF this] show ?thesis by simp
qed

text \<open>
  The runs of a warp: it is launched, threads complete over time, and every executed
  instruction is followed by an update. \<open>pcs\<close> are the program counters of the abstract machine.
\<close>

definition launch_pcs :: "addr_t \<Rightarrow> u32 \<Rightarrow> nat \<Rightarrow> addr_t option" where
  "launch_pcs start_pc lmask i = (if bit lmask i then Some start_pc else None)"

inductive warp_run :: "addr_t \<Rightarrow> u32 \<Rightarrow> Warp \<Rightarrow> u32 \<Rightarrow> Warp \<Rightarrow> (nat \<Rightarrow> addr_t option) \<Rightarrow> bool"
  for start_pc lmask w0 where
  launch: "warp_run start_pc lmask w0 0 (Warp_launch start_pc lmask w0) (launch_pcs start_pc lmask)"
| update: "warp_run start_pc lmask w0 dn w pcs \<Longrightarrow> lanes dn \<subseteq> lanes dn' \<Longrightarrow> w_stack w = e # es \<Longrightarrow>
    update_ok dn' npc oper pc w \<Longrightarrow> pdom_ok dn' npc recvg_pc e \<Longrightarrow>
    Warp_update dn' npc recvg_pc oper sz pc w = Inr w' \<Longrightarrow>
    warp_run start_pc lmask w0 dn' w' (lane_step dn' npc (se_active_mask e) pcs)"

lemma warp_run_inv:
  "warp_run start_pc lmask w0 dn w pcs \<Longrightarrow> stack_ok dn (w_stack w) \<and> agrees dn (w_stack w) pcs"
proof (induction rule: warp_run.induct)
  case launch
  then show ?case
    by (simp add: Warp_launch_def Warp_reset_def Let_def new_SimtStack_entry_def null_pc_def
        agrees_def launch_pcs_def)
next
  case (update dn w pcs dn' e es npc oper pc recvg_pc sz w')
  then have ok: "stack_ok dn' (w_stack w)" by (blast intro: stack_ok_mono)
  have w': "w_stack w' = update_spec oper recvg_pc (pc + ucast sz) e es (groups dn' npc (se_active_mask e))"
    using update.hyps(6) Warp_update_spec[OF update.hyps(3,4), of recvg_pc sz] by auto
  show ?case
    using update_spec_correct[OF update.hyps(3,4) ok update.hyps(5), of "pc + ucast sz"]
      agrees_trans_step[OF _ update.hyps(2)] update.IH update.hyps(3)
    by (auto simp: w')
qed

lemma warp_run_launched:
  "warp_run start_pc lmask w0 dn w pcs \<Longrightarrow> bit lmask i \<Longrightarrow> pcs i \<noteq> None"
  by (induction rule: warp_run.induct) (auto simp: launch_pcs_def lane_step_def)

lemma lane_pc_None: "lane_pc stk i = None \<longleftrightarrow> (\<forall>e \<in> set stk. \<not> bit (se_active_mask e) i)"
  by (induction stk) auto

lemma warp_run_not_launched:
  "warp_run start_pc lmask w0 dn w pcs \<Longrightarrow> \<not> bit lmask i \<Longrightarrow> \<not> bit dn i \<Longrightarrow> pcs i = None"
proof (induction rule: warp_run.induct)
  case launch
  then show ?case by (simp add: launch_pcs_def)
next
  case (update dn w pcs dn' e es npc oper pc recvg_pc sz w')
  have "\<not> bit dn i" using update.prems update.hyps(2) by auto
  then have none: "pcs i = None" using update.IH update.prems by simp
  have "\<not> bit (se_active_mask e) i"
  proof
    assume b: "bit (se_active_mask e) i"
    then have "lane_pc (w_stack w) i = pcs i"
      using warp_run_inv[OF update.hyps(1)] \<open>\<not> bit dn i\<close> by (auto simp: agrees_def)
    then show False using none b update.hyps(3) by simp
  qed
  then show ?case using none by (simp add: lane_step_def)
qed

text \<open>
  C2. Lockstep is faithful: whenever a run of the warp is about to execute its top entry, every
  lane of the active mask that has not completed is, as an independent thread, at the program
  counter of that entry.
\<close>

theorem warp_run_lockstep:
  assumes "warp_run start_pc lmask w0 dn w pcs" "w_stack w = e # es"
    and "bit (se_active_mask e) i" "\<not> bit dn i"
  shows "get_simt_active_mask w = Inr (se_active_mask e) \<and> pcs i = Some (se_PC e)"
  using warp_run_inv[OF assms(1)] assms(2-4)
  by (auto simp: agrees_def get_simt_active_mask_def stack_back_def)

text \<open>
  C3. No thread is lost and none is invented: in every reachable state the lanes that have not
  completed are in some entry of the stack exactly when they were launched, so an empty stack
  means that every launched lane has completed.
\<close>

theorem warp_run_lane_set:
  assumes "warp_run start_pc lmask w0 dn w pcs" "\<not> bit dn i"
  shows "(\<exists>e \<in> set (w_stack w). bit (se_active_mask e) i) \<longleftrightarrow> bit lmask i"
proof (cases "i < 32")
  case True
  then have "lane_pc (w_stack w) i = pcs i"
    using warp_run_inv[OF assms(1)] assms(2) by (simp add: agrees_def)
  then show ?thesis
    using warp_run_launched[OF assms(1), of i] warp_run_not_launched[OF assms(1), of i] assms(2)
      lane_pc_None[of "w_stack w" i] by auto
next
  case False
  then show ?thesis by auto
qed

text \<open>A run for the witnesses: a divergent branch of four lanes, lane 0 of which has completed.\<close>

definition sample_run :: "Warp \<times> Warp" where
  "sample_run = (let w = Warp_launch 0 15 (new_Warp 3 4) in
     (w, case Warp_update 1 [8, 8, 100, 100] 200 (OTHER_OP 0) 8 0 w of Inr w' \<Rightarrow> w' | Inl _ \<Rightarrow> w))"

lemma sample_run: "warp_run 0 15 (new_Warp 3 4) 1 (snd sample_run)
    (lane_step 1 [8, 8, 100, 100] 15 (launch_pcs 0 15))"
proof -
  let ?e = "new_SimtStack_entry\<lparr>se_PC := 0, se_calldepth := 1, se_active_mask := 15\<rparr>"
  have "w_stack (Warp_launch 0 15 (new_Warp 3 4)) = [?e]"
    "update_ok 1 [8, 8, 100, 100] (OTHER_OP 0) 0 (Warp_launch 0 15 (new_Warp 3 4))"
    "pdom_ok 1 [8, 8, 100, 100] 200 ?e"
    "Warp_update 1 [8, 8, 100, 100] 200 (OTHER_OP 0) 8 0 (Warp_launch 0 15 (new_Warp 3 4)) =
       Inr (snd sample_run)"
    by code_simp+
  from warp_run.update[OF warp_run.launch _ this] show ?thesis by simp
qed

definition sample_top :: SimtStack_entry where
  "sample_top = new_SimtStack_entry\<lparr>se_PC := 100, se_active_mask := 12, se_recvg_pc := 200\<rparr>"

definition sample_rest :: simt_stack where
  "sample_rest = [new_SimtStack_entry\<lparr>se_PC := 8, se_active_mask := 2, se_recvg_pc := 200\<rparr>,
     new_SimtStack_entry\<lparr>se_PC := 200, se_calldepth := 1, se_active_mask := 15\<rparr>]"

theorem warp_run_lockstep_witness:
  "get_simt_active_mask (snd sample_run) = Inr (se_active_mask sample_top) \<and>
   lane_step 1 [8, 8, 100, 100] 15 (launch_pcs 0 15) 3 = Some (se_PC sample_top)"
proof (rule warp_run_lockstep[OF sample_run])
  show "w_stack (snd sample_run) = sample_top # sample_rest" by code_simp
qed code_simp+

theorem warp_run_lane_set_witness:
  "(\<exists>e \<in> set (w_stack (snd sample_run)). bit (se_active_mask e) 2) \<longleftrightarrow> bit (15 :: u32) 2"
  by (rule warp_run_lane_set[OF sample_run]) code_simp

section \<open>Round trips\<close>

lemma groups_single: "next_pcs dn npc act = {k} \<Longrightarrow> groups dn npc act = [(k, group_mask dn npc act k)]"
  by (simp add: groups_def)

lemma groups_pair:
  assumes "next_pcs dn npc act = {k, l}" "k < l"
  shows "groups dn npc act = [(k, group_mask dn npc act k), (l, group_mask dn npc act l)]"
proof -
  have "sorted_list_of_set {k, l} = [k, l]"
    using assms(2) by (intro sorted_distinct_set_unique) auto
  then show ?thesis by (simp add: groups_def assms(1))
qed

text \<open>
  C4. A call followed by the return from it: the call entry is pushed above the caller's entry
  and popped again, after which the caller's entry continues at the return address with its
  mask, or is popped as well when the return address is its reconvergence point.
\<close>

theorem Warp_call_return:
  assumes "w_stack w = e # es" "update_ok dn npc CALL_OP pc w"
    and "next_pcs dn npc (se_active_mask e) = {callee}"
    and "next_pcs dn npc' (group_mask dn npc (se_active_mask e) callee) = {ret}"
    and "length npc' = length npc" "ret \<noteq> null_pc"
  shows "\<exists>w1 w2. Warp_update dn npc recvg_pc CALL_OP sz pc w = Inr w1 \<and>
    lane_pc (w_stack w1) = (\<lambda>i. if bit (group_mask dn npc (se_active_mask e) callee) i then Some callee
                                 else lane_pc (w_stack w) i) \<and>
    Warp_update dn npc' recvg_pc' RET_OP sz' callee w1 = Inr w2 \<and>
    w_stack w2 = (if converged e ret then es else e\<lparr>se_PC := ret\<rparr> # es)"
proof -
  let ?m = "group_mask dn npc (se_active_mask e) callee"
  let ?c = "new_SimtStack_entry\<lparr>se_PC := callee, se_active_mask := ?m, se_type := STACK_ENTRY_TYPE_CALL\<rparr>"
  let ?w1 = "w\<lparr>w_stack := ?c # e # es\<rparr>"
  note g = groups_single[OF assms(3)]
  have w1: "Warp_update dn npc recvg_pc CALL_OP sz pc w = Inr ?w1"
    using Warp_update_spec[OF assms(1,2), of recvg_pc sz] by (simp add: g update_spec_def)
  have len: "length npc = w_warp_size w" "length npc \<le> 32" "lanes (se_active_mask e) \<subseteq> {..<length npc}"
    using assms(1,2) by (auto simp: update_ok_def lanes_ok_def)
  have "lanes ?m \<subseteq> lanes (se_active_mask e)" by (auto simp: bit_lanes)
  then have lo: "lanes_ok dn npc' ?m"
    using len assms(4-6) unfolding lanes_ok_def by auto
  have "?m \<noteq> 0" using assms(4) by (auto simp: next_pcs_def live_def)
  then have ok: "update_ok dn npc' RET_OP callee ?w1"
    using lo len assms(4,5) by (simp add: update_ok_def returns_def)
  have "w_stack ?w1 = ?c # e # es" by simp
  from Warp_update_spec[OF this ok, of recvg_pc' sz']
  have "Warp_update dn npc' recvg_pc' RET_OP sz' callee ?w1 =
      Inr (w\<lparr>w_stack := return_to ret (e # es)\<rparr>)"
    by (simp add: groups_single[OF assms(4)] update_spec_def returns_def)
  with w1 show ?thesis by (auto simp: return_to_def assms(1) fun_eq_iff)
qed

theorem Warp_call_return_witness:
  "\<exists>w1 w2. Warp_update 1 [64, 64] 0 CALL_OP 8 0 (Warp_launch 0 3 (new_Warp 3 2)) = Inr w1 \<and>
    lane_pc (w_stack w1) = (\<lambda>i. if bit (group_mask 1 [64, 64] 3 64) i then Some 64
        else lane_pc (w_stack (Warp_launch 0 3 (new_Warp 3 2))) i) \<and>
    Warp_update 1 [8, 8] 0 RET_OP 8 64 w1 = Inr w2 \<and>
    w_stack w2 = [new_SimtStack_entry\<lparr>se_PC := 0, se_calldepth := 1, se_active_mask := 3\<rparr>\<lparr>se_PC := 8\<rparr>]"
proof -
  let ?e = "new_SimtStack_entry\<lparr>se_PC := 0, se_calldepth := 1, se_active_mask := 3\<rparr>"
  have "w_stack (Warp_launch 0 3 (new_Warp 3 2)) = [?e]"
    "update_ok 1 [64, 64] CALL_OP 0 (Warp_launch 0 3 (new_Warp 3 2))"
    "next_pcs 1 [64, 64] (se_active_mask ?e) = {64}"
    "next_pcs 1 [8, 8] (group_mask 1 [64, 64] (se_active_mask ?e) 64) = {8}"
    "length [8, 8 :: addr_t] = length [64, 64 :: addr_t]" "(8 :: addr_t) \<noteq> null_pc" "\<not> converged ?e 8"
    by code_simp+
  from Warp_call_return[OF this(1-6), of 0 8 0 8] this(7) show ?thesis by simp
qed

lemma reconverge_pop:
  assumes "w_stack w = x # xs" "se_type x = STACK_ENTRY_TYPE_NORMAL" "se_recvg_pc x = r" "r \<noteq> null_pc"
    and "length rs = w_warp_size w" "length rs \<le> 32" "\<forall>i < length rs. rs ! i = r"
    and "lanes (se_active_mask x) \<subseteq> {..<length rs}" "se_active_mask x \<noteq> 0" "oper \<noteq> CALL_OP"
  shows "Warp_update dn rs rc oper sz (se_PC x) w = Inr (w\<lparr>w_stack := xs\<rparr>)"
proof -
  have sub: "next_pcs dn rs (se_active_mask x) \<subseteq> {r}"
    using assms(7,8) by (auto simp: next_pcs_def)
  then have n: "next_pcs dn rs (se_active_mask x) = {} \<or> next_pcs dn rs (se_active_mask x) = {r}"
    by auto
  have "\<not> returns oper x" using assms(2) by (simp add: returns_def)
  then have "update_ok dn rs oper (se_PC x) w"
    using assms n by (auto simp: update_ok_def lanes_ok_def)
  from Warp_update_spec[OF assms(1) this, of rc sz] n show ?thesis
    using assms(2,3,10) by (auto simp: groups_single groups_def update_spec_def returns_def converged_def)
qed

text \<open>
  C5. Divergence and reconvergence: a branch that sends the live lanes to two addresses, neither
  of them its reconvergence point \<open>r\<close>, replaces the entry by three, the fall-through path below
  the other one; when the two branch entries have come to \<open>r\<close>, one after the other, the entry is
  back on top, at \<open>r\<close> and with its old mask. The divergence is counted once.
\<close>

theorem Warp_diverge_reconverge:
  assumes "w_stack w = e # es" "update_ok dn npc oper pc w" "oper \<noteq> CALL_OP" "\<not> returns oper e"
    and "next_pcs dn npc (se_active_mask e) = {k, l}" "k < l" "r \<noteq> k" "r \<noteq> l" "r \<noteq> null_pc"
    and "se_recvg_pc e \<notin> {k, l, r}" "length rs = length npc" "\<forall>i < length rs. rs ! i = r"
    and "op1 \<noteq> CALL_OP" "op2 \<noteq> CALL_OP"
  shows "\<exists>w1 w2 w3 a b. Warp_update dn npc r oper sz pc w = Inr w1 \<and>
    (a, b) = (if l = pc + ucast sz then (l, k) else (k, l)) \<and>
    map se_PC (w_stack w1) = [b, a, r] @ map se_PC es \<and>
    Warp_update dn rs rc1 op1 sz1 b w1 = Inr w2 \<and> w_stack w2 = tl (w_stack w1) \<and>
    Warp_update dn rs rc2 op2 sz2 a w2 = Inr w3 \<and> w_stack w3 = e\<lparr>se_PC := r\<rparr> # es \<and>
    w_div_stats w3 = pc # w_div_stats w"
proof -
  define a b where ab: "a = (if l = pc + ucast sz then l else k)" "b = (if l = pc + ucast sz then k else l)"
  let ?g = "group_mask dn npc (se_active_mask e)"
  let ?x = "\<lambda>p. path_entry new_SimtStack_entry r (p, ?g p)"
  let ?w1 = "w\<lparr>w_stack := [?x b, ?x a, e\<lparr>se_PC := r\<rparr>] @ es, w_div_stats := pc # w_div_stats w\<rparr>"
  let ?w2 = "?w1\<lparr>w_stack := [?x a, e\<lparr>se_PC := r\<rparr>] @ es\<rparr>"
  have len: "length rs = w_warp_size w" "length rs \<le> 32" "lanes (se_active_mask e) \<subseteq> {..<length rs}"
    using assms(1,2,11) by (auto simp: update_ok_def lanes_ok_def)
  have abk: "a \<in> next_pcs dn npc (se_active_mask e)" "b \<in> next_pcs dn npc (se_active_mask e)"
    by (auto simp: ab assms(5))
  have m: "lanes (?g p) \<subseteq> {..<length rs}" for p using len(3) by (auto simp: bit_lanes)
  have m0: "?g p \<noteq> 0" if p: "p \<in> next_pcs dn npc (se_active_mask e)" for p
  proof -
    obtain i where "bit (?g p) i" using p by (auto simp: next_pcs_def bit_lanes)
    then show ?thesis by auto
  qed
  have vs: "visits (pc + ucast sz) [(k, ?g k), (l, ?g l)] = [(a, ?g a), (b, ?g b)]"
    by (simp add: visits_def ab)
  have 1: "Warp_update dn npc r oper sz pc w = Inr ?w1"
    using Warp_update_spec[OF assms(1,2), of r sz] assms(3,4,7,8,10) abk
    by (auto simp: groups_pair[OF assms(5,6)] update_spec_def vs split_entry_def converged_def assms(5))
  have 2: "Warp_update dn rs rc1 op1 sz1 b ?w1 = Inr ?w2"
    using reconverge_pop[of ?w1 "?x b" "[?x a, e\<lparr>se_PC := r\<rparr>] @ es" r rs op1 dn rc1 sz1]
      assms(9,12,13) len m m0[OF abk(2)] by simp
  have 3: "Warp_update dn rs rc2 op2 sz2 a ?w2 = Inr (?w2\<lparr>w_stack := e\<lparr>se_PC := r\<rparr> # es\<rparr>)"
    using reconverge_pop[of ?w2 "?x a" "e\<lparr>se_PC := r\<rparr> # es" r rs op2 dn rc2 sz2]
      assms(9,12,14) len m m0[OF abk(1)] by simp
  have 4: "(a, b) = (if l = pc + ucast sz then (l, k) else (k, l))" by (simp add: ab)
  show ?thesis
    by (rule exI[of _ ?w1], rule exI[of _ ?w2], rule exI[of _ "?w2\<lparr>w_stack := e\<lparr>se_PC := r\<rparr> # es\<rparr>"],
        rule exI[of _ a], rule exI[of _ b]) (use 1 2 3 4 in simp)
qed

theorem Warp_diverge_reconverge_witness:
  "\<exists>w1 w2 w3 a b. Warp_update 1 [8, 8, 100, 100] 200 NO_OP 8 0 (Warp_launch 0 15 (new_Warp 3 4)) = Inr w1 \<and>
    (a, b) = (if (100 :: addr_t) = 0 + ucast (8 :: u32) then (100, 8) else (8, 100)) \<and>
    map se_PC (w_stack w1) = [b, a, 200] @ map se_PC ([] :: simt_stack) \<and>
    Warp_update 1 [200, 200, 200, 200] 0 NO_OP 8 b w1 = Inr w2 \<and> w_stack w2 = tl (w_stack w1) \<and>
    Warp_update 1 [200, 200, 200, 200] 0 NO_OP 8 a w2 = Inr w3 \<and>
    w_stack w3 = [new_SimtStack_entry\<lparr>se_PC := 0, se_calldepth := 1, se_active_mask := 15\<rparr>\<lparr>se_PC := 200\<rparr>] \<and>
    w_div_stats w3 = 0 # w_div_stats (Warp_launch 0 15 (new_Warp 3 4))"
proof -
  let ?e = "new_SimtStack_entry\<lparr>se_PC := 0, se_calldepth := 1, se_active_mask := 15\<rparr>"
  have h: "w_stack (Warp_launch 0 15 (new_Warp 3 4)) = [?e]"
    "update_ok 1 [8, 8, 100, 100] NO_OP 0 (Warp_launch 0 15 (new_Warp 3 4))" "NO_OP \<noteq> CALL_OP"
    "\<not> returns NO_OP ?e" "next_pcs 1 [8, 8, 100, 100] (se_active_mask ?e) = {8, 100}"
    "(8 :: addr_t) < 100" "(200 :: addr_t) \<noteq> 8" "(200 :: addr_t) \<noteq> 100" "200 \<noteq> null_pc"
    "se_recvg_pc ?e \<notin> {8, 100, 200}"
    "length [200, 200, 200, 200 :: addr_t] = length [8, 8, 100, 100 :: addr_t]"
    "\<forall>i < length [200, 200, 200, 200 :: addr_t]. [200, 200, 200, 200] ! i = (200 :: addr_t)"
    by code_simp+
  show ?thesis
    using Warp_diverge_reconverge[OF h(1-12) h(3) h(3), of 8 0 8 0 8] by simp
qed

end
