(* ===== verification/Kernel_Info.thy ===== *)
theory Kernel_Info
  imports Sim_Prelude
begin

text \<open>
  A kernel being executed (model/KernelInfo.cpp, model/inc/KernelInfo.h) and the state that its
  blocks share (model/inc/KernelState.h): the grid and block dimensions, the next block and the
  next thread to start, the parent and child kernels, and the constant buffer. The lemmas show
  that the walk over the blocks and over the threads meets every one exactly once, in order.
\<close>

section \<open>Kernel state\<close>

datatype KernelStatus = READY | RUNNING | EXIT

record KernelState =
  ks_status :: KernelStatus
  ks_const_num :: u32
  ks_prog_addr :: u64
  ks_param_addr :: u64
  ks_param_size :: u64
  ks_local_addr :: u64
  ks_local_size :: u64
  ks_shared_addr :: u64
  ks_shared_size :: u64
  ks_vreg_used :: u32
  ks_sreg_used :: u32
  ks_const_buffer :: "u32 list"

definition KernelState_init :: "KernelState \<Rightarrow> KernelState" where
  "KernelState_init k = k\<lparr>ks_status := READY\<rparr>"

text \<open>
  The constructor leaves the members and the array it allocates uninitialised: \<open>raw\<close> and \<open>mem\<close>
  stand for what the storage held before.
\<close>

definition new_KernelState :: "u32 \<Rightarrow> KernelState \<Rightarrow> (nat \<Rightarrow> u32) \<Rightarrow> KernelState" where
  "new_KernelState const_num raw mem = KernelState_init
     (raw\<lparr>ks_const_num := const_num, ks_const_buffer := map mem [0..<unat const_num]\<rparr>)"

definition getConstBuffer :: "KernelState \<Rightarrow> u32 list" where
  "getConstBuffer k = ks_const_buffer k"

definition getProgAddr :: "KernelState \<Rightarrow> u64" where
  "getProgAddr k = ks_prog_addr k"

definition setProgAddr :: "u64 \<Rightarrow> KernelState \<Rightarrow> KernelState" where
  "setProgAddr prog_addr k = k\<lparr>ks_prog_addr := prog_addr\<rparr>"

definition getParamAddr :: "KernelState \<Rightarrow> u64" where
  "getParamAddr k = ks_param_addr k"

definition setParamAddr :: "u64 \<Rightarrow> KernelState \<Rightarrow> KernelState" where
  "setParamAddr param_addr k = k\<lparr>ks_param_addr := param_addr\<rparr>"

text \<open>\<open>setConstReg\<close> stores one word at word index \<open>addr\<close>; its 64-bit overload casts the buffer
  and stores two words at twice that index.\<close>

definition setConstReg32 :: "u32 \<Rightarrow> u32 \<Rightarrow> KernelState \<Rightarrow> KernelState res" where
  "setConstReg32 addr value k =
     bindR (vec_set (ks_const_buffer k) (unat addr) value) (\<lambda>b. Inr (k\<lparr>ks_const_buffer := b\<rparr>))"

definition store_u64_at :: "nat \<Rightarrow> u64 \<Rightarrow> u32 list \<Rightarrow> u32 list res" where
  "store_u64_at i v b =
     bindR (vec_set b i (ucast v)) (\<lambda>b. vec_set b (i + 1) (ucast (drop_bit 32 v)))"

definition setConstReg64 :: "u32 \<Rightarrow> u64 \<Rightarrow> KernelState \<Rightarrow> KernelState res" where
  "setConstReg64 addr value k =
     bindR (store_u64_at (2 * unat addr) value (ks_const_buffer k))
       (\<lambda>b. Inr (k\<lparr>ks_const_buffer := b\<rparr>))"

definition getParamSize :: "KernelState \<Rightarrow> u64" where
  "getParamSize k = ks_param_size k"

definition setParamSize :: "u64 \<Rightarrow> KernelState \<Rightarrow> KernelState" where
  "setParamSize param_size k = k\<lparr>ks_param_size := param_size\<rparr>"

definition getLocalAddr :: "KernelState \<Rightarrow> u64" where
  "getLocalAddr k = ks_local_addr k"

text \<open>The address is also stored at word index 1 of the buffer (the cast comes after the addition).\<close>

definition setLocalAddr :: "u64 \<Rightarrow> KernelState \<Rightarrow> KernelState res" where
  "setLocalAddr local_addr k =
     bindR (store_u64_at 1 local_addr (ks_const_buffer k))
       (\<lambda>b. Inr (k\<lparr>ks_local_addr := local_addr, ks_const_buffer := b\<rparr>))"

definition getLocalSize :: "KernelState \<Rightarrow> u64" where
  "getLocalSize k = ks_local_addr k"

definition setLocalSize :: "u64 \<Rightarrow> KernelState \<Rightarrow> KernelState" where
  "setLocalSize local_size k = k\<lparr>ks_local_size := local_size\<rparr>"

definition getSharedSize :: "KernelState \<Rightarrow> u64" where
  "getSharedSize k = ks_shared_size k"

definition setSharedSize :: "u64 \<Rightarrow> KernelState \<Rightarrow> KernelState" where
  "setSharedSize shared_size k = k\<lparr>ks_shared_size := shared_size\<rparr>"

definition getVRegUsed :: "KernelState \<Rightarrow> u32" where
  "getVRegUsed k = ks_vreg_used k"

definition setVRegUsed :: "u32 \<Rightarrow> KernelState \<Rightarrow> KernelState" where
  "setVRegUsed r k = k\<lparr>ks_vreg_used := r\<rparr>"

definition getSRegUsed :: "KernelState \<Rightarrow> u32" where
  "getSRegUsed k = ks_sreg_used k"

definition setSRegUsed :: "u32 \<Rightarrow> KernelState \<Rightarrow> KernelState" where
  "setSRegUsed r k = k\<lparr>ks_sreg_used := r\<rparr>"

section \<open>Kernel info\<close>

record dim3 =
  dx :: u32
  dy :: u32
  dz :: u32

abbreviation mk_dim3 :: "u32 \<Rightarrow> u32 \<Rightarrow> u32 \<Rightarrow> dim3" where
  "mk_dim3 x y z \<equiv> \<lparr>dx = x, dy = y, dz = z\<rparr>"

definition increment_x_then_y_then_z :: "dim3 \<Rightarrow> dim3 \<Rightarrow> dim3" where
  "increment_x_then_y_then_z i bound =
     (let i = i\<lparr>dx := dx i + 1\<rparr> in
      if dx i \<ge> dx bound then
        let i = i\<lparr>dx := 0, dy := dy i + 1\<rparr> in
        if dy i \<ge> dy bound then
          let i = i\<lparr>dy := 0\<rparr> in
          if dz i < dz bound then i\<lparr>dz := dz i + 1\<rparr> else i
        else i
      else i)"

text \<open>The members of the (external) dispatch record that the constructor reads.\<close>

record DispatchInfo =
  di_grid_dim :: dim3
  di_block_dim :: dim3
  di_kernel_param_addr :: u64
  di_kernel_param_size :: u64
  di_kernel_prog_addr :: u64
  di_private_mem_addr :: u64
  di_private_memsize :: u64
  di_shared_memsize :: u64
  di_vreg_used :: u32
  di_sreg_used :: u32
  di_kernel_ctrl :: u32
  di_bar_used :: u32

text \<open>Kernels refer to each other by pointers: an identifier of type \<open>nat\<close>, \<open>None\<close> for null.\<close>

record KernelInfo =
  ki_uid :: u32
  ki_grid_dim :: dim3
  ki_block_dim :: dim3
  ki_next_cta :: dim3
  ki_next_tid :: dim3
  ki_num_cores_running :: u32
  ki_inst_text_base_vaddr :: addr_t
  ki_state :: KernelState
  ki_kernel_ctrl :: u32
  ki_bar_used :: u32
  ki_kernel_TB_latency :: u32
  ki_parent_kernel :: "nat option"
  ki_parent_ctaid :: dim3
  ki_parent_tid :: dim3
  ki_child_kernels :: "nat list"

definition inc_running :: "KernelInfo \<Rightarrow> KernelInfo" where
  "inc_running k = k\<lparr>ki_num_cores_running := ki_num_cores_running k + 1\<rparr>"

definition dec_running :: "KernelInfo \<Rightarrow> KernelInfo res" where
  "dec_running k = assertR (ki_num_cores_running k > 0)
     (Inr (k\<lparr>ki_num_cores_running := ki_num_cores_running k - 1\<rparr>))"

definition running :: "KernelInfo \<Rightarrow> bool" where
  "running k \<longleftrightarrow> ki_num_cores_running k > 0"

definition no_more_ctas_to_run :: "KernelInfo \<Rightarrow> bool" where
  "no_more_ctas_to_run k \<longleftrightarrow>
     dx (ki_next_cta k) \<ge> dx (ki_grid_dim k) \<or> dy (ki_next_cta k) \<ge> dy (ki_grid_dim k) \<or>
     dz (ki_next_cta k) \<ge> dz (ki_grid_dim k)"

definition kernel_done :: "KernelInfo \<Rightarrow> bool" where
  "kernel_done k \<longleftrightarrow> no_more_ctas_to_run k \<and> \<not> running k"

text \<open>The products are 32-bit products, widened only when they are returned.\<close>

definition num_blocks :: "KernelInfo \<Rightarrow> u64" where
  "num_blocks k = ucast (dx (ki_grid_dim k) * dy (ki_grid_dim k) * dz (ki_grid_dim k))"

definition threads_per_cta :: "KernelInfo \<Rightarrow> u64" where
  "threads_per_cta k = ucast (dx (ki_block_dim k) * dy (ki_block_dim k) * dz (ki_block_dim k))"

definition single_id :: "dim3 \<Rightarrow> dim3 \<Rightarrow> u32" where
  "single_id i bound = dx i + dx bound * dy i + dx bound * dy bound * dz i"

definition get_next_cta_id_single :: "KernelInfo \<Rightarrow> u32" where
  "get_next_cta_id_single k = single_id (ki_next_cta k) (ki_grid_dim k)"

definition get_next_thread_id :: "KernelInfo \<Rightarrow> u32" where
  "get_next_thread_id k = single_id (ki_next_tid k) (ki_block_dim k)"

definition more_threads_in_cta :: "KernelInfo \<Rightarrow> bool" where
  "more_threads_in_cta k \<longleftrightarrow>
     dz (ki_next_tid k) < dz (ki_block_dim k) \<and> dy (ki_next_tid k) < dy (ki_block_dim k) \<and>
     dx (ki_next_tid k) < dx (ki_block_dim k)"

definition increment_cta_id :: "KernelInfo \<Rightarrow> KernelInfo" where
  "increment_cta_id k = k\<lparr>ki_next_cta := increment_x_then_y_then_z (ki_next_cta k) (ki_grid_dim k),
     ki_next_tid := mk_dim3 0 0 0\<rparr>"

definition increment_thread_id :: "KernelInfo \<Rightarrow> KernelInfo" where
  "increment_thread_id k =
     k\<lparr>ki_next_tid := increment_x_then_y_then_z (ki_next_tid k) (ki_block_dim k)\<rparr>"

definition set_inst_base_vaddr :: "addr_t \<Rightarrow> KernelInfo \<Rightarrow> KernelInfo" where
  "set_inst_base_vaddr addr k = k\<lparr>ki_inst_text_base_vaddr := addr\<rparr>"

definition new_KernelInfo :: "DispatchInfo \<Rightarrow> KernelInfo \<Rightarrow> KernelState \<Rightarrow> (nat \<Rightarrow> u32) \<Rightarrow> KernelInfo res" where
  "new_KernelInfo disp_info raw raw_state mem =
     (let k = raw\<lparr>ki_grid_dim := di_grid_dim disp_info, ki_block_dim := di_block_dim disp_info,
            ki_next_cta := mk_dim3 0 0 0, ki_next_tid := mk_dim3 0 0 0, ki_num_cores_running := 0,
            ki_child_kernels := []\<rparr>;
          st = new_KernelState 1024 raw_state mem;
          st = setProgAddr (di_kernel_prog_addr disp_info)
                 (setParamSize (di_kernel_param_size disp_info)
                   (setParamAddr (di_kernel_param_addr disp_info) st))
      in bindR (setLocalAddr (di_private_mem_addr disp_info) st) (\<lambda>st.
         let st = setSRegUsed (di_sreg_used disp_info)
                    (setVRegUsed (di_vreg_used disp_info)
                      (setSharedSize (di_shared_memsize disp_info)
                        (setLocalSize (di_private_memsize disp_info) st)));
             k = k\<lparr>ki_state := st, ki_kernel_ctrl := di_kernel_ctrl disp_info,
                   ki_bar_used := di_bar_used disp_info\<rparr>;
             k = set_inst_base_vaddr (di_kernel_prog_addr disp_info) k
         in Inr (k\<lparr>ki_parent_kernel := None, ki_kernel_TB_latency := 10\<rparr>)))"

text \<open>Operations that follow pointers work on the heap of kernels.\<close>

type_synonym kernels = "nat \<rightharpoonup> KernelInfo"

definition set_child :: "nat \<Rightarrow> nat \<Rightarrow> kernels \<Rightarrow> kernels res" where
  "set_child this child h = bindR (deref h this) (\<lambda>k.
     Inr (h(this \<mapsto> k\<lparr>ki_child_kernels := ki_child_kernels k @ [child]\<rparr>)))"

definition set_parent :: "nat \<Rightarrow> nat \<Rightarrow> dim3 \<Rightarrow> dim3 \<Rightarrow> kernels \<Rightarrow> kernels res" where
  "set_parent this parent ctaid tid h = bindR (deref h this) (\<lambda>k.
     set_child parent this (h(this \<mapsto> k\<lparr>ki_parent_kernel := Some parent, ki_parent_ctaid := ctaid,
       ki_parent_tid := tid\<rparr>)))"

definition remove_child :: "nat \<Rightarrow> nat \<Rightarrow> kernels \<Rightarrow> kernels res" where
  "remove_child this child h = bindR (deref h this) (\<lambda>k.
     assertR (child \<in> set (ki_child_kernels k))
       (Inr (h(this \<mapsto> k\<lparr>ki_child_kernels := removeAll child (ki_child_kernels k)\<rparr>))))"

definition children_all_finished :: "KernelInfo \<Rightarrow> bool" where
  "children_all_finished k \<longleftrightarrow> ki_child_kernels k = []"

definition is_finished :: "KernelInfo \<Rightarrow> bool" where
  "is_finished k \<longleftrightarrow> kernel_done k \<and> children_all_finished k"

definition get_shared_memsize :: "KernelInfo \<Rightarrow> u32" where
  "get_shared_memsize k = ucast (getSharedSize (ki_state k))"

definition get_prog_addr :: "KernelInfo \<Rightarrow> u32" where
  "get_prog_addr k = ucast (getProgAddr (ki_state k))"

definition get_vreg_used :: "KernelInfo \<Rightarrow> u32" where
  "get_vreg_used k = getVRegUsed (ki_state k)"

definition get_sreg_used :: "KernelInfo \<Rightarrow> u32" where
  "get_sreg_used k = getSRegUsed (ki_state k)"

section \<open>The walk over a grid\<close>

lemma unat_inc: "x < b \<Longrightarrow> unat (x + 1) = Suc (unat x)" for x b :: u32
proof -
  have "unat b < 2 ^ LENGTH(32)" by (rule unsigned_less)
  moreover assume "x < b"
  ultimately show ?thesis by (simp add: word_less_nat_alt unat_word_ariths)
qed

lemma increment_cases: "increment_x_then_y_then_z i b =
    (if dx i + 1 < dx b then i\<lparr>dx := dx i + 1\<rparr>
     else if dy i + 1 < dy b then i\<lparr>dx := 0, dy := dy i + 1\<rparr>
     else i\<lparr>dx := 0, dy := 0, dz := (if dz i < dz b then dz i + 1 else dz i)\<rparr>)"
  by (auto simp: increment_x_then_y_then_z_def Let_def)

text \<open>The position of an index in the order in which the code walks: x first, then y, then z.\<close>

definition grid_pos :: "dim3 \<Rightarrow> dim3 \<Rightarrow> nat" where
  "grid_pos i b = unat (dx i) + unat (dx b) * (unat (dy i) + unat (dy b) * unat (dz i))"

definition grid_size :: "dim3 \<Rightarrow> nat" where
  "grid_size b = unat (dx b) * unat (dy b) * unat (dz b)"

definition in_grid :: "dim3 \<Rightarrow> dim3 \<Rightarrow> bool" where
  "in_grid i b \<longleftrightarrow> dx i < dx b \<and> dy i < dy b \<and> dz i < dz b"

text \<open>An index inside of the grid, or the one after the last.\<close>

definition grid_ok :: "dim3 \<Rightarrow> dim3 \<Rightarrow> bool" where
  "grid_ok i b \<longleftrightarrow> dx i < dx b \<and> dy i < dy b \<and> dz i \<le> dz b \<and> (dz i = dz b \<longrightarrow> dx i = 0 \<and> dy i = 0)"

lemma nat_digits_less: "x < bx \<Longrightarrow> y < by' \<Longrightarrow> x + bx * y < bx * (by' :: nat)"
  by (metis add.commute add_less_le_mono less_eq_Suc_le mult_Suc_right mult_le_mono2 nat_add_left_cancel_less
      order_less_le_trans add_lessD1 order_le_less_trans linorder_not_le)

lemma grid_pos_less:
  assumes "in_grid i b"
  shows "grid_pos i b < grid_size b"
proof -
  have l: "unat (dx i) < unat (dx b)" "unat (dy i) < unat (dy b)" "unat (dz i) < unat (dz b)"
    using assms by (auto simp: in_grid_def word_less_nat_alt)
  have "unat (dy i) + unat (dy b) * unat (dz i) < unat (dy b) * unat (dz b)"
    by (rule nat_digits_less[OF l(2,3)])
  from nat_digits_less[OF l(1) this] show ?thesis by (simp add: grid_pos_def grid_size_def mult.assoc)
qed

lemma grid_ok_more: "grid_ok i b \<Longrightarrow> in_grid i b \<longleftrightarrow> grid_pos i b < grid_size b"
proof (cases "dz i = dz b")
  case True
  moreover assume "grid_ok i b"
  ultimately show ?thesis by (auto simp: grid_ok_def in_grid_def grid_pos_def grid_size_def)
next
  case False
  moreover assume "grid_ok i b"
  ultimately have "in_grid i b" by (auto simp: grid_ok_def in_grid_def)
  then show ?thesis using grid_pos_less by simp
qed

lemma grid_step:
  assumes "in_grid i b"
  shows "grid_ok (increment_x_then_y_then_z i b) b \<and>
    grid_pos (increment_x_then_y_then_z i b) b = Suc (grid_pos i b)"
proof -
  have l: "dx i < dx b" "dy i < dy b" "dz i < dz b" using assms by (auto simp: in_grid_def)
  have u: "unat (dx i + 1) = Suc (unat (dx i))" "unat (dy i + 1) = Suc (unat (dy i))"
    "unat (dz i + 1) = Suc (unat (dz i))"
    using l by (auto intro: unat_inc)
  note w = word_less_nat_alt word_le_nat_alt
  consider (x) "dx i + 1 < dx b" | (y) "dx i + 1 \<ge> dx b" "dy i + 1 < dy b"
    | (z) "dx i + 1 \<ge> dx b" "dy i + 1 \<ge> dy b" by fastforce
  then show ?thesis
  proof cases
    case x
    then show ?thesis using l u
      by (auto simp: increment_cases grid_ok_def grid_pos_def)
  next
    case y
    then have "unat (dx b) = Suc (unat (dx i))" using l u by (simp add: w)
    then show ?thesis using l u y
      by (auto simp: increment_cases grid_ok_def grid_pos_def w algebra_simps)
  next
    case z
    then have "unat (dx b) = Suc (unat (dx i))" "unat (dy b) = Suc (unat (dy i))"
      using l u by (simp_all add: w)
    then show ?thesis using l u z
      by (auto simp: increment_cases grid_ok_def grid_pos_def w algebra_simps)
  qed
qed

interpretation ctas: walk increment_cta_id "\<lambda>k. \<not> no_more_ctas_to_run k"
  "\<lambda>k. grid_pos (ki_next_cta k) (ki_grid_dim k)" "\<lambda>k. grid_ok (ki_next_cta k) (ki_grid_dim k)"
  "\<lambda>k. grid_size (ki_grid_dim k)"
proof unfold_locales
  fix k :: KernelInfo
  have m: "\<not> no_more_ctas_to_run k \<longleftrightarrow> in_grid (ki_next_cta k) (ki_grid_dim k)"
    by (auto simp: no_more_ctas_to_run_def in_grid_def)
  show "grid_ok (ki_next_cta k) (ki_grid_dim k) \<Longrightarrow> \<not> no_more_ctas_to_run k \<Longrightarrow>
      grid_ok (ki_next_cta (increment_cta_id k)) (ki_grid_dim (increment_cta_id k))"
    and "grid_ok (ki_next_cta k) (ki_grid_dim k) \<Longrightarrow> \<not> no_more_ctas_to_run k \<Longrightarrow>
      grid_pos (ki_next_cta (increment_cta_id k)) (ki_grid_dim (increment_cta_id k)) =
      Suc (grid_pos (ki_next_cta k) (ki_grid_dim k))"
    using grid_step unfolding m by (simp_all add: increment_cta_id_def)
  show "grid_size (ki_grid_dim (increment_cta_id k)) = grid_size (ki_grid_dim k)"
    by (simp add: increment_cta_id_def)
  show "grid_ok (ki_next_cta k) (ki_grid_dim k) \<Longrightarrow> (\<not> no_more_ctas_to_run k) =
      (grid_pos (ki_next_cta k) (ki_grid_dim k) < grid_size (ki_grid_dim k))"
    unfolding m by (rule grid_ok_more)
qed

interpretation tids: walk increment_thread_id more_threads_in_cta
  "\<lambda>k. grid_pos (ki_next_tid k) (ki_block_dim k)" "\<lambda>k. grid_ok (ki_next_tid k) (ki_block_dim k)"
  "\<lambda>k. grid_size (ki_block_dim k)"
proof unfold_locales
  fix k :: KernelInfo
  have m: "more_threads_in_cta k \<longleftrightarrow> in_grid (ki_next_tid k) (ki_block_dim k)"
    by (auto simp: more_threads_in_cta_def in_grid_def)
  show "grid_ok (ki_next_tid k) (ki_block_dim k) \<Longrightarrow> more_threads_in_cta k \<Longrightarrow>
      grid_ok (ki_next_tid (increment_thread_id k)) (ki_block_dim (increment_thread_id k))"
    and "grid_ok (ki_next_tid k) (ki_block_dim k) \<Longrightarrow> more_threads_in_cta k \<Longrightarrow>
      grid_pos (ki_next_tid (increment_thread_id k)) (ki_block_dim (increment_thread_id k)) =
      Suc (grid_pos (ki_next_tid k) (ki_block_dim k))"
    using grid_step unfolding m by (simp_all add: increment_thread_id_def)
  show "grid_size (ki_block_dim (increment_thread_id k)) = grid_size (ki_block_dim k)"
    by (simp add: increment_thread_id_def)
  show "grid_ok (ki_next_tid k) (ki_block_dim k) \<Longrightarrow> more_threads_in_cta k =
      (grid_pos (ki_next_tid k) (ki_block_dim k) < grid_size (ki_block_dim k))"
    unfolding m by (rule grid_ok_more)
qed

lemma grid_pos_digits:
  assumes "in_grid i b"
  shows "unat (dx i) = grid_pos i b mod unat (dx b)"
    "unat (dy i) = grid_pos i b div unat (dx b) mod unat (dy b)"
    "unat (dz i) = grid_pos i b div unat (dx b) div unat (dy b)"
proof -
  have l: "unat (dx i) < unat (dx b)" "unat (dy i) < unat (dy b)"
    using assms by (auto simp: in_grid_def word_less_nat_alt)
  then show "unat (dx i) = grid_pos i b mod unat (dx b)"
    "unat (dy i) = grid_pos i b div unat (dx b) mod unat (dy b)"
    "unat (dz i) = grid_pos i b div unat (dx b) div unat (dy b)"
    by (simp_all add: grid_pos_def)
qed

lemma grid_pos_inj: "in_grid i b \<Longrightarrow> in_grid j b \<Longrightarrow> grid_pos i b = grid_pos j b \<Longrightarrow> i = j"
  by (metis dim3.equality grid_pos_digits old.unit.exhaust unsigned_word_eqI)

text \<open>What a complete walk visits.\<close>

lemma walked_indices:
  assumes "map (\<lambda>i. grid_pos i b) is = [0..<grid_size b]" "\<forall>i \<in> set is. in_grid i b"
  shows "distinct is" "set is = {i. in_grid i b}"
proof -
  have "distinct (map (\<lambda>i. grid_pos i b) is)" using assms(1) by simp
  then show "distinct is" by (simp add: distinct_map)
  show "set is = {i. in_grid i b}"
  proof (intro equalityI subsetI)
    fix i assume "i \<in> {i. in_grid i b}"
    then have i: "in_grid i b" by simp
    then have "grid_pos i b \<in> set (map (\<lambda>i. grid_pos i b) is)"
      using grid_pos_less by (simp add: assms(1) del: set_map)
    then obtain j where "j \<in> set is" "grid_pos j b = grid_pos i b" by auto
    then show "i \<in> set is" using grid_pos_inj[OF i] assms(2) by metis
  qed (use assms(2) in auto)
qed

lemma walk_trace_more: "s \<in> set (walk_trace cont step n s0) \<Longrightarrow> cont s"
  by (induction n arbitrary: s0) (auto split: if_splits)

lemma grid_ok_0: "0 < dx b \<Longrightarrow> 0 < dy b \<Longrightarrow> grid_ok (mk_dim3 0 0 0) b"
  by (simp add: grid_ok_def)

lemma grid_pos_0 [simp]: "grid_pos (mk_dim3 0 0 0) b = 0"
  by (simp add: grid_pos_def)

lemma cta_trace_dim:
  "s \<in> set (walk_trace cont increment_cta_id n k) \<Longrightarrow> ki_grid_dim s = ki_grid_dim k"
  by (induction n arbitrary: k) (auto simp: increment_cta_id_def split: if_splits)

lemma tid_trace_dim:
  "s \<in> set (walk_trace cont increment_thread_id n k) \<Longrightarrow> ki_block_dim s = ki_block_dim k"
  by (induction n arbitrary: k) (auto simp: increment_thread_id_def split: if_splits)


text \<open>
  The loop over the threads of a block meets every thread index exactly once and then
  ends, and the number that \<open>get_next_thread_id\<close> reports at the \<open>n\<close>-th of them is \<open>n\<close>.
\<close>

lemma thread_walk_complete:
  assumes "ki_next_tid k = mk_dim3 0 0 0" "0 < dx (ki_block_dim k)" "0 < dy (ki_block_dim k)"
  defines "n \<equiv> grid_size (ki_block_dim k)"
  defines "threads \<equiv> map ki_next_tid (walk_trace more_threads_in_cta increment_thread_id n k)"
  shows "distinct threads \<and> set threads = {i. in_grid i (ki_block_dim k)} \<and>
    \<not> more_threads_in_cta ((increment_thread_id ^^ n) k) \<and>
    (\<forall>m \<le> n. get_next_thread_id ((increment_thread_id ^^ m) k) = of_nat m)"
proof -
  let ?b = "ki_block_dim k"
  have ok: "grid_ok (ki_next_tid k) ?b" using assms grid_ok_0 by simp
  have pos: "grid_pos (ki_next_tid k) ?b = 0" by (simp add: assms(1))
  have "map (\<lambda>i. grid_pos i ?b) threads = [0..<grid_size ?b]"
    using tids.trace_pos[OF ok, of n] pos tid_trace_dim
    by (simp add: threads_def n_def comp_def cong: map_cong)
  moreover have "\<forall>i \<in> set threads. in_grid i ?b"
    using tid_trace_dim walk_trace_more
    by (fastforce simp: threads_def more_threads_in_cta_def in_grid_def)
  moreover have "get_next_thread_id s = of_nat (grid_pos (ki_next_tid s) (ki_block_dim s))" for s
    by (simp add: get_next_thread_id_def single_id_def grid_pos_def algebra_simps)
  then have "\<forall>m \<le> n. get_next_thread_id ((increment_thread_id ^^ m) k) = of_nat m"
    using tids.iter_ok[OF ok] pos by (simp add: n_def)
  ultimately show ?thesis
    using walked_indices[of ?b threads] tids.iter_end[OF ok] pos by (simp add: n_def)
qed

text \<open>A concrete kernel for the witnesses: 2 x 1 x 2 blocks of 2 x 2 x 1 threads.\<close>

definition sample_state :: KernelState where
  "sample_state = \<lparr>ks_status = EXIT, ks_const_num = 0, ks_prog_addr = 0, ks_param_addr = 0,
     ks_param_size = 0, ks_local_addr = 0, ks_local_size = 0, ks_shared_addr = 0, ks_shared_size = 0,
     ks_vreg_used = 0, ks_sreg_used = 0, ks_const_buffer = []\<rparr>"

definition sample_kernel :: KernelInfo where
  "sample_kernel = \<lparr>ki_uid = 0, ki_grid_dim = mk_dim3 2 1 2, ki_block_dim = mk_dim3 2 2 1,
     ki_next_cta = mk_dim3 0 0 0, ki_next_tid = mk_dim3 0 0 0, ki_num_cores_running = 0,
     ki_inst_text_base_vaddr = 0, ki_state = sample_state, ki_kernel_ctrl = 0, ki_bar_used = 0,
     ki_kernel_TB_latency = 0, ki_parent_kernel = None, ki_parent_ctaid = mk_dim3 1 1 1,
     ki_parent_tid = mk_dim3 1 1 1, ki_child_kernels = []\<rparr>"


lemma thread_walk_complete_witness:
  "distinct (map ki_next_tid (walk_trace more_threads_in_cta increment_thread_id
       (grid_size (ki_block_dim sample_kernel)) sample_kernel)) \<and>
   set (map ki_next_tid (walk_trace more_threads_in_cta increment_thread_id
       (grid_size (ki_block_dim sample_kernel)) sample_kernel)) = {i. in_grid i (mk_dim3 2 2 1)} \<and>
   \<not> more_threads_in_cta ((increment_thread_id ^^ grid_size (ki_block_dim sample_kernel)) sample_kernel) \<and>
   get_next_thread_id ((increment_thread_id ^^ 3) sample_kernel) = 3"
proof -
  have "ki_next_tid sample_kernel = mk_dim3 0 0 0" "ki_block_dim sample_kernel = mk_dim3 2 2 1"
    by (simp_all add: sample_kernel_def)
  with thread_walk_complete[of sample_kernel] show ?thesis by (simp add: grid_size_def)
qed

section \<open>Construction and child kernels\<close>

lemma store_u64_at_1: "2 < length b \<Longrightarrow>
    store_u64_at (Suc 0) v b = Inr (b[Suc 0 := ucast v, 2 := ucast (drop_bit 32 v)])"
  by (simp add: store_u64_at_def vec_set_def eval_nat_numeral)

text \<open>
  A kernel starts before its first block and thread with no core running and no child; its
  state holds the values of the dispatch record, with the private memory address also in the
  constant words 1 and 2, low half first, and no other constant word touched.
\<close>

lemma new_KernelInfo_spec:
  "\<exists>k. new_KernelInfo d raw rs mem = Inr k \<and>
     ki_next_cta k = mk_dim3 0 0 0 \<and> ki_next_tid k = mk_dim3 0 0 0 \<and> \<not> running k \<and>
     children_all_finished k \<and> ki_parent_kernel k = None \<and>
     ki_grid_dim k = di_grid_dim d \<and> ki_block_dim k = di_block_dim d \<and>
     getParamAddr (ki_state k) = di_kernel_param_addr d \<and>
     getProgAddr (ki_state k) = di_kernel_prog_addr d \<and>
     getLocalAddr (ki_state k) = di_private_mem_addr d \<and>
     getSharedSize (ki_state k) = di_shared_memsize d \<and>
     get_vreg_used k = di_vreg_used d \<and> get_sreg_used k = di_sreg_used d \<and>
     getConstBuffer (ki_state k) = (map mem [0..<1024])
       [1 := ucast (di_private_mem_addr d), 2 := ucast (drop_bit 32 (di_private_mem_addr d))]"
  by (simp add: new_KernelInfo_def new_KernelState_def KernelState_init_def setProgAddr_def
      setParamAddr_def setParamSize_def setLocalAddr_def store_u64_at_1 setSRegUsed_def setVRegUsed_def
      setSharedSize_def setLocalSize_def set_inst_base_vaddr_def running_def children_all_finished_def
      getParamAddr_def getProgAddr_def getLocalAddr_def getSharedSize_def get_vreg_used_def
      get_sreg_used_def getVRegUsed_def getSRegUsed_def getConstBuffer_def Let_def)

text \<open>\<open>getLocalSize\<close> does not read what \<open>setLocalSize\<close> writes.\<close>

lemma getLocalSize_is_address: "getLocalSize (setLocalSize n k) = getLocalAddr k"
  by (simp add: getLocalSize_def setLocalSize_def getLocalAddr_def)

text \<open>
  Launching a child kernel keeps its parent unfinished until the child is removed, which
  gives the parent back as it was; removing a kernel that is not a child fails the assert.
\<close>

lemma child_kernel_roundtrip:
  assumes "h p = Some kp" "h c = Some kc" "p \<noteq> c" "c \<notin> set (ki_child_kernels kp)"
  shows "\<exists>h1 h2 kp1. set_parent c p ctaid tid h = Inr h1 \<and> h1 p = Some kp1 \<and> \<not> is_finished kp1 \<and>
     map_option ki_parent_kernel (h1 c) = Some (Some p) \<and>
     remove_child p c h1 = Inr h2 \<and> h2 p = Some kp \<and> remove_child p c h2 = Inl Assert_Failed"
  using assms
  by (auto simp: set_parent_def set_child_def remove_child_def is_finished_def children_all_finished_def)

lemma child_kernel_roundtrip_witness:
  "\<exists>h1 h2 kp1. set_parent 1 0 (mk_dim3 0 0 0) (mk_dim3 0 0 0) [0 \<mapsto> sample_kernel, 1 \<mapsto> sample_kernel] = Inr h1 \<and>
     h1 0 = Some kp1 \<and> \<not> is_finished kp1 \<and> map_option ki_parent_kernel (h1 1) = Some (Some 0) \<and>
     remove_child 0 1 h1 = Inr h2 \<and> h2 0 = Some sample_kernel \<and> remove_child 0 1 h2 = Inl Assert_Failed"
  by (rule child_kernel_roundtrip) (simp_all add: sample_kernel_def)

end
