(* ===== verification/Block_State.thy ===== *)
theory Block_State
  imports Sim_Prelude Kernel_Info
begin

text \<open>
  The state that the warps of a block share (model/BlockState.cpp, model/inc/BlockState.h): the
  threads of the block, its barriers and its reduction slots; and the resources that the blocks
  of a compute unit share (model/inc/CUResource.h). The lemmas show what the barrier code does
  on every path and what happens to the barrier slots of a compute unit.
\<close>

section \<open>Resources of a compute unit\<close>

record CUResource =
  cu_max_bar_slots :: u32
  cu_free_bar_slots :: u32
  cu_max_cta_per_cu :: u32
  cu_running_block_count :: u32

definition new_CUResource :: CUResource where
  "new_CUResource = \<lparr>cu_max_bar_slots = 100, cu_free_bar_slots = 800, cu_max_cta_per_cu = 100,
     cu_running_block_count = 0\<rparr>"

text \<open>The table of \<open>GetCUResource\<close>, a static map that creates the entry on first use.\<close>

definition GetCUResource :: "u32 \<Rightarrow> (u32 \<rightharpoonup> CUResource) \<Rightarrow> CUResource \<times> (u32 \<rightharpoonup> CUResource)" where
  "GetCUResource cu_id table =
     (case table cu_id of Some r \<Rightarrow> (r, table)
      | None \<Rightarrow> (new_CUResource, table(cu_id \<mapsto> new_CUResource)))"

text \<open>
  \<open>allocRunningBlock\<close> blocks on the condition variable until its predicate holds (no result
  here), counts the block and then falls off the end of a function that should return a
  boolean. The predicate compares the barrier slots but nothing reserves them.
\<close>

definition alloc_ready :: "u32 \<Rightarrow> CUResource \<Rightarrow> bool" where
  "alloc_ready bar_count r \<longleftrightarrow>
     cu_running_block_count r < cu_max_cta_per_cu r \<and> bar_count < cu_free_bar_slots r"

definition allocRunningBlock :: "u32 \<Rightarrow> CUResource \<Rightarrow> CUResource option" where
  "allocRunningBlock bar_count r =
     (if alloc_ready bar_count r
      then Some (r\<lparr>cu_running_block_count := cu_running_block_count r + 1\<rparr>) else None)"

definition freeRunningBlock :: "CUResource \<Rightarrow> CUResource" where
  "freeRunningBlock r = r\<lparr>cu_running_block_count := cu_running_block_count r - 1\<rparr>"

definition allocBarSlot :: "u32 \<Rightarrow> CUResource \<Rightarrow> bool \<times> CUResource" where
  "allocBarSlot bar_count r =
     (if bar_count > cu_free_bar_slots r then (False, r)
      else (True, r\<lparr>cu_free_bar_slots := cu_free_bar_slots r - bar_count\<rparr>))"

definition freeBarSlot :: "u32 \<Rightarrow> CUResource \<Rightarrow> CUResource" where
  "freeBarSlot bar_count r = r\<lparr>cu_free_bar_slots := cu_free_bar_slots r + bar_count\<rparr>"

section \<open>Block state\<close>

datatype SyncStatus = SyncInitial | SyncArrived | SyncWorking | SyncUnkolwn

text \<open>Threads are pointers, identifiers of type \<open>nat\<close>; \<open>bs_warp_at_bar\<close> is the array that
  \<open>init\<close> allocates (empty before).\<close>

record BlockState =
  bs_bar_threads :: u32
  bs_uid :: u64
  bs_cta_id :: dim3
  bs_threads_in_cta :: "nat set"
  bs_threads_that_have_exited :: "nat set"
  bs_dangling_pointers :: "nat set"
  bs_bar_slot :: "u32 list"
  bs_bar_status :: "SyncStatus list"
  bs_bar_expected :: "u32 list"
  bs_bar_counter :: "u32 list"
  bs_bar_count :: u32
  bs_block_warp_count :: u32
  bs_warp_at_bar :: "bool list"

definition initBar :: "u32 \<Rightarrow> BlockState \<Rightarrow> BlockState res" where
  "initBar bar_slot_count b = forR (unat bar_slot_count) (\<lambda>i b.
     bindR (vec_set (bs_bar_slot b) i 0) (\<lambda>s.
     bindR (vec_set (bs_bar_status b) i SyncInitial) (\<lambda>st.
     bindR (vec_set (bs_bar_expected b) i 0) (\<lambda>ex.
     bindR (vec_set (bs_bar_counter b) i 0) (\<lambda>c.
       Inr (b\<lparr>bs_bar_slot := s, bs_bar_status := st, bs_bar_expected := ex, bs_bar_counter := c\<rparr>)))))) b"

text \<open>\<open>raw\<close> is what the uninitialised members hold.\<close>

definition new_BlockState :: "u32 \<Rightarrow> BlockState \<Rightarrow> BlockState res" where
  "new_BlockState bar_count raw =
     (let n = unat bar_count in
      initBar bar_count (raw\<lparr>bs_threads_in_cta := {}, bs_threads_that_have_exited := {},
        bs_dangling_pointers := {}, bs_bar_count := bar_count,
        bs_bar_slot := replicate n 0, bs_bar_status := replicate n SyncInitial,
        bs_bar_expected := replicate n 0, bs_bar_counter := replicate n 0, bs_warp_at_bar := []\<rparr>))"

definition BlockState_init :: "u64 \<Rightarrow> dim3 \<Rightarrow> u32 \<Rightarrow> BlockState \<Rightarrow> BlockState" where
  "BlockState_init uid cta_id block_warp_count b =
     b\<lparr>bs_uid := uid, bs_bar_threads := 0, bs_cta_id := cta_id,
       bs_block_warp_count := block_warp_count,
       bs_warp_at_bar := replicate (unat block_warp_count) False\<rparr>"

definition destroy :: "BlockState \<Rightarrow> CUResource \<Rightarrow> CUResource" where
  "destroy b r = freeRunningBlock (freeBarSlot (bs_bar_count b) r)"

definition add_thread :: "nat \<Rightarrow> BlockState \<Rightarrow> BlockState" where
  "add_thread thd b = b\<lparr>bs_threads_in_cta := insert thd (bs_threads_in_cta b)\<rparr>"

definition num_threads :: "BlockState \<Rightarrow> u32" where
  "num_threads b = of_nat (card (bs_threads_in_cta b))"

text \<open>\<open>done\<close> is what \<open>is_done\<close> of a thread says; the printing of the running threads is left out.\<close>

definition check_cta_thread_status_and_reset :: "(nat \<Rightarrow> bool) \<Rightarrow> BlockState \<Rightarrow> BlockState res" where
  "check_cta_thread_status_and_reset is_done b =
     failR (card (bs_threads_that_have_exited b) \<noteq> card (bs_threads_in_cta b)) Aborted
    (failR (\<exists>t \<in> bs_threads_in_cta b. t \<notin> bs_dangling_pointers b \<and> \<not> is_done t) Aborted
      (Inr (b\<lparr>bs_threads_in_cta := {}, bs_threads_that_have_exited := {}, bs_dangling_pointers := {}\<rparr>)))"

definition register_thread_exit :: "nat \<Rightarrow> BlockState \<Rightarrow> BlockState res" where
  "register_thread_exit thd b =
     assertR (thd \<notin> bs_threads_that_have_exited b)
       (Inr (b\<lparr>bs_threads_that_have_exited := insert thd (bs_threads_that_have_exited b)\<rparr>))"

definition register_deleted_thread :: "nat \<Rightarrow> BlockState \<Rightarrow> BlockState" where
  "register_deleted_thread thd b = b\<lparr>bs_dangling_pointers := insert thd (bs_dangling_pointers b)\<rparr>"

definition inc_bar_threads :: "BlockState \<Rightarrow> BlockState" where
  "inc_bar_threads b = b\<lparr>bs_bar_threads := bs_bar_threads b + 1\<rparr>"

definition reset_bar_threads :: "BlockState \<Rightarrow> BlockState" where
  "reset_bar_threads b = b\<lparr>bs_bar_threads := 0\<rparr>"

section \<open>Reductions\<close>

definition get_reduction_value :: "u32 \<Rightarrow> BlockState \<Rightarrow> u32 res" where
  "get_reduction_value barid b = vec_get (bs_bar_slot b) (unat barid)"

definition reduce :: "(u32 \<Rightarrow> u32 \<Rightarrow> u32) \<Rightarrow> u32 \<Rightarrow> bool \<Rightarrow> BlockState \<Rightarrow> BlockState res" where
  "reduce f barid value b =
     bindR (vec_get (bs_bar_slot b) (unat barid)) (\<lambda>v.
     bindR (vec_set (bs_bar_slot b) (unat barid) (f v (of_bool value))) (\<lambda>s.
       Inr (b\<lparr>bs_bar_slot := s\<rparr>)))"

definition and_reduction :: "u32 \<Rightarrow> bool \<Rightarrow> BlockState \<Rightarrow> BlockState res" where
  "and_reduction = reduce (AND)"

definition or_reduction :: "u32 \<Rightarrow> bool \<Rightarrow> BlockState \<Rightarrow> BlockState res" where
  "or_reduction = reduce (OR)"

definition popc_reduction :: "u32 \<Rightarrow> bool \<Rightarrow> BlockState \<Rightarrow> BlockState res" where
  "popc_reduction = reduce (+)"

section \<open>Barriers\<close>

definition removeWarpAtBar :: "BlockState \<Rightarrow> BlockState res" where
  "removeWarpAtBar b = forR (unat (bs_block_warp_count b)) (\<lambda>i b.
     bindR (vec_set (bs_warp_at_bar b) i False) (\<lambda>w. Inr (b\<lparr>bs_warp_at_bar := w\<rparr>))) b"

definition arriveBar :: "u32 \<Rightarrow> u32 \<Rightarrow> u32 \<Rightarrow> BlockState \<Rightarrow> (bool \<times> BlockState) res" where
  "arriveBar slot warp_id warp_count b =
     failR (\<not> slot > bs_bar_count b) Runtime_Error
    (bindR (vec_get (bs_bar_status b) (unat slot)) (\<lambda>st.
     if st = SyncArrived then Inr (False, b)
     else
       bindR (vec_set (bs_bar_expected b) (unat slot) warp_count) (\<lambda>ex.
       bindR (vec_get (bs_bar_counter b) (unat slot)) (\<lambda>c.
       bindR (vec_set (bs_bar_counter b) (unat slot) (c + 1)) (\<lambda>cs.
       let b = b\<lparr>bs_bar_expected := ex, bs_bar_counter := cs\<rparr>;
           expected = (if warp_count = 0 then bs_block_warp_count b else warp_count)
       in if c + 1 = expected then
            bindR (vec_set (bs_bar_status b) (unat slot) SyncArrived) (\<lambda>st.
            bindR (removeWarpAtBar (b\<lparr>bs_bar_status := st\<rparr>)) (\<lambda>b. Inr (True, b)))
          else
            bindR (vec_set (bs_bar_status b) (unat slot) SyncWorking) (\<lambda>st.
            bindR (vec_set (bs_warp_at_bar b) (unat warp_id) True) (\<lambda>w.
              Inr (True, b\<lparr>bs_bar_status := st, bs_warp_at_bar := w\<rparr>))))))))"

definition removeWarp :: "u32 \<Rightarrow> BlockState \<Rightarrow> BlockState res" where
  "removeWarp warp_id b =
     (let b = b\<lparr>bs_block_warp_count := bs_block_warp_count b - 1\<rparr> in
      forR (unat (bs_bar_count b)) (\<lambda>i b.
        bindR (vec_get (bs_bar_status b) i) (\<lambda>st.
        if st = SyncWorking then
          bindR (arriveBar (of_nat i) warp_id 0 b) (\<lambda>(_, b). Inr b)
        else Inr b)) b)"

text \<open>A blocking wait, and a wait on a slot that has arrived, fall off the end.\<close>

definition waitBar :: "u32 \<Rightarrow> bool \<Rightarrow> BlockState \<Rightarrow> bool res" where
  "waitBar slot blocking b =
     (if \<not> blocking then
        bindR (vec_get (bs_bar_status b) (unat slot)) (\<lambda>st.
        if st = SyncWorking then Inr False
        else if st = SyncInitial then Inr True
        else Inl No_Return)
      else Inl No_Return)"

section \<open>What the barrier code does\<close>

text \<open>The vectors of a block have one element per barrier slot.\<close>

definition wf_block :: "BlockState \<Rightarrow> bool" where
  "wf_block b \<longleftrightarrow> length (bs_bar_slot b) = unat (bs_bar_count b) \<and>
     length (bs_bar_status b) = unat (bs_bar_count b) \<and>
     length (bs_bar_expected b) = unat (bs_bar_count b) \<and>
     length (bs_bar_counter b) = unat (bs_bar_count b)"

lemma initBar_fresh:
  assumes "unat n \<le> length (bs_bar_slot b)" "unat n \<le> length (bs_bar_status b)"
    "unat n \<le> length (bs_bar_expected b)" "unat n \<le> length (bs_bar_counter b)"
    and "\<forall>i < unat n. bs_bar_slot b ! i = 0 \<and> bs_bar_status b ! i = SyncInitial \<and>
      bs_bar_expected b ! i = 0 \<and> bs_bar_counter b ! i = 0"
  shows "initBar n b = Inr b"
proof -
  have upd: "i < length xs \<Longrightarrow> xs ! i = x \<Longrightarrow> vec_set xs i x = Inr xs" for i x and xs :: "'a list"
    by (auto simp: vec_set_def)
  show ?thesis
    unfolding initBar_def by (rule forR_skip) (use assms in \<open>auto simp: upd\<close>)
qed

lemma new_BlockState_wf: "\<exists>b. new_BlockState n raw = Inr b \<and> wf_block b \<and> bs_bar_count b = n \<and>
    set (bs_bar_status b) \<subseteq> {SyncInitial}"
  by (auto simp: new_BlockState_def Let_def initBar_fresh wf_block_def)

text \<open>
  C31. No warp can arrive at a barrier: the range check is inverted, so \<open>arriveBar\<close> throws for
  every slot that exists, and it leaves the vectors' range for every other slot.
\<close>

theorem arriveBar_never_succeeds:
  assumes "wf_block b"
  shows "arriveBar slot warp_id warp_count b =
    Inl (if slot \<le> bs_bar_count b then Runtime_Error else Out_Of_Range)"
proof (cases "slot \<le> bs_bar_count b")
  case True
  then show ?thesis by (simp add: arriveBar_def not_less)
next
  case False
  then have "unat (bs_bar_count b) < unat slot" by (simp add: word_less_nat_alt not_le)
  then show ?thesis using False assms by (simp add: arriveBar_def wf_block_def vec_get_def not_le)
qed

definition sample_block :: BlockState where
  "sample_block = \<lparr>bs_bar_threads = 0, bs_uid = 0, bs_cta_id = mk_dim3 0 0 0, bs_threads_in_cta = {},
     bs_threads_that_have_exited = {}, bs_dangling_pointers = {}, bs_bar_slot = [0, 0],
     bs_bar_status = [SyncInitial, SyncInitial], bs_bar_expected = [0, 0], bs_bar_counter = [0, 0],
     bs_bar_count = 2, bs_block_warp_count = 2, bs_warp_at_bar = [False, False]\<rparr>"

theorem arriveBar_never_succeeds_witness:
  "arriveBar 1 0 0 sample_block = Inl (if 1 \<le> bs_bar_count sample_block then Runtime_Error else Out_Of_Range)"
  by (rule arriveBar_never_succeeds) (simp add: sample_block_def wf_block_def)

text \<open>Hence no slot is ever at work, and a warp that ends is only counted.\<close>

lemma removeWarp_counts:
  assumes "wf_block b" "set (bs_bar_status b) \<subseteq> {SyncInitial, SyncArrived}"
  shows "removeWarp warp_id b = Inr (b\<lparr>bs_block_warp_count := bs_block_warp_count b - 1\<rparr>)"
  unfolding removeWarp_def Let_def
proof (rule forR_skip, goal_cases)
  case (1 i)
  then have "bs_bar_status b ! i \<in> set (bs_bar_status b)"
    using assms(1) by (intro nth_mem) (simp add: wf_block_def)
  with assms(2) have "bs_bar_status b ! i \<noteq> SyncWorking" by auto
  then show ?case using 1 assms(1) by (auto simp: wf_block_def vec_get_def)
qed

lemma removeWarpAtBar_ok:
  "unat (bs_block_warp_count b) \<le> length (bs_warp_at_bar b) \<Longrightarrow>
   \<exists>b'. removeWarpAtBar b = Inr b' \<and> length (bs_warp_at_bar b') = length (bs_warp_at_bar b)"
  unfolding removeWarpAtBar_def by (rule forR_total) (auto simp: vec_set_def)

section \<open>Threads of a block\<close>

text \<open>
  The threads of a block can be forgotten exactly when as many threads have exited as were
  added and every thread that has not been deleted is done; then nothing of them remains.
\<close>

lemma check_cta_reset_iff:
  "check_cta_thread_status_and_reset is_done b = Inr b' \<longleftrightarrow>
     card (bs_threads_that_have_exited b) = card (bs_threads_in_cta b) \<and>
     bs_threads_in_cta b - bs_dangling_pointers b \<subseteq> Collect is_done \<and>
     b' = b\<lparr>bs_threads_in_cta := {}, bs_threads_that_have_exited := {}, bs_dangling_pointers := {}\<rparr>"
  by (auto simp: check_cta_thread_status_and_reset_def failR_def)

text \<open>Every thread exits once: after the exits of all of its threads the block can be reset.\<close>

lemma exits_then_reset:
  assumes "distinct ts" "set ts = bs_threads_in_cta b" "bs_threads_that_have_exited b = {}"
    "\<forall>t \<in> set ts. is_done t"
  shows "\<exists>b1 b2. foldR register_thread_exit ts b = Inr b1 \<and>
    check_cta_thread_status_and_reset is_done b1 = Inr b2 \<and> num_threads b2 = 0"
proof -
  have "foldR register_thread_exit us b' =
      Inr (b'\<lparr>bs_threads_that_have_exited := bs_threads_that_have_exited b' \<union> set us\<rparr>)"
    if "distinct us" "set us \<inter> bs_threads_that_have_exited b' = {}" for us b'
    using that by (induction us arbitrary: b') (auto simp: register_thread_exit_def)
  from this[OF assms(1)] assms show ?thesis
    by (auto simp: check_cta_thread_status_and_reset_def failR_def num_threads_def)
qed

section \<open>Blocks that share a compute unit\<close>

text \<open>
  The states that a compute unit reaches while blocks are created (\<open>GetBlockState\<close>) and
  destroyed, in any interleaving. \<open>alive\<close> and \<open>dead\<close> list the barrier counts of the blocks.
\<close>

inductive cu_reach :: "CUResource \<Rightarrow> u32 list \<Rightarrow> u32 list \<Rightarrow> bool" where
  start: "cu_reach new_CUResource [] []"
| create: "cu_reach r alive dead \<Longrightarrow> allocRunningBlock n r = Some r' \<Longrightarrow> cu_reach r' (n # alive) dead"
| finish: "cu_reach r alive dead \<Longrightarrow> n \<in> set alive \<Longrightarrow> bs_bar_count b = n \<Longrightarrow>
    cu_reach (destroy b r) (remove1 n alive) (n # dead)"

text \<open>
  In every reachable state of a compute unit the running blocks are counted exactly and
  never exceed 100, so the counter never wraps. The free barrier slots only grow: creating a
  block checks them and reserves none, destroying it frees as many as it asked for.
\<close>

lemma cu_reach_counts:
  assumes "cu_reach r alive dead"
  shows "cu_running_block_count r = of_nat (length alive) \<and> length alive \<le> 100 \<and>
    cu_free_bar_slots r = 800 + sum_list dead"
proof -
  have "cu_running_block_count r = of_nat (length alive) \<and> length alive \<le> 100 \<and>
    cu_free_bar_slots r = 800 + sum_list dead \<and> cu_max_cta_per_cu r = 100"
    using assms
  proof induction
    case (create r alive dead n r')
    have "unat (of_nat (length alive) :: u32) = length alive"
      using create.IH by (simp add: unat_of_nat)
    then have "length alive < 100"
      using create by (auto simp: allocRunningBlock_def alloc_ready_def word_less_nat_alt split: if_splits)
    then show ?case using create by (auto simp: allocRunningBlock_def split: if_splits)
  next
    case (finish r alive dead n b)
    then have "length alive > 0" by auto
    then have "(of_nat (length (remove1 n alive)) :: u32) = of_nat (length alive) - 1"
      using finish.hyps(2) of_nat_diff[of 1 "length alive", where 'a = u32]
      by (simp add: length_remove1 Suc_le_eq)
    then show ?case using finish
      by (auto simp: destroy_def freeRunningBlock_def freeBarSlot_def length_remove1)
  qed (simp add: new_CUResource_def)
  then show ?thesis by blast
qed

lemma cu_reach_counts_witness:
  "cu_running_block_count (destroy sample_block (new_CUResource\<lparr>cu_running_block_count := 1\<rparr>)) = of_nat (length []) \<and>
   length ([] :: u32 list) \<le> 100 \<and>
   cu_free_bar_slots (destroy sample_block (new_CUResource\<lparr>cu_running_block_count := 1\<rparr>)) = 800 + sum_list [2]"
proof -
  have "allocRunningBlock 2 new_CUResource = Some (new_CUResource\<lparr>cu_running_block_count := 1\<rparr>)"
    by code_simp
  from cu_reach.create[OF cu_reach.start this]
  have "cu_reach (destroy sample_block (new_CUResource\<lparr>cu_running_block_count := 1\<rparr>)) (remove1 2 [2]) [2]"
    by (rule cu_reach.finish) (simp_all add: sample_block_def)
  from cu_reach_counts[OF this] show ?thesis by simp
qed

end
