(* ===== verification/Thread_Pool.thy ===== *)
theory Thread_Pool
  imports Sim_Prelude "HOL-Library.Multiset"
begin

text \<open>
  The pool of host threads that execute the blocks of a kernel (common/ThreadPool.h), as a
  step relation over its queue and its workers, in any interleaving. A task may add tasks
  itself, as \<open>BlockTask\<close> (model/Executor.cpp) does for a block that is not finished. The lemmas show
  that when the destructor has joined the workers every task has been executed exactly once.
\<close>

text \<open>Where a worker is: at the loop condition, at the wait, executing a task, or out of the loop.\<close>

datatype 't worker = Checking | Waiting | Running 't | Exited

text \<open>\<open>tp_added\<close> and \<open>tp_executed\<close> record the tasks that were added and executed.\<close>

record 't ThreadPool =
  tp_pending_tasks :: "'t list"
  tp_stop :: bool
  tp_workers :: "'t worker list"
  tp_added :: "'t multiset"
  tp_executed :: "'t multiset"

definition max_workers :: "u32 \<Rightarrow> u32 \<Rightarrow> u32" where
  "max_workers cpu_count block_count = min (cpu_count * 2) block_count"

definition new_ThreadPool :: "u32 \<Rightarrow> u32 \<Rightarrow> 't ThreadPool" where
  "new_ThreadPool cpu_count block_count = \<lparr>tp_pending_tasks = [], tp_stop = False,
     tp_workers = replicate (unat (max_workers cpu_count block_count)) Checking,
     tp_added = {#}, tp_executed = {#}\<rparr>"

definition addTask :: "'t \<Rightarrow> 't ThreadPool \<Rightarrow> 't ThreadPool" where
  "addTask t p = p\<lparr>tp_pending_tasks := tp_pending_tasks p @ [t], tp_added := add_mset t (tp_added p)\<rparr>"

definition stop_pool :: "'t ThreadPool \<Rightarrow> 't ThreadPool" where
  "stop_pool p = p\<lparr>tp_stop := True\<rparr>"

text \<open>
  The next step of worker \<open>i\<close>; \<open>None\<close> when it blocks in the wait or has left. A worker whose wait
  ends without a task (the pool is being stopped) goes back to the condition.
\<close>

definition worker_step :: "nat \<Rightarrow> 't ThreadPool \<Rightarrow> 't ThreadPool option" where
  "worker_step i p =
     (case tp_workers p ! i of
        Checking \<Rightarrow>
          Some (p\<lparr>tp_workers := (tp_workers p)[i :=
            (if \<not> tp_stop p \<or> tp_pending_tasks p \<noteq> [] then Waiting else Exited)]\<rparr>)
      | Waiting \<Rightarrow>
          (case tp_pending_tasks p of
             t # ts \<Rightarrow> Some (p\<lparr>tp_pending_tasks := ts, tp_workers := (tp_workers p)[i := Running t]\<rparr>)
           | [] \<Rightarrow> if tp_stop p then Some (p\<lparr>tp_workers := (tp_workers p)[i := Checking]\<rparr>) else None)
      | Running t \<Rightarrow>
          Some (p\<lparr>tp_workers := (tp_workers p)[i := Checking], tp_executed := add_mset t (tp_executed p)\<rparr>)
      | Exited \<Rightarrow> None)"

text \<open>The owner adds tasks until it destroys the pool; a task adds tasks while it is executed.\<close>

inductive pool_reach :: "u32 \<Rightarrow> u32 \<Rightarrow> 't ThreadPool \<Rightarrow> bool" for cpus blocks where
  start: "pool_reach cpus blocks (new_ThreadPool cpus blocks)"
| owner_add: "pool_reach cpus blocks p \<Longrightarrow> \<not> tp_stop p \<Longrightarrow> pool_reach cpus blocks (addTask t p)"
| task_add: "pool_reach cpus blocks p \<Longrightarrow> i < length (tp_workers p) \<Longrightarrow> tp_workers p ! i = Running u \<Longrightarrow>
    pool_reach cpus blocks (addTask t p)"
| stop: "pool_reach cpus blocks p \<Longrightarrow> pool_reach cpus blocks (stop_pool p)"
| work: "pool_reach cpus blocks p \<Longrightarrow> i < length (tp_workers p) \<Longrightarrow> worker_step i p = Some p' \<Longrightarrow>
    pool_reach cpus blocks p'"

section \<open>No task is lost or executed twice\<close>

fun worker_task :: "'t worker \<Rightarrow> 't multiset" where
  "worker_task (Running t) = {#t#}"
| "worker_task _ = {#}"

definition running_tasks :: "'t worker list \<Rightarrow> 't multiset" where
  "running_tasks ws = (\<Sum>w \<in># mset ws. worker_task w)"

lemma running_tasks_update:
  assumes "i < length ws"
  shows "running_tasks (ws[i := w]) + worker_task (ws ! i) = running_tasks ws + worker_task w"
proof -
  have m: "mset ws = add_mset (ws ! i) (mset ws - {#ws ! i#})" using assms by simp
  have "running_tasks ws = worker_task (ws ! i) + (\<Sum>w \<in># mset ws - {#ws ! i#}. worker_task w)"
    unfolding running_tasks_def by (subst m) simp
  moreover have "running_tasks (ws[i := w]) = worker_task w + (\<Sum>w \<in># mset ws - {#ws ! i#}. worker_task w)"
    using assms by (simp add: running_tasks_def mset_update)
  ultimately show ?thesis by (simp add: union_ac)
qed

lemma running_tasks_none: "set ws \<subseteq> {w. worker_task w = {#}} \<Longrightarrow> running_tasks ws = {#}"
  by (induction ws) (auto simp: running_tasks_def)

definition pool_inv :: "'t ThreadPool \<Rightarrow> bool" where
  "pool_inv p \<longleftrightarrow>
     tp_added p = mset (tp_pending_tasks p) + running_tasks (tp_workers p) + tp_executed p \<and>
     (Exited \<in> set (tp_workers p) \<longrightarrow> tp_stop p) \<and>
     (tp_workers p \<noteq> [] \<and> set (tp_workers p) \<subseteq> {Exited} \<longrightarrow> tp_pending_tasks p = [])"

lemma not_all_exited: "i < length ws \<Longrightarrow> w \<noteq> Exited \<Longrightarrow> \<not> set (ws[i := w]) \<subseteq> {Exited}"
  using set_update_memI[of i ws w] by auto

lemma worker_step_inv:
  assumes "pool_inv p" "i < length (tp_workers p)" "worker_step i p = Some p'"
  shows "pool_inv p'"
proof -
  note u = running_tasks_update[OF assms(2)]
  note ne = not_all_exited[OF assms(2)]
  have ex: "Exited \<in> set ((tp_workers p)[i := w]) \<Longrightarrow> w = Exited \<or> Exited \<in> set (tp_workers p)" for w
    using set_update_subset_insert[of "tp_workers p" i w] by auto
  show ?thesis
  proof (cases "tp_workers p ! i")
    case Checking
    show ?thesis
    proof (cases "\<not> tp_stop p \<or> tp_pending_tasks p \<noteq> []")
      case True
      then show ?thesis using assms Checking u[of Waiting] ne[of Waiting] ex[of Waiting]
        by (auto simp: worker_step_def pool_inv_def)
    next
      case False
      then show ?thesis using assms Checking u[of Exited] by (auto simp: worker_step_def pool_inv_def)
    qed
  next
    case Waiting
    show ?thesis
    proof (cases "tp_pending_tasks p")
      case Nil
      then show ?thesis using assms Waiting u[of Checking] ne[of Checking] ex[of Checking]
        by (auto simp: worker_step_def pool_inv_def split: if_splits)
    next
      case (Cons t ts)
      then show ?thesis using assms Waiting u[of "Running t"] ne[of "Running t"] ex[of "Running t"]
        by (auto simp: worker_step_def pool_inv_def)
    qed
  next
    case (Running t)
    then show ?thesis using assms u[of Checking] ne[of Checking] ex[of Checking]
      by (auto simp: worker_step_def pool_inv_def)
  next
    case Exited
    then show ?thesis using assms(3) by (simp add: worker_step_def)
  qed
qed

lemma pool_reach_inv: "pool_reach cpus blocks p \<Longrightarrow> pool_inv p"
proof (induction rule: pool_reach.induct)
  case start
  then show ?case
    by (auto simp: pool_inv_def new_ThreadPool_def intro!: running_tasks_none)
next
  case (owner_add p t)
  then show ?case by (cases "tp_workers p") (auto simp: pool_inv_def addTask_def)
next
  case (task_add p i u t)
  then have "Running u \<in> set (tp_workers p)" by (metis nth_mem)
  then show ?case using task_add.IH by (auto simp: pool_inv_def addTask_def)
next
  case (stop p)
  then show ?case by (simp add: pool_inv_def stop_pool_def)
next
  case (work p i p')
  then show ?case using worker_step_inv by blast
qed

lemma pool_reach_workers:
  "pool_reach cpus blocks p \<Longrightarrow> length (tp_workers p) = unat (max_workers cpus blocks)"
  by (induction rule: pool_reach.induct)
    (auto simp: new_ThreadPool_def addTask_def stop_pool_def worker_step_def
      split: worker.splits list.splits if_splits)

text \<open>
  C6. The destructor returns only when the work is done: if the pool was given a worker at all
  and every worker has left its loop, the queue is empty and every task that was ever added,
  by the owner or by a task, has been executed exactly once.
\<close>

theorem pool_joined_all_executed:
  assumes "pool_reach cpus blocks p" "0 < max_workers cpus blocks"
    and "set (tp_workers p) \<subseteq> {Exited}"
  shows "tp_stop p \<and> tp_pending_tasks p = [] \<and> tp_executed p = tp_added p"
proof -
  note inv = pool_reach_inv[OF assms(1)]
  have "tp_workers p \<noteq> []"
    using pool_reach_workers[OF assms(1)] assms(2) by (auto simp: word_less_nat_alt)
  moreover from this have "Exited \<in> set (tp_workers p)" using assms(3) by (cases "tp_workers p") auto
  moreover have "running_tasks (tp_workers p) = {#}"
    by (rule running_tasks_none) (use assms(3) in auto)
  ultimately show ?thesis using inv assms(3) by (simp add: pool_inv_def)
qed

text \<open>A pool of one worker that executes one task and is stopped.\<close>

theorem pool_joined_all_executed_witness:
  "\<exists>p :: nat ThreadPool. tp_added p = {#7#} \<and> tp_stop p \<and> tp_pending_tasks p = [] \<and> tp_executed p = tp_added p"
proof -
  let ?p = "\<lambda>pend stp w ex. \<lparr>tp_pending_tasks = pend, tp_stop = stp, tp_workers = [w],
    tp_added = {#7 :: nat#}, tp_executed = ex\<rparr>"
  have n: "new_ThreadPool 1 1 = \<lparr>tp_pending_tasks = [], tp_stop = False, tp_workers = [Checking],
    tp_added = {#}, tp_executed = {#} :: nat multiset\<rparr>" by (simp add: new_ThreadPool_def max_workers_def)
  have "pool_reach 1 1 (addTask (7 :: nat) (new_ThreadPool 1 1))"
    by (rule pool_reach.owner_add[OF pool_reach.start]) (simp add: n)
  then have 1: "pool_reach 1 1 (?p [7] False Checking {#})" by (simp add: n addTask_def)
  have 2: "pool_reach 1 1 (?p [7] False Waiting {#})"
    by (rule pool_reach.work[OF 1, of 0]) (simp_all add: worker_step_def)
  have 3: "pool_reach 1 1 (?p [] False (Running 7) {#})"
    by (rule pool_reach.work[OF 2, of 0]) (simp_all add: worker_step_def)
  have 4: "pool_reach 1 1 (?p [] False Checking {#7#})"
    by (rule pool_reach.work[OF 3, of 0]) (simp_all add: worker_step_def)
  from pool_reach.stop[OF 4] have 5: "pool_reach 1 1 (?p [] True Checking {#7#})" by (simp add: stop_pool_def)
  have 6: "pool_reach 1 1 (?p [] True Exited {#7#})"
    by (rule pool_reach.work[OF 5, of 0]) (simp_all add: worker_step_def)
  have "0 < max_workers 1 1" by (simp add: max_workers_def)
  from pool_joined_all_executed[OF 6 this] show ?thesis by (intro exI[of _ "?p [] True Exited {#7#}"]) simp
qed

section \<open>The destructor returns\<close>

text \<open>
  After \<open>stop\<close> is set only the workers move, and a task that is executed may add tasks:
  \<open>pool_run k n p p'\<close> is a run of \<open>k\<close> steps of workers and \<open>n\<close> additions, in any interleaving.
\<close>

inductive pool_run :: "nat \<Rightarrow> nat \<Rightarrow> 't ThreadPool \<Rightarrow> 't ThreadPool \<Rightarrow> bool" where
  none: "pool_run 0 0 p p"
| step: "pool_run k n p p' \<Longrightarrow> i < length (tp_workers p') \<Longrightarrow> worker_step i p' = Some p'' \<Longrightarrow> pool_run (Suc k) n p p''"
| add: "pool_run k n p p' \<Longrightarrow> i < length (tp_workers p') \<Longrightarrow> tp_workers p' ! i = Running u \<Longrightarrow>
    pool_run k (Suc n) p (addTask t p')"

text \<open>
  What a worker still has to do once the pool is stopped. A worker that found a task at the loop
  condition may find none at the wait, so the weight of a place depends on the queue.
\<close>

fun worker_rank :: "bool \<Rightarrow> 't worker \<Rightarrow> nat" where
  "worker_rank queued Checking = (if queued then 3 else 1)"
| "worker_rank queued Waiting = 2"
| "worker_rank queued (Running t) = (if queued then 4 else 2)"
| "worker_rank queued Exited = 0"

definition pool_rank :: "'t ThreadPool \<Rightarrow> nat" where
  "pool_rank p = 3 * length (tp_pending_tasks p) +
     sum_list (map (worker_rank (tp_pending_tasks p \<noteq> [])) (tp_workers p))"

lemma worker_rank_queued: "worker_rank False w \<le> worker_rank True w" "worker_rank True w \<le> worker_rank q w + 2"
  by (cases w; cases q; simp)+

lemma ranks_queued:
  "sum_list (map (worker_rank q) ws) \<le> sum_list (map (worker_rank True) ws)"
  "sum_list (map (worker_rank True) ws) \<le> sum_list (map (worker_rank q) ws) + 2 * length ws"
proof -
  show "sum_list (map (worker_rank q) ws) \<le> sum_list (map (worker_rank True) ws)"
    by (cases q) (auto intro!: sum_list_mono worker_rank_queued)
  show "sum_list (map (worker_rank True) ws) \<le> sum_list (map (worker_rank q) ws) + 2 * length ws"
  proof (induction ws)
    case (Cons w ws)
    then show ?case using worker_rank_queued(2)[of w q] by simp
  qed simp
qed

lemma ranks_update:
  assumes "i < length ws" "worker_rank q w < worker_rank q (ws ! i) + n"
  shows "sum_list (map (worker_rank q) (ws[i := w])) < sum_list (map (worker_rank q) ws) + n"
  using assms sum_list_update[of i "map (worker_rank q) ws" "worker_rank q w"]
    member_le_sum_list[of "worker_rank q (ws ! i)" "map (worker_rank q) ws"]
  by (simp add: map_update nth_mem)

lemma worker_step_rank:
  assumes "tp_stop p" "i < length (tp_workers p)" "worker_step i p = Some p'"
  shows "pool_rank p' < pool_rank p"
proof (cases "tp_workers p ! i")
  case Checking
  then show ?thesis using assms ranks_update[OF assms(2), of _ _ 0]
    by (auto simp: worker_step_def pool_rank_def)
next
  case Waiting
  show ?thesis
  proof (cases "tp_pending_tasks p")
    case Nil
    then show ?thesis using assms Waiting ranks_update[OF assms(2), of _ _ 0]
      by (auto simp: worker_step_def pool_rank_def)
  next
    case (Cons t ts)
    then have p': "p' = p\<lparr>tp_pending_tasks := ts, tp_workers := (tp_workers p)[i := Running t]\<rparr>"
      using assms Waiting by (simp add: worker_step_def)
    have "sum_list (map (worker_rank (ts \<noteq> [])) ((tp_workers p)[i := Running t]))
        \<le> sum_list (map (worker_rank True) ((tp_workers p)[i := Running t]))" by (rule ranks_queued)
    also have "\<dots> < sum_list (map (worker_rank True) (tp_workers p)) + 3"
      by (rule ranks_update[OF assms(2)]) (simp add: Waiting)
    finally show ?thesis using Cons by (simp add: p' pool_rank_def)
  qed
next
  case (Running t)
  then show ?thesis using assms ranks_update[OF assms(2), of _ _ 0]
    by (auto simp: worker_step_def pool_rank_def)
next
  case Exited
  then show ?thesis using assms(3) by (simp add: worker_step_def)
qed

lemma worker_step_same:
  "worker_step i p = Some p' \<Longrightarrow> tp_stop p' = tp_stop p \<and> length (tp_workers p') = length (tp_workers p)"
  by (auto simp: worker_step_def split: worker.splits list.splits if_splits)

lemma addTask_rank: "pool_rank (addTask t p) \<le> pool_rank p + (3 + 2 * length (tp_workers p))"
  using ranks_queued(2)[of "tp_workers p" "tp_pending_tasks p \<noteq> []"] by (simp add: pool_rank_def addTask_def)

lemma pool_run_rank:
  "pool_run k n p p' \<Longrightarrow> tp_stop p \<Longrightarrow>
     tp_stop p' \<and> length (tp_workers p') = length (tp_workers p) \<and>
     k + pool_rank p' \<le> pool_rank p + n * (3 + 2 * length (tp_workers p))"
proof (induction rule: pool_run.induct)
  case (step k n p p' i p'')
  then show ?case using worker_step_rank[of p' i p''] worker_step_same[of i p' p''] by simp
next
  case (add k n p p' i u t)
  then show ?case using addTask_rank[of t p'] by (simp add: addTask_def)
qed simp

lemma pool_run_reach: "pool_run k n p p' \<Longrightarrow> pool_reach cpus blocks p \<Longrightarrow> pool_reach cpus blocks p'"
  by (induction rule: pool_run.induct) (auto intro: pool_reach.intros)

text \<open>Once the pool is stopped nobody waits: the workers that cannot move have left their loop.\<close>

lemma stopped_progress:
  assumes "tp_stop p" "i < length (tp_workers p)"
  shows "worker_step i p = None \<longleftrightarrow> tp_workers p ! i = Exited"
  using assms by (auto simp: worker_step_def split: worker.splits list.splits)

lemma joined:
  assumes "pool_reach cpus blocks p" "0 < max_workers cpus blocks" "\<forall>i < length (tp_workers p). tp_workers p ! i = Exited"
  shows "tp_pending_tasks p = [] \<and> tp_executed p = tp_added p"
proof -
  have "set (tp_workers p) \<subseteq> {Exited}" using assms(3) by (auto simp: in_set_conv_nth)
  moreover have "tp_workers p \<noteq> []"
    using pool_reach_workers[OF assms(1)] assms(2) by (auto simp: word_less_nat_alt)
  moreover from calculation have "running_tasks (tp_workers p) = {#}" by (auto intro!: running_tasks_none)
  ultimately show ?thesis using pool_reach_inv[OF assms(1)] by (simp add: pool_inv_def)
qed

text \<open>
  C12. The destructor returns: once it has set \<open>stop\<close>, every schedule of the workers has a bounded
  number of steps, given by the tasks in the queue, the places of the workers and the tasks that
  running tasks add; no schedule gets stuck before the end, since until all workers have left one of them
  can move; and when they have left, every task has been executed.
\<close>

theorem stopped_pool_joins:
  assumes "pool_reach cpus blocks p" "0 < max_workers cpus blocks" "tp_stop p" "pool_run k n p p'"
  shows "k \<le> pool_rank p + n * (3 + 2 * length (tp_workers p)) \<and>
    ((\<exists>i < length (tp_workers p'). worker_step i p' \<noteq> None) \<or>
     set (tp_workers p') \<subseteq> {Exited} \<and> tp_pending_tasks p' = [] \<and> tp_executed p' = tp_added p')"
proof -
  note r = pool_run_rank[OF assms(4,3)]
  note reach = pool_run_reach[OF assms(4,1)]
  have "set (tp_workers p') \<subseteq> {Exited} \<and> tp_pending_tasks p' = [] \<and> tp_executed p' = tp_added p'"
    if "\<not> (\<exists>i < length (tp_workers p'). worker_step i p' \<noteq> None)"
  proof -
    have "\<forall>i < length (tp_workers p'). tp_workers p' ! i = Exited" using that stopped_progress r by blast
    then show ?thesis using joined[OF reach assms(2)] by (auto simp: in_set_conv_nth)
  qed
  then show ?thesis using r by auto
qed

text \<open>A pool of one worker, stopped with one task in the queue: it leaves after at most six steps.\<close>

theorem stopped_pool_joins_witness:
  "\<exists>p. pool_reach 1 1 p \<and> tp_stop p \<and> tp_pending_tasks p = [7 :: nat] \<and> pool_rank p = 6 \<and>
     (\<exists>i < length (tp_workers p). worker_step i p \<noteq> None)"
proof -
  let ?p = "stop_pool (addTask (7 :: nat) (new_ThreadPool 1 1))"
  have n: "tp_stop (new_ThreadPool 1 1) = False" by (simp add: new_ThreadPool_def)
  have reach: "pool_reach 1 1 ?p"
    by (rule pool_reach.stop, rule pool_reach.owner_add[OF pool_reach.start]) (simp add: n)
  have p: "?p = \<lparr>tp_pending_tasks = [7], tp_stop = True, tp_workers = [Checking], tp_added = {#7#}, tp_executed = {#}\<rparr>"
    by (simp add: new_ThreadPool_def max_workers_def stop_pool_def addTask_def)
  have "0 < max_workers 1 1" by (simp add: max_workers_def)
  from stopped_pool_joins[OF reach this _ pool_run.none]
  have "\<exists>i < length (tp_workers ?p). worker_step i ?p \<noteq> None" by (simp add: p)
  then show ?thesis using reach by (intro exI[of _ ?p]) (simp add: p pool_rank_def)
qed

end
