(* ===== verification/Mem_Common.thy ===== *)
theory Mem_Common
  imports Sim_Prelude
begin

text \<open>
  Memory spaces and the generic address map (isa/MemCommon.cpp, isa/inc/MemCommon.h), and the
  record of the constants that the sources take from the external header coasm_define.h. The
  lemmas show that the map from shared and local addresses to generic ones is invertible.
\<close>

section \<open>Constants of the external header\<close>

record coasm =
  SREG_M0 :: u32
  SREG_TCC :: u32
  SREG_TCCZ :: u32
  SREG_VCC :: u32
  SREG_VCCZ :: u32
  SREG_EXEC :: u32
  SREG_EXECZ :: u32
  SREG_SCC :: u32
  SREG_M0_STRIDE_BIT :: nat
  SREG_M0_STRIDE_WIDTH :: nat
  MAX_RESERVED_SREG_NUM :: u32
  COMMON_ENC_max_src0_32e_width :: nat
  COMMON_ENC_max_vsrc1_32e_width :: nat
  COMMON_ENC_max_vdst_32e_width :: nat
  COMMON_ENC_max_tcc_32e_width :: nat
  COMMON_ENC_max_vaddr_32e_width :: nat
  COMMON_ENC_max_vdata_32e_width :: nat
  COMMON_ENC_max_simm12_width :: nat
  COMMON_ENC_ext1_enc :: u32
  COMMON_ENC_dsrc0_l :: u32
  COMMON_ENC_dsrc0_d :: u32
  COMMON_ENC_dsrc0_s :: u32
  KERNEL_CTRL_BIT_PARAM_BASE :: nat
  KERNEL_CTRL_BIT_GRID_DIM_X :: nat
  KERNEL_CTRL_BIT_GRID_DIM_Y :: nat
  KERNEL_CTRL_BIT_GRID_DIM_Z :: nat
  KERNEL_CTRL_BIT_BLOCK_DIM_X :: nat
  KERNEL_CTRL_BIT_BLOCK_DIM_Y :: nat
  KERNEL_CTRL_BIT_BLOCK_DIM_Z :: nat
  KERNEL_CTRL_BIT_BLOCK_IDX_X :: nat
  KERNEL_CTRL_BIT_BLOCK_IDX_Y :: nat
  KERNEL_CTRL_BIT_THREAD_IDX_X :: nat
  KERNEL_CTRL_BIT_THREAD_IDX_Y :: nat
  THREAD_REG_BASE :: u32
  GLOBAL_HEAP_START :: addr_t
  STATIC_ALLOC_LIMIT :: addr_t
  SHARED_GENERIC_START :: addr_t
  SHARED_MEM_SIZE_MAX :: addr_t
  LOCAL_GENERIC_START :: addr_t
  LOCAL_MEM_SIZE_MAX :: addr_t
  TOTAL_LOCAL_MEM_PER_SM :: addr_t

section \<open>Memory spaces\<close>

datatype SpaceType = undefined_space | local_space | shared_space | param_kernel_space
  | param_local_space | const_space | tex_space | surf_space | global_space | generic_space

fun space_code :: "SpaceType \<Rightarrow> nat" where
  "space_code undefined_space = 0"
| "space_code local_space = 1"
| "space_code shared_space = 2"
| "space_code param_kernel_space = 3"
| "space_code param_local_space = 4"
| "space_code const_space = 5"
| "space_code tex_space = 6"
| "space_code surf_space = 7"
| "space_code global_space = 8"
| "space_code generic_space = 9"

datatype mem_space_t = Mem_Space (get_type: SpaceType) (get_bank: u32)

definition new_mem_space :: mem_space_t where
  "new_mem_space = Mem_Space undefined_space 0"

definition mem_space_of :: "SpaceType \<Rightarrow> mem_space_t" where
  "mem_space_of from_type = Mem_Space from_type 0"

definition mem_space_eq :: "mem_space_t \<Rightarrow> mem_space_t \<Rightarrow> bool" where
  "mem_space_eq s x \<longleftrightarrow> get_bank s = get_bank x \<and> get_type s = get_type x"

definition mem_space_less :: "mem_space_t \<Rightarrow> mem_space_t \<Rightarrow> bool" where
  "mem_space_less s x \<longleftrightarrow>
     (if space_code (get_type s) < space_code (get_type x) then True
      else if space_code (get_type s) > space_code (get_type x) then False
      else if get_bank s < get_bank x then True
      else False)"

definition set_type :: "SpaceType \<Rightarrow> mem_space_t \<Rightarrow> mem_space_t" where
  "set_type t s = Mem_Space t (get_bank s)"

definition set_bank :: "u32 \<Rightarrow> mem_space_t \<Rightarrow> mem_space_t" where
  "set_bank b s = Mem_Space (get_type s) b"

definition is_const :: "mem_space_t \<Rightarrow> bool" where
  "is_const s \<longleftrightarrow> get_type s = const_space \<or> get_type s = param_kernel_space"

definition is_local :: "mem_space_t \<Rightarrow> bool" where
  "is_local s \<longleftrightarrow> get_type s = local_space \<or> get_type s = param_local_space"

definition is_global :: "mem_space_t \<Rightarrow> bool" where
  "is_global s \<longleftrightarrow> get_type s = global_space"

text \<open>The comparison of the code is the strict part of a linear order, as keys of a map need.\<close>

lemma space_code_inj [simp]: "space_code a = space_code b \<longleftrightarrow> a = b"
  by (cases a; cases b) auto

instantiation mem_space_t :: linorder
begin

definition less_mem_space_t :: "mem_space_t \<Rightarrow> mem_space_t \<Rightarrow> bool" where
  "less_mem_space_t s x \<longleftrightarrow> mem_space_less s x"

definition less_eq_mem_space_t :: "mem_space_t \<Rightarrow> mem_space_t \<Rightarrow> bool" where
  "less_eq_mem_space_t s x \<longleftrightarrow> mem_space_less s x \<or> s = x"

instance
proof
  fix x y z :: mem_space_t
  show "(x < y) = (x \<le> y \<and> \<not> y \<le> x)"
    by (cases x; cases y) (auto simp: less_mem_space_t_def less_eq_mem_space_t_def mem_space_less_def
        split: if_splits)
  show "x \<le> x" by (simp add: less_eq_mem_space_t_def)
  show "x \<le> y \<Longrightarrow> y \<le> z \<Longrightarrow> x \<le> z"
    by (cases x; cases y; cases z) (auto simp: less_eq_mem_space_t_def mem_space_less_def split: if_splits)
  show "x \<le> y \<Longrightarrow> y \<le> x \<Longrightarrow> x = y"
    by (cases x; cases y) (auto simp: less_eq_mem_space_t_def mem_space_less_def split: if_splits)
  show "x \<le> y \<or> y \<le> x"
    by (cases x; cases y) (auto simp: less_eq_mem_space_t_def mem_space_less_def not_less
        order_le_less split: if_splits)
qed

end

section \<open>Generic addresses\<close>

text \<open>\<open>smid\<close> and \<open>hwtid\<close> are 32-bit: adding 1 to them wraps before the 64-bit product.\<close>

definition shared_to_generic :: "coasm \<Rightarrow> u32 \<Rightarrow> addr_t \<Rightarrow> addr_t res" where
  "shared_to_generic cfg smid addr =
     assertR (addr < SHARED_MEM_SIZE_MAX cfg)
       (Inr (SHARED_GENERIC_START cfg + ucast smid * SHARED_MEM_SIZE_MAX cfg + addr))"

definition global_to_generic :: "addr_t \<Rightarrow> addr_t" where
  "global_to_generic addr = addr"

definition generic_to_global :: "addr_t \<Rightarrow> addr_t" where
  "generic_to_global addr = addr"

definition isspace_shared :: "coasm \<Rightarrow> u32 \<Rightarrow> addr_t \<Rightarrow> bool" where
  "isspace_shared cfg smid addr =
     (let start = SHARED_GENERIC_START cfg + ucast smid * SHARED_MEM_SIZE_MAX cfg;
          end' = SHARED_GENERIC_START cfg + ucast (smid + 1) * SHARED_MEM_SIZE_MAX cfg
      in if addr \<ge> end' \<or> addr < start then False else True)"

definition isspace_global :: "coasm \<Rightarrow> addr_t \<Rightarrow> bool" where
  "isspace_global cfg addr \<longleftrightarrow> addr \<ge> GLOBAL_HEAP_START cfg \<or> addr < STATIC_ALLOC_LIMIT cfg"

definition whichspace :: "coasm \<Rightarrow> addr_t \<Rightarrow> SpaceType" where
  "whichspace cfg addr =
     (if addr \<ge> GLOBAL_HEAP_START cfg \<or> addr < STATIC_ALLOC_LIMIT cfg then global_space
      else if addr \<ge> SHARED_GENERIC_START cfg then shared_space
      else local_space)"

definition generic_to_shared :: "coasm \<Rightarrow> u32 \<Rightarrow> addr_t \<Rightarrow> addr_t res" where
  "generic_to_shared cfg smid addr =
     assertR (isspace_shared cfg smid addr)
       (Inr (addr - (SHARED_GENERIC_START cfg + ucast smid * SHARED_MEM_SIZE_MAX cfg)))"

definition local_base :: "coasm \<Rightarrow> u32 \<Rightarrow> u32 \<Rightarrow> addr_t" where
  "local_base cfg smid hwtid = LOCAL_GENERIC_START cfg + TOTAL_LOCAL_MEM_PER_SM cfg * ucast smid +
     LOCAL_MEM_SIZE_MAX cfg * ucast hwtid"

definition local_to_generic :: "coasm \<Rightarrow> u32 \<Rightarrow> u32 \<Rightarrow> addr_t \<Rightarrow> addr_t res" where
  "local_to_generic cfg smid hwtid addr =
     assertR (addr < LOCAL_MEM_SIZE_MAX cfg) (Inr (local_base cfg smid hwtid + addr))"

definition isspace_local :: "coasm \<Rightarrow> u32 \<Rightarrow> u32 \<Rightarrow> addr_t \<Rightarrow> bool" where
  "isspace_local cfg smid hwtid addr =
     (let start = local_base cfg smid hwtid;
          end' = local_base cfg smid (hwtid + 1)
      in if addr \<ge> end' \<or> addr < start then False else True)"

definition generic_to_local :: "coasm \<Rightarrow> u32 \<Rightarrow> u32 \<Rightarrow> addr_t \<Rightarrow> addr_t res" where
  "generic_to_local cfg smid hwtid addr =
     assertR (isspace_local cfg smid hwtid addr) (Inr (addr - local_base cfg smid hwtid))"

section \<open>The map is invertible\<close>

lemma unat_word_of_nat: "n < 2 ^ 64 \<Longrightarrow> unat (word_of_nat n :: u64) = n"
  by (simp add: unat_of_nat)

lemma ucast_of_nat_unat: "(ucast x :: u64) = word_of_nat (unat x)" for x :: u32
  by simp

text \<open>The windows of the multiprocessors lie one after the other, without wrapping.\<close>

definition shared_windows_fit :: "coasm \<Rightarrow> u32 \<Rightarrow> bool" where
  "shared_windows_fit cfg smid \<longleftrightarrow> unat smid + 1 < 2 ^ 32 \<and>
     unat (SHARED_GENERIC_START cfg) + (unat smid + 1) * unat (SHARED_MEM_SIZE_MAX cfg) < 2 ^ 64"

lemma unat_shared_addr:
  fixes S Z :: u64
  assumes "unat S + n * unat Z + d < 2 ^ 64"
  shows "unat (S + word_of_nat n * Z + word_of_nat d) = unat S + n * unat Z + d"
proof -
  have "S + word_of_nat n * Z + word_of_nat d = word_of_nat (unat S + n * unat Z + d)" by simp
  then show ?thesis using unat_word_of_nat[OF assms] by simp
qed

lemma isspace_shared_nat:
  assumes "shared_windows_fit cfg smid"
  shows "isspace_shared cfg smid a \<longleftrightarrow>
    unat (SHARED_GENERIC_START cfg) + unat smid * unat (SHARED_MEM_SIZE_MAX cfg) \<le> unat a \<and>
    unat a < unat (SHARED_GENERIC_START cfg) + (unat smid + 1) * unat (SHARED_MEM_SIZE_MAX cfg)"
proof -
  let ?S = "SHARED_GENERIC_START cfg" and ?Z = "SHARED_MEM_SIZE_MAX cfg"
  have s: "unat (smid + 1) = unat smid + 1"
    using assms by (simp add: shared_windows_fit_def unat_word_ariths)
  have "unat (?S + ucast smid * ?Z) = unat ?S + unat smid * unat ?Z"
    using unat_shared_addr[of ?S "unat smid" ?Z 0] assms by (simp add: shared_windows_fit_def)
  moreover have "unat (?S + ucast (smid + 1) * ?Z) = unat ?S + (unat smid + 1) * unat ?Z"
  proof -
    have "ucast (smid + 1) = (word_of_nat (unat smid + 1) :: u64)"
      by (subst ucast_of_nat_unat) (simp only: s)
    then show ?thesis
      using unat_shared_addr[of ?S "unat smid + 1" ?Z 0] assms
      by (simp add: shared_windows_fit_def)
  qed
  ultimately show ?thesis by (auto simp: isspace_shared_def Let_def word_le_nat_alt word_less_nat_alt not_le)
qed

lemma nat_window: "a < z \<Longrightarrow> i * z \<le> j * z + a \<and> j * z + a < (i + 1) * z \<longleftrightarrow> i = (j :: nat)"
proof
  assume z: "a < z" and w: "i * z \<le> j * z + a \<and> j * z + a < (i + 1) * z"
  have "i < j + 1"
  proof (rule ccontr)
    assume "\<not> i < j + 1"
    then have "(j + 1) * z \<le> i * z" by (intro mult_le_mono1) simp
    with z w show False by simp
  qed
  moreover have "j < i + 1"
  proof (rule ccontr)
    assume "\<not> j < i + 1"
    then have "(i + 1) * z \<le> j * z" by (intro mult_le_mono1) simp
    with w show False by simp
  qed
  ultimately show "i = j" by simp
qed simp

lemma generic_window_roundtrip:
  assumes "addr < SHARED_MEM_SIZE_MAX cfg" "shared_windows_fit cfg smid" "shared_windows_fit cfg smid'"
  shows "\<exists>g. shared_to_generic cfg smid addr = Inr g \<and> (isspace_shared cfg smid' g \<longleftrightarrow> smid' = smid) \<and>
    generic_to_shared cfg smid g = Inr addr"
proof -
  let ?S = "SHARED_GENERIC_START cfg" and ?Z = "SHARED_MEM_SIZE_MAX cfg"
  let ?g = "?S + ucast smid * ?Z + addr"
  have a: "unat addr < unat ?Z" using assms(1) by (simp add: word_less_nat_alt)
  then have g: "unat ?g = unat ?S + unat smid * unat ?Z + unat addr"
    using unat_shared_addr[of ?S "unat smid" ?Z "unat addr"] assms(2)
    by (simp add: shared_windows_fit_def)
  have w: "isspace_shared cfg i ?g \<longleftrightarrow> i = smid" if "shared_windows_fit cfg i" for i
  proof -
    have "isspace_shared cfg i ?g \<longleftrightarrow> unat i * unat ?Z \<le> unat smid * unat ?Z + unat addr \<and>
        unat smid * unat ?Z + unat addr < (unat i + 1) * unat ?Z"
      unfolding isspace_shared_nat[OF that] g by auto
    also have "\<dots> \<longleftrightarrow> unat i = unat smid" by (rule nat_window[OF a])
    finally show ?thesis by (simp add: word_unat_eq_iff)
  qed
  show ?thesis
    using assms(1) w[OF assms(2)] w[OF assms(3)]
    by (simp add: shared_to_generic_def generic_to_shared_def)
qed

text \<open>
  C28. A shared address maps to a generic address of the window of its multiprocessor, of no
  other multiprocessor's window, and maps back to itself.
\<close>

theorem shared_generic_roundtrip:
  assumes "addr < SHARED_MEM_SIZE_MAX cfg" "shared_windows_fit cfg smid" "shared_windows_fit cfg smid'"
  shows "\<exists>g. shared_to_generic cfg smid addr = Inr g \<and> (isspace_shared cfg smid' g \<longleftrightarrow> smid' = smid) \<and>
    generic_to_shared cfg smid g = Inr addr"
  using assms by (rule generic_window_roundtrip)

text \<open>A configuration for the witnesses (the header's own values are not known here).\<close>

definition sample_cfg :: coasm where
  "sample_cfg = \<lparr>SREG_M0 = 60, SREG_TCC = 40, SREG_TCCZ = 61, SREG_VCC = 42, SREG_VCCZ = 62,
     SREG_EXEC = 44, SREG_EXECZ = 63, SREG_SCC = 46, SREG_M0_STRIDE_BIT = 8, SREG_M0_STRIDE_WIDTH = 4,
     MAX_RESERVED_SREG_NUM = 64, COMMON_ENC_max_src0_32e_width = 6,
     COMMON_ENC_max_vsrc1_32e_width = 6, COMMON_ENC_max_vdst_32e_width = 6, COMMON_ENC_max_tcc_32e_width = 2,
     COMMON_ENC_max_vaddr_32e_width = 6, COMMON_ENC_max_vdata_32e_width = 6, COMMON_ENC_max_simm12_width = 12,
     COMMON_ENC_ext1_enc = 7, COMMON_ENC_dsrc0_l = 3,
     COMMON_ENC_dsrc0_d = 2, COMMON_ENC_dsrc0_s = 1, KERNEL_CTRL_BIT_PARAM_BASE = 0,
     KERNEL_CTRL_BIT_GRID_DIM_X = 1, KERNEL_CTRL_BIT_GRID_DIM_Y = 2, KERNEL_CTRL_BIT_GRID_DIM_Z = 3,
     KERNEL_CTRL_BIT_BLOCK_DIM_X = 4, KERNEL_CTRL_BIT_BLOCK_DIM_Y = 5, KERNEL_CTRL_BIT_BLOCK_DIM_Z = 6,
     KERNEL_CTRL_BIT_BLOCK_IDX_X = 7, KERNEL_CTRL_BIT_BLOCK_IDX_Y = 8, KERNEL_CTRL_BIT_THREAD_IDX_X = 9,
     KERNEL_CTRL_BIT_THREAD_IDX_Y = 10, THREAD_REG_BASE = 0, GLOBAL_HEAP_START = 0xC0000000,
     STATIC_ALLOC_LIMIT = 0x1000, SHARED_GENERIC_START = 0x80000000, SHARED_MEM_SIZE_MAX = 0x18000,
     LOCAL_GENERIC_START = 0x2000, LOCAL_MEM_SIZE_MAX = 0x4000, TOTAL_LOCAL_MEM_PER_SM = 0x2000000\<rparr>"

theorem shared_generic_roundtrip_witness:
  "\<exists>g. shared_to_generic sample_cfg 3 100 = Inr g \<and> (isspace_shared sample_cfg 4 g \<longleftrightarrow> 4 = (3 :: u32)) \<and>
     generic_to_shared sample_cfg 3 g = Inr 100"
  by (rule shared_generic_roundtrip) (simp_all add: sample_cfg_def shared_windows_fit_def)

definition local_windows_fit :: "coasm \<Rightarrow> u32 \<Rightarrow> u32 \<Rightarrow> bool" where
  "local_windows_fit cfg smid hwtid \<longleftrightarrow> unat hwtid + 1 < 2 ^ 32 \<and>
     unat (LOCAL_GENERIC_START cfg + TOTAL_LOCAL_MEM_PER_SM cfg * ucast smid) +
     (unat hwtid + 1) * unat (LOCAL_MEM_SIZE_MAX cfg) < 2 ^ 64"

text \<open>
  A local address of a hardware thread maps to a generic address of its own window, of no
  other thread's window on the same multiprocessor, and maps back to itself.
\<close>

lemma local_generic_roundtrip:
  assumes "addr < LOCAL_MEM_SIZE_MAX cfg" "local_windows_fit cfg smid hwtid"
    "local_windows_fit cfg smid hwtid'"
  shows "\<exists>g. local_to_generic cfg smid hwtid addr = Inr g \<and>
    (isspace_local cfg smid hwtid' g \<longleftrightarrow> hwtid' = hwtid) \<and> generic_to_local cfg smid hwtid g = Inr addr"
proof -
  let ?c = "cfg\<lparr>SHARED_GENERIC_START := LOCAL_GENERIC_START cfg + TOTAL_LOCAL_MEM_PER_SM cfg * ucast smid,
    SHARED_MEM_SIZE_MAX := LOCAL_MEM_SIZE_MAX cfg\<rparr>"
  have w: "shared_windows_fit ?c hwtid" "shared_windows_fit ?c hwtid'"
    using assms(2,3) by (simp_all add: shared_windows_fit_def local_windows_fit_def)
  have "addr < SHARED_MEM_SIZE_MAX ?c" using assms(1) by simp
  moreover have "isspace_local cfg smid h g = isspace_shared ?c h g" for h g
    by (simp add: isspace_local_def isspace_shared_def local_base_def mult.commute)
  moreover have "local_to_generic cfg smid hwtid addr = shared_to_generic ?c hwtid addr"
    by (simp add: local_to_generic_def shared_to_generic_def local_base_def mult.commute)
  moreover have "generic_to_local cfg smid hwtid g = generic_to_shared ?c hwtid g" for g
    using \<open>\<And>h g. isspace_local cfg smid h g = isspace_shared ?c h g\<close>
    by (simp add: generic_to_local_def generic_to_shared_def local_base_def mult.commute)
  ultimately show ?thesis using generic_window_roundtrip[OF _ w] by metis
qed

lemma local_generic_roundtrip_witness:
  "\<exists>g. local_to_generic sample_cfg 1 7 100 = Inr g \<and>
     (isspace_local sample_cfg 1 8 g \<longleftrightarrow> 8 = (7 :: u32)) \<and> generic_to_local sample_cfg 1 7 g = Inr 100"
  by (rule local_generic_roundtrip) (simp_all add: sample_cfg_def local_windows_fit_def)

text \<open>An address outside of a multiprocessor's window fails the assert of \<open>generic_to_shared\<close>.\<close>

lemma generic_to_shared_error:
  "\<not> isspace_shared cfg smid a \<Longrightarrow> generic_to_shared cfg smid a = Inl Assert_Failed"
  by (simp add: generic_to_shared_def)

end
