(* ===== verification/Thread_Item.thy ===== *)
theory Thread_Item
  imports Sim_Prelude Kernel_Info Block_State
begin

text \<open>
  The state of one simulated thread (model/inc/ThreadItem.h, model/ThreadItem.cpp): its program
  counters, its indices and its completion. The call that executes an instruction is in the
  theory Thread_Block, where the instruction handlers are known.
\<close>

datatype ThreadItemStatus = ThreadItemStatusActive | ThreadItemStatusSuspend

record ThreadItem =
  ti_PC :: u32
  ti_NPC :: u32
  ti_RPC :: u32
  ti_RPC_updated :: bool
  ti_last_was_call :: bool
  ti_barrier_num :: u32
  ti_at_barrier :: bool
  ti_valid :: bool
  ti_thread_done :: bool
  ti_branch_taken :: bool
  ti_leading_thread :: bool
  ti_status :: ThreadItemStatus
  ti_laneId :: u32
  ti_hw_sid :: u32
  ti_hw_ctaid :: u32
  ti_hw_wid :: u32
  ti_hw_tid :: u32
  ti_tid :: dim3
  ti_ntid :: dim3
  ti_ctaid :: dim3
  ti_nctaid :: dim3

definition ThreadItem_reset :: "ThreadItem \<Rightarrow> ThreadItem" where
  "ThreadItem_reset t = t\<lparr>ti_barrier_num := -1, ti_at_barrier := False, ti_valid := False,
     ti_thread_done := False, ti_PC := 0, ti_branch_taken := False, ti_RPC := -1,
     ti_RPC_updated := False\<rparr>"

text \<open>\<open>raw\<close> is what the members hold that the constructor does not set.\<close>

definition new_ThreadItem :: "ThreadItem \<Rightarrow> ThreadItem" where
  "new_ThreadItem raw = ThreadItem_reset
     (raw\<lparr>ti_leading_thread := False, ti_status := ThreadItemStatusActive\<rparr>)"

definition ThreadItem_init :: "u32 \<Rightarrow> u32 \<Rightarrow> u32 \<Rightarrow> u32 \<Rightarrow> ThreadItem \<Rightarrow> ThreadItem" where
  "ThreadItem_init sid cta_id wid tid t = t\<lparr>ti_hw_sid := sid, ti_hw_ctaid := cta_id,
     ti_hw_wid := wid, ti_hw_tid := tid, ti_thread_done := False, ti_status := ThreadItemStatusActive\<rparr>"

definition GetGlobalId :: "ThreadItem \<Rightarrow> u32" where
  "GetGlobalId t = dx (ti_tid t) + dy (ti_tid t) * dx (ti_ntid t) +
     dz (ti_tid t) * dx (ti_ntid t) * dy (ti_ntid t)"

definition is_done :: "ThreadItem \<Rightarrow> bool" where
  "is_done t = ti_thread_done t"

text \<open>The program counter of a thread has 32 bits and is returned as a 64-bit address.\<close>

definition get_pc :: "ThreadItem \<Rightarrow> addr_t" where
  "get_pc t = ucast (ti_PC t)"

definition set_pc :: "u32 \<Rightarrow> ThreadItem \<Rightarrow> ThreadItem" where
  "set_pc pc t = t\<lparr>ti_PC := pc\<rparr>"

definition set_npc :: "u32 \<Rightarrow> ThreadItem \<Rightarrow> ThreadItem" where
  "set_npc npc t = t\<lparr>ti_NPC := npc\<rparr>"

definition update_pc :: "ThreadItem \<Rightarrow> ThreadItem" where
  "update_pc t = t\<lparr>ti_PC := ti_NPC t\<rparr>"

definition next_instr :: "ThreadItem \<Rightarrow> u32" where
  "next_instr t = ti_PC t"

definition clearRPC :: "ThreadItem \<Rightarrow> ThreadItem" where
  "clearRPC t = t\<lparr>ti_RPC := -1, ti_RPC_updated := False, ti_last_was_call := False\<rparr>"

definition set_done :: "ThreadItem \<Rightarrow> ThreadItem res" where
  "set_done t = assertR (\<not> ti_at_barrier t) (Inr (t\<lparr>ti_thread_done := True\<rparr>))"

definition set_tid :: "dim3 \<Rightarrow> ThreadItem \<Rightarrow> ThreadItem" where
  "set_tid tid t = t\<lparr>ti_tid := tid\<rparr>"

definition set_ctaid :: "dim3 \<Rightarrow> ThreadItem \<Rightarrow> ThreadItem" where
  "set_ctaid ctaid t = t\<lparr>ti_ctaid := ctaid\<rparr>"

definition set_ntid :: "dim3 \<Rightarrow> ThreadItem \<Rightarrow> ThreadItem" where
  "set_ntid tid t = t\<lparr>ti_ntid := tid\<rparr>"

definition set_nctaid :: "dim3 \<Rightarrow> ThreadItem \<Rightarrow> ThreadItem" where
  "set_nctaid cta_size t = t\<lparr>ti_nctaid := cta_size\<rparr>"

definition set_laneid :: "u32 \<Rightarrow> ThreadItem \<Rightarrow> ThreadItem" where
  "set_laneid laneid t = t\<lparr>ti_laneId := laneid\<rparr>"

definition set_valid :: "ThreadItem \<Rightarrow> ThreadItem" where
  "set_valid t = t\<lparr>ti_valid := True\<rparr>"

definition set_leading_thread :: "bool \<Rightarrow> ThreadItem \<Rightarrow> ThreadItem" where
  "set_leading_thread b t = t\<lparr>ti_leading_thread := b\<rparr>"

text \<open>The global id of a thread is its position in the block, in the order of the walk.\<close>

lemma GetGlobalId_position: "GetGlobalId t = of_nat (grid_pos (ti_tid t) (ti_ntid t))"
  by (simp add: GetGlobalId_def grid_pos_def algebra_simps)

end
