(* ===== verification/Warp_State.thy ===== *)
theory Warp_State
  imports Sim_Prelude Mem_Common Thread_Item
begin

text \<open>
  The architectural state of a warp (model/WarpState.cpp, model/inc/WarpState.h): the scalar
  registers with the window of kernel constants, the vector registers of the lanes, the
  constants, the memory accessors and the threads. Every access that an assert, the bounds of
  an array or a null pointer stops is an error value. The lemmas show that the two register
  files obey the laws of the interface \<open>reg_file\<close>, on which the instruction theories rest.
\<close>

section \<open>State\<close>

datatype WarpStatus = W_READY | W_RUNNING | W_EXIT

text \<open>
  The memories belong to the environment: \<open>wst_memory\<close> is their state, of any type, and the
  four function members (std::function) read bytes from it and write bytes to it. A thread pointer
  is \<open>None\<close> when it is null.
\<close>

record 'm WarpState =
  wst_sreg_num :: u32
  wst_vreg_num :: u32
  wst_kernel_const_reg_num :: u32
  wst_warp_size :: u32
  wst_sreg :: "u32 list"
  wst_vreg :: "u32 list"
  wst_const_buffer :: "u32 list"
  wst_status :: "WarpStatus list"
  wst_is_blocking :: bool
  wst_warp_id :: u32
  wst_active_mask :: u32
  wst_tb_state :: BlockState
  wst_thread :: "ThreadItem option list"
  wst_local_mem_stack_pointer :: u64
  wst_global_memory_access_address :: u64
  wst_global_memory_access_size :: u64
  wst_smem_read_counter :: u32
  wst_vector_memory_global_coherency :: bool
  wst_scalar_memory_read :: bool
  wst_vector_memory_read :: bool
  wst_vector_memory_write :: bool
  wst_memory_wait :: bool
  wst_memory :: 'm
  wst_dsm_read :: "u64 \<Rightarrow> nat \<Rightarrow> 'm \<Rightarrow> u8 list"
  wst_dsm_write :: "u64 \<Rightarrow> u8 list \<Rightarrow> 'm \<Rightarrow> 'm"
  wst_mem_read :: "SpaceType \<Rightarrow> u64 \<Rightarrow> nat \<Rightarrow> 'm \<Rightarrow> u8 list"
  wst_mem_write :: "SpaceType \<Rightarrow> u64 \<Rightarrow> u8 list \<Rightarrow> 'm \<Rightarrow> 'm"

text \<open>\<open>raw\<close> holds the uninitialised members; \<open>junk\<close> the content of the arrays allocated.\<close>

definition WarpState_init ::
  "u32 \<Rightarrow> BlockState \<Rightarrow> ThreadItem option list \<Rightarrow> (nat \<Rightarrow> u32) \<Rightarrow> (nat \<Rightarrow> WarpStatus) \<Rightarrow> 'm WarpState \<Rightarrow> 'm WarpState" where
  "WarpState_init warp_id tb_state thd junk junk_status w =
     w\<lparr>wst_warp_id := warp_id, wst_tb_state := tb_state, wst_thread := thd,
       wst_sreg := map junk [0..<unat (wst_sreg_num w)],
       wst_vreg := map junk [0..<unat (wst_vreg_num w * wst_warp_size w)],
       wst_status := map junk_status [0..<unat (wst_warp_size w)]\<rparr>"

section \<open>Register files\<close>

definition getVreg :: "u32 \<Rightarrow> u32 \<Rightarrow> 'm WarpState \<Rightarrow> u32 res" where
  "getVreg vreg lane_id w =
     assertR (vreg \<ge> 0) (assertR (vreg < wst_vreg_num w) (assertR (lane_id < wst_warp_size w)
       (vec_get (wst_vreg w) (unat (vreg * wst_warp_size w + lane_id)))))"

definition setVreg :: "u32 \<Rightarrow> u32 \<Rightarrow> u32 \<Rightarrow> 'm WarpState \<Rightarrow> 'm WarpState res" where
  "setVreg vreg value lane_id w =
     assertR (vreg \<ge> 0) (assertR (vreg < wst_vreg_num w) (assertR (lane_id < wst_warp_size w)
       (bindR (vec_set (wst_vreg w) (unat (vreg * wst_warp_size w + lane_id)) value)
         (\<lambda>v. Inr (w\<lparr>wst_vreg := v\<rparr>)))))"

definition getConst :: "u32 \<Rightarrow> 'm WarpState \<Rightarrow> u32 res" where
  "getConst addr w = vec_get (wst_const_buffer w) (unat addr)"

definition getReservedSreg :: "u32 \<Rightarrow> 'm WarpState \<Rightarrow> u32 res" where
  "getReservedSreg sreg w =
     assertR (sreg < wst_kernel_const_reg_num w) (vec_get (wst_sreg w) (unat sreg))"

text \<open>
  Scalar register numbers from \<open>MAX_RESERVED_SREG_NUM\<close> on are, on a read, first the kernel
  constants and then the remaining registers, shifted by the number of constants. A write
  shifts only the numbers above the first one after the constants (\<open>>\<close>, not \<open>>=\<close>).
\<close>

definition getSreg :: "coasm \<Rightarrow> u32 \<Rightarrow> 'm WarpState \<Rightarrow> u32 res" where
  "getSreg cfg sreg w =
     (if sreg < MAX_RESERVED_SREG_NUM cfg then vec_get (wst_sreg w) (unat sreg)
      else if sreg < wst_kernel_const_reg_num w + MAX_RESERVED_SREG_NUM cfg
        then getConst (sreg - MAX_RESERVED_SREG_NUM cfg) w
      else let sreg = sreg - wst_kernel_const_reg_num w in
        assertR (sreg \<ge> 0) (assertR (sreg < 256) (vec_get (wst_sreg w) (unat sreg))))"

definition setSreg :: "coasm \<Rightarrow> u32 \<Rightarrow> u32 \<Rightarrow> 'm WarpState \<Rightarrow> 'm WarpState res" where
  "setSreg cfg sreg value w =
     (let sreg = (if sreg < MAX_RESERVED_SREG_NUM cfg then sreg
                  else if sreg > wst_kernel_const_reg_num w + MAX_RESERVED_SREG_NUM cfg
                    then sreg - wst_kernel_const_reg_num w
                  else sreg)
      in assertR (sreg \<ge> 0) (assertR (sreg < 256)
           (bindR (vec_set (wst_sreg w) (unat sreg) value) (\<lambda>s. Inr (w\<lparr>wst_sreg := s\<rparr>)))))"

definition getDmemStride :: "coasm \<Rightarrow> u32 \<Rightarrow> 'm WarpState \<Rightarrow> u32 res" where
  "getDmemStride cfg sreg w = bindR (getSreg cfg sreg w) (\<lambda>value.
     Inr (drop_bit (SREG_M0_STRIDE_BIT cfg) value AND push_bit (SREG_M0_STRIDE_WIDTH cfg - 1) 1))"

definition getBitmaskSreg :: "coasm \<Rightarrow> u32 \<Rightarrow> u32 \<Rightarrow> 'm WarpState \<Rightarrow> u32 res" where
  "getBitmaskSreg cfg sreg lane_id w =
     assertR (lane_id < wst_warp_size w)
       (bindR (shl32 1 lane_id) (\<lambda>mask.
        bindR (getSreg cfg sreg w) (\<lambda>v. shr32 (v AND mask) lane_id)))"

definition setBitmaskSreg :: "coasm \<Rightarrow> u32 \<Rightarrow> u32 \<Rightarrow> u32 \<Rightarrow> 'm WarpState \<Rightarrow> 'm WarpState res" where
  "setBitmaskSreg cfg sreg value lane_id w =
     assertR (lane_id < wst_warp_size w)
       (bindR (shl32 1 lane_id) (\<lambda>mask.
        bindR (getSreg cfg sreg w) (\<lambda>bitfield.
        setSreg cfg sreg (if value \<noteq> 0 then bitfield OR mask OR mask else bitfield AND NOT mask) w)))"

definition setConstBuffer :: "u32 list \<Rightarrow> 'm WarpState \<Rightarrow> 'm WarpState" where
  "setConstBuffer const_buffer w = w\<lparr>wst_const_buffer := const_buffer\<rparr>"

definition setStackPointer :: "coasm \<Rightarrow> u64 \<Rightarrow> 'm WarpState \<Rightarrow> 'm WarpState res" where
  "setStackPointer cfg stack_pointer w =
     (let w = w\<lparr>wst_local_mem_stack_pointer := stack_pointer\<rparr> in
      bindR (setSreg cfg 0 (ucast stack_pointer) w) (\<lambda>w.
      setSreg cfg 1 (ucast (drop_bit 32 stack_pointer)) w))"

section \<open>Memory\<close>

text \<open>Whatever space is asked for, the access goes to the global space.\<close>

definition setupAddrSpace :: "u64 \<Rightarrow> SpaceType \<Rightarrow> u64 \<times> SpaceType" where
  "setupAddrSpace addr space = (addr, global_space)"

definition setDmem :: "u32 \<Rightarrow> u8 list \<Rightarrow> 'm WarpState \<Rightarrow> 'm WarpState" where
  "setDmem addr value w = w\<lparr>wst_memory := wst_dsm_write w (ucast addr) value (wst_memory w)\<rparr>"

definition getDmem :: "u32 \<Rightarrow> u32 \<Rightarrow> 'm WarpState \<Rightarrow> u8 list" where
  "getDmem addr len w = wst_dsm_read w (ucast addr) (unat len) (wst_memory w)"

definition write_mem :: "u64 \<Rightarrow> u8 list \<Rightarrow> SpaceType \<Rightarrow> 'm WarpState \<Rightarrow> 'm WarpState" where
  "write_mem addr value space w = (case setupAddrSpace addr space of (addr, space) \<Rightarrow>
     w\<lparr>wst_memory := wst_mem_write w space addr value (wst_memory w)\<rparr>)"

definition read_mem :: "u64 \<Rightarrow> u32 \<Rightarrow> SpaceType \<Rightarrow> 'm WarpState \<Rightarrow> u8 list" where
  "read_mem addr len space w = (case setupAddrSpace addr space of (addr, space) \<Rightarrow>
     wst_mem_read w space addr (unat len) (wst_memory w))"

definition writeDMEM :: "u64 \<Rightarrow> u8 list \<Rightarrow> SpaceType \<Rightarrow> 'm WarpState \<Rightarrow> 'm WarpState" where
  "writeDMEM = write_mem"

definition readDMEM :: "u64 \<Rightarrow> u32 \<Rightarrow> SpaceType \<Rightarrow> 'm WarpState \<Rightarrow> u8 list" where
  "readDMEM = read_mem"

definition writeSMEM :: "u64 \<Rightarrow> u8 list \<Rightarrow> SpaceType \<Rightarrow> 'm WarpState \<Rightarrow> 'm WarpState" where
  "writeSMEM = write_mem"

definition readSMEM :: "u64 \<Rightarrow> u32 \<Rightarrow> SpaceType \<Rightarrow> 'm WarpState \<Rightarrow> u8 list" where
  "readSMEM = read_mem"

definition writeVMEM :: "u64 \<Rightarrow> u8 list \<Rightarrow> SpaceType \<Rightarrow> 'm WarpState \<Rightarrow> 'm WarpState" where
  "writeVMEM = write_mem"

definition readVMEM :: "u64 \<Rightarrow> u32 \<Rightarrow> SpaceType \<Rightarrow> 'm WarpState \<Rightarrow> u8 list" where
  "readVMEM = read_mem"

text \<open>A memory pointer is read from two consecutive registers; its address has 48 bits.\<close>

definition mem_ptr_of :: "u32 \<Rightarrow> u32 \<Rightarrow> u64" where
  "mem_ptr_of lo hi = ucast lo OR push_bit 32 (ucast hi)"

definition mem_ptr_addr :: "u64 \<Rightarrow> u64" where
  "mem_ptr_addr p = take_bit 48 p"

definition getSregMemPtr :: "coasm \<Rightarrow> u32 \<Rightarrow> 'm WarpState \<Rightarrow> u64 res" where
  "getSregMemPtr cfg sreg w =
     bindR (getSreg cfg sreg w) (\<lambda>lo. bindR (getSreg cfg (sreg + 1) w) (\<lambda>hi. Inr (mem_ptr_of lo hi)))"

definition getVregMemPtr :: "u32 \<Rightarrow> u32 \<Rightarrow> 'm WarpState \<Rightarrow> u64 res" where
  "getVregMemPtr vreg lane_id w =
     bindR (getVreg vreg lane_id w) (\<lambda>lo. bindR (getVreg (vreg + 1) lane_id w) (\<lambda>hi. Inr (mem_ptr_of lo hi)))"

definition getSBaseAddr :: "coasm \<Rightarrow> u32 \<Rightarrow> 'm WarpState \<Rightarrow> u64 res" where
  "getSBaseAddr cfg sreg w = getSregMemPtr cfg sreg w"

text \<open>The four words of a buffer descriptor are read from memory, at the pointer, with the
  undefined space.\<close>

definition words_of_bytes :: "nat \<Rightarrow> u8 list \<Rightarrow> u32 list" where
  "words_of_bytes n bs = map (\<lambda>i. bytes_u32 (take 4 (drop (4 * i) bs))) [0..<n]"

definition ReadBufferResource :: "coasm \<Rightarrow> u32 \<Rightarrow> 'm WarpState \<Rightarrow> u32 list res" where
  "ReadBufferResource cfg sreg w = bindR (getSregMemPtr cfg sreg w) (\<lambda>mem_ptr.
     Inr (words_of_bytes 4 (wst_mem_read w undefined_space (mem_ptr_addr mem_ptr) 16 (wst_memory w))))"

section \<open>Threads and program counters\<close>

definition getThread :: "u32 \<Rightarrow> 'm WarpState \<Rightarrow> ThreadItem res" where
  "getThread lane_id w =
     (let i = wst_warp_id w * wst_warp_size w + lane_id in
      bindR (vec_get (wst_thread w) (unat i)) (\<lambda>t.
      case t of None \<Rightarrow> Inl Null_Deref | Some t \<Rightarrow> Inr t))"

text \<open>An update of the thread of a lane through its pointer.\<close>

definition modifyThread :: "u32 \<Rightarrow> (ThreadItem \<Rightarrow> ThreadItem) \<Rightarrow> 'm WarpState \<Rightarrow> 'm WarpState res" where
  "modifyThread lane_id f w =
     bindR (getThread lane_id w) (\<lambda>t.
     bindR (vec_set (wst_thread w) (unat (wst_warp_id w * wst_warp_size w + lane_id)) (Some (f t)))
       (\<lambda>ts. Inr (w\<lparr>wst_thread := ts\<rparr>)))"

text \<open>\<open>bitset::test\<close> throws for a lane that the mask does not have.\<close>

definition test_lane :: "u32 \<Rightarrow> nat \<Rightarrow> bool res" where
  "test_lane m i = failR (i \<ge> 32) Out_Of_Range (Inr (bit m i))"

definition isLaneExit :: "u32 \<Rightarrow> 'm WarpState \<Rightarrow> bool res" where
  "isLaneExit laneid w = bindR (vec_get (wst_status w) (unat laneid)) (\<lambda>s. Inr (s = W_EXIT))"

definition getWarpPC :: "u32 \<Rightarrow> 'm WarpState \<Rightarrow> u64 res" where
  "getWarpPC lane_id w = bindR (getThread lane_id w) (\<lambda>t. Inr (get_pc t))"

definition for_active_lanes :: "(u32 \<Rightarrow> 'm WarpState \<Rightarrow> 'm WarpState res) \<Rightarrow> 'm WarpState \<Rightarrow> 'm WarpState res" where
  "for_active_lanes f w = forR (unat (wst_warp_size w)) (\<lambda>lane w.
     bindR (test_lane (wst_active_mask w) lane) (\<lambda>a. if a then f (of_nat lane) w else Inr w)) w"

definition setWarpPC :: "u64 \<Rightarrow> 'm WarpState \<Rightarrow> 'm WarpState res" where
  "setWarpPC pc w = for_active_lanes (\<lambda>lane. modifyThread lane (set_pc (ucast pc))) w"

definition incWarpPC :: "u32 \<Rightarrow> u32 \<Rightarrow> 'm WarpState \<Rightarrow> 'm WarpState res" where
  "incWarpPC increment lane_id w = bindR (getWarpPC lane_id w) (\<lambda>pc.
     let pc = ucast pc :: u32 in
     for_active_lanes (\<lambda>lane. modifyThread lane (set_npc (pc + increment))) w)"

definition getThreadPC :: "u32 \<Rightarrow> 'm WarpState \<Rightarrow> u64 res" where
  "getThreadPC lane_id w = bindR (getThread lane_id w) (\<lambda>t. Inr (get_pc t))"

definition setThreadPC :: "u64 \<Rightarrow> u32 \<Rightarrow> 'm WarpState \<Rightarrow> 'm WarpState res" where
  "setThreadPC pc lane_id w = modifyThread lane_id (set_pc (ucast pc)) w"

definition incThreadPC :: "u32 \<Rightarrow> u32 \<Rightarrow> 'm WarpState \<Rightarrow> 'm WarpState res" where
  "incThreadPC increment lane_id w = bindR (getWarpPC lane_id w) (\<lambda>pc.
     let pc = ucast pc :: u32 in modifyThread lane_id (set_npc (pc + increment)) w)"

definition WarpState_arriveBar :: "u32 \<Rightarrow> u32 \<Rightarrow> 'm WarpState \<Rightarrow> 'm WarpState res" where
  "WarpState_arriveBar slot warp_count w =
     bindR (arriveBar slot (wst_warp_id w) warp_count (wst_tb_state w)) (\<lambda>(_, tb).
       Inr (w\<lparr>wst_tb_state := tb\<rparr>))"

definition setFinished :: "u32 \<Rightarrow> 'm WarpState \<Rightarrow> 'm WarpState res" where
  "setFinished lane_id w =
     bindR (vec_set (wst_status w) (unat lane_id) W_EXIT) (\<lambda>st.
     bindR (removeWarp (wst_warp_id w) (wst_tb_state w)) (\<lambda>tb.
       Inr (w\<lparr>wst_status := st, wst_tb_state := tb\<rparr>)))"

definition setBlocking :: "bool \<Rightarrow> 'm WarpState \<Rightarrow> 'm WarpState" where
  "setBlocking blocking w = w\<lparr>wst_is_blocking := blocking\<rparr>"

definition isBlocking :: "'m WarpState \<Rightarrow> bool" where
  "isBlocking w = wst_is_blocking w"

definition setActiveMask :: "u32 \<Rightarrow> 'm WarpState \<Rightarrow> 'm WarpState" where
  "setActiveMask active_mask w = w\<lparr>wst_active_mask := active_mask\<rparr>"

definition SetScalarMemoryRead :: "bool \<Rightarrow> 'm WarpState \<Rightarrow> 'm WarpState" where
  "SetScalarMemoryRead b w = w\<lparr>wst_scalar_memory_read := b\<rparr>"

definition SetVectorMemoryGlobalCoherency :: "bool \<Rightarrow> 'm WarpState \<Rightarrow> 'm WarpState" where
  "SetVectorMemoryGlobalCoherency b w = w\<lparr>wst_vector_memory_global_coherency := b\<rparr>"

definition SetMemoryWait :: "bool \<Rightarrow> 'm WarpState \<Rightarrow> 'm WarpState" where
  "SetMemoryWait b w = w\<lparr>wst_memory_wait := b\<rparr>"

section \<open>The register files obey their contract\<close>

text \<open>
  The scalar register numbers that reads and writes agree on: below the reserved bound, or
  above the first number after the constants.
\<close>

definition sreg_writable :: "coasm \<Rightarrow> 'm WarpState \<Rightarrow> u32 \<Rightarrow> bool" where
  "sreg_writable cfg w r \<longleftrightarrow>
     MAX_RESERVED_SREG_NUM cfg \<le> wst_kernel_const_reg_num w + MAX_RESERVED_SREG_NUM cfg \<and>
     (if r < MAX_RESERVED_SREG_NUM cfg then r < 256 \<and> unat r < length (wst_sreg w)
      else wst_kernel_const_reg_num w + MAX_RESERVED_SREG_NUM cfg < r \<and>
        r - wst_kernel_const_reg_num w < 256 \<and>
        unat (r - wst_kernel_const_reg_num w) < length (wst_sreg w))"

lemma shifted_ge:
  "m \<le> k + m \<Longrightarrow> k + m \<le> r \<Longrightarrow> m \<le> r - k" "m \<le> k + m \<Longrightarrow> k + m < r \<Longrightarrow> m < r - k"
  for k m r :: u32
proof -
  assume 1: "m \<le> k + m"
  then have s: "unat (k + m) = unat k + unat m"
    by (metis add.commute unat_plus_simple)
  { assume "k + m \<le> r"
    then have "unat k + unat m \<le> unat r" "k \<le> r" using s by (auto simp: word_le_nat_alt)
    then show "m \<le> r - k" by (simp add: word_le_nat_alt unat_sub) }
  { assume "k + m < r"
    then have "unat k + unat m < unat r" "k \<le> r" using s by (auto simp: word_less_nat_alt word_le_nat_alt)
    then show "m < r - k" by (simp add: word_less_nat_alt unat_sub) }
qed

lemma setSreg_writable:
  assumes "sreg_writable cfg w r"
  shows "setSreg cfg r v w = Inr (w\<lparr>wst_sreg := (wst_sreg w)
    [unat (if r < MAX_RESERVED_SREG_NUM cfg then r else r - wst_kernel_const_reg_num w) := v]\<rparr>)"
  using assms by (auto simp: sreg_writable_def setSreg_def vec_set_def Let_def)

interpretation sregs: reg_file "getSreg cfg" "setSreg cfg" "sreg_writable cfg"
proof unfold_locales
  fix s :: "'m WarpState" and i v :: u32
  assume w: "sreg_writable cfg s i"
  show "\<exists>s'. setSreg cfg i v s = Inr s'" using setSreg_writable[OF w] by simp
  fix s' :: "'m WarpState" and j :: u32
  assume p: "setSreg cfg i v s = Inr s'"
  let ?K = "wst_kernel_const_reg_num s" and ?M = "MAX_RESERVED_SREG_NUM cfg"
  have s': "s' = s\<lparr>wst_sreg := (wst_sreg s)[unat (if i < ?M then i else i - ?K) := v]\<rparr>"
    using p setSreg_writable[OF w] by simp
  show "sreg_writable cfg s' j = sreg_writable cfg s j" by (simp add: s' sreg_writable_def)
  have M: "?M \<le> ?K + ?M" using w by (simp add: sreg_writable_def)
  show "getSreg cfg j s' = (if j = i then Inr v else getSreg cfg j s)"
  proof (cases "j = i")
    case True
    then show ?thesis using w M
      by (auto simp: s' sreg_writable_def getSreg_def Let_def vec_get_def)
  next
    case False
    consider "j < ?M" | "?M \<le> j" "j < ?K + ?M" | "?K + ?M \<le> j" by fastforce
    then show ?thesis
    proof cases
      case 1
      then have "unat j \<noteq> unat (if i < ?M then i else i - ?K)"
        using w shifted_ge(2)[OF M, of i] False
        by (auto simp: sreg_writable_def word_unat_eq_iff[symmetric])
      then show ?thesis using 1 False by (simp add: s' getSreg_def vec_get_def)
    next
      case 2
      then show ?thesis using False leD[OF 2(1)] by (simp add: s' getSreg_def getConst_def)
    next
      case 3
      then have jM: "\<not> j < ?M" "\<not> j < ?K + ?M" using M by auto
      have "unat (j - ?K) \<noteq> unat (if i < ?M then i else i - ?K)"
        using w shifted_ge(1)[OF M 3] False
        by (auto simp: sreg_writable_def word_unat_eq_iff[symmetric])
      then show ?thesis using jM False by (simp add: s' getSreg_def vec_get_def Let_def assertR_def)
    qed
  qed
qed

definition vreg_writable :: "'m WarpState \<Rightarrow> u32 \<times> u32 \<Rightarrow> bool" where
  "vreg_writable w i \<longleftrightarrow> fst i < wst_vreg_num w \<and> snd i < wst_warp_size w \<and>
     unat (wst_vreg_num w) * unat (wst_warp_size w) = length (wst_vreg w) \<and>
     length (wst_vreg w) < 2 ^ 32"

lemma vreg_index:
  fixes v l n s :: u32
  assumes "v < n" "l < s" "unat n * unat s < 2 ^ 32"
  shows "unat (v * s + l) = unat v * unat s + unat l" "unat v * unat s + unat l < unat n * unat s"
proof -
  have "unat l + unat s * unat v < unat s * unat n"
    using assms(1,2) by (intro nat_digits_less) (auto simp: word_less_nat_alt)
  then show lt: "unat v * unat s + unat l < unat n * unat s" by (simp add: mult.commute add.commute)
  then have "unat v * unat s + unat l < 2 ^ 32" using assms(3) by linarith
  moreover have "v * s + l = word_of_nat (unat v * unat s + unat l)" by simp
  ultimately show "unat (v * s + l) = unat v * unat s + unat l"
    by (simp only: unat_of_nat) simp
qed

lemma vreg_index_inj:
  fixes v l v' l' s :: u32
  assumes "unat v * unat s + unat l = unat v' * unat s + unat l'" "l < s" "l' < s"
  shows "v = v' \<and> l = l'"
proof -
  have l: "unat l < unat s" "unat l' < unat s" using assms(2,3) by (auto simp: word_less_nat_alt)
  have "(unat v * unat s + unat l) mod unat s = unat l" "(unat v' * unat s + unat l') mod unat s = unat l'"
    "(unat v * unat s + unat l) div unat s = unat v" "(unat v' * unat s + unat l') div unat s = unat v'"
    using l by simp_all
  with assms(1) show ?thesis by (metis unsigned_word_eqI)
qed

interpretation vregs: reg_file "\<lambda>i. getVreg (fst i) (snd i)" "\<lambda>i v. setVreg (fst i) v (snd i)" vreg_writable
proof unfold_locales
  fix s :: "'m WarpState" and i :: "u32 \<times> u32" and v :: u32
  assume w: "vreg_writable s i"
  then have x: "fst i < wst_vreg_num s" "snd i < wst_warp_size s"
    and len: "length (wst_vreg s) = unat (wst_vreg_num s) * unat (wst_warp_size s)"
      "unat (wst_vreg_num s) * unat (wst_warp_size s) < 2 ^ 32"
    by (simp_all add: vreg_writable_def)
  note ix = vreg_index[OF x len(2)]
  have st: "setVreg (fst i) v (snd i) s = Inr (s\<lparr>wst_vreg :=
      (wst_vreg s)[unat (fst i) * unat (wst_warp_size s) + unat (snd i) := v]\<rparr>)"
    using x ix len by (simp add: setVreg_def vec_set_def)
  then show "\<exists>s'. setVreg (fst i) v (snd i) s = Inr s'" by simp
  fix s' :: "'m WarpState" and j :: "u32 \<times> u32"
  assume "setVreg (fst i) v (snd i) s = Inr s'"
  then have s': "s' = s\<lparr>wst_vreg :=
      (wst_vreg s)[unat (fst i) * unat (wst_warp_size s) + unat (snd i) := v]\<rparr>" using st by simp
  show "vreg_writable s' j = vreg_writable s j" by (simp add: s' vreg_writable_def)
  show "getVreg (fst j) (snd j) s' = (if j = i then Inr v else getVreg (fst j) (snd j) s)"
  proof (cases "fst j < wst_vreg_num s \<and> snd j < wst_warp_size s")
    case True
    then have jx: "unat (fst j * wst_warp_size s + snd j) = unat (fst j) * unat (wst_warp_size s) + unat (snd j)"
      "unat (fst j) * unat (wst_warp_size s) + unat (snd j) < length (wst_vreg s)"
      using vreg_index[OF _ _ len(2), of "fst j" "snd j"] len by auto
    have "j \<noteq> i \<Longrightarrow> unat (fst j) * unat (wst_warp_size s) + unat (snd j) \<noteq>
        unat (fst i) * unat (wst_warp_size s) + unat (snd i)"
      using vreg_index_inj[of "fst j" "wst_warp_size s" "snd j" "fst i" "snd i"] True x
      by (auto simp: prod_eq_iff)
    then show ?thesis using True jx len ix by (auto simp: s' getVreg_def vec_get_def)
  next
    case False
    then have "j \<noteq> i" using x by auto
    then show ?thesis using False by (auto simp: s' getVreg_def assertR_def)
  qed
qed

text \<open>Consecutive register numbers.\<close>

lemma reg_seq_inj: "n \<le> 2 ^ 32 \<Longrightarrow> inj_on (\<lambda>i. (d :: u32) + of_nat i) {..<n}"
  by (auto simp: inj_on_def word_of_nat_eq_iff take_bit_nat_eq_self)

lemma setSreg_frame: "setSreg cfg r v w = Inr w' \<Longrightarrow> \<exists>s. w' = w\<lparr>wst_sreg := s\<rparr>"
  by (auto simp: setSreg_def Let_def res_simps)

lemma setVreg_frame: "setVreg r v l w = Inr w' \<Longrightarrow> \<exists>s. w' = w\<lparr>wst_vreg := s\<rparr>"
  by (auto simp: setVreg_def res_simps)

end
