(* ===== verification/Exec_Types.thy ===== *)
theory Exec_Types
  imports Sim_Prelude
begin

text \<open>
  The register union (isa/inc/ExecTypes.h), its width conversions (isa/ExecCommon.cpp) and the
  bit conversions between the numeric types (common/DataTypes.h). The lemmas show that the
  conversions are truncation, zero extension and sign extension.
\<close>

section \<open>The register union\<close>

text \<open>\<open>reg_t\<close> is its four 32-bit words, \<open>reg[0]\<close> first; the narrower members are its low bits.\<close>

datatype reg_t = Reg_t (reg0: u32) (reg1: u32) (reg2: u32) (reg3: u32)

definition reg_t_zero :: reg_t where
  "reg_t_zero = Reg_t 0 0 0 0"

definition reg_t_u32 :: "u32 \<Rightarrow> reg_t" where
  "reg_t_u32 x = Reg_t x 0 0 0"

definition reg_words :: "reg_t \<Rightarrow> u32 list" where
  "reg_words r = [reg0 r, reg1 r, reg2 r, reg3 r]"

definition reg_as_u32 :: "reg_t \<Rightarrow> u32" where
  "reg_as_u32 r = reg0 r"

definition reg_as_u16 :: "reg_t \<Rightarrow> u16" where
  "reg_as_u16 r = ucast (reg0 r)"

definition reg_as_u8 :: "reg_t \<Rightarrow> u8" where
  "reg_as_u8 r = ucast (reg0 r)"

definition reg_as_u64 :: "reg_t \<Rightarrow> u64" where
  "reg_as_u64 r = ucast (reg0 r) OR push_bit 32 (ucast (reg1 r))"

definition mask_and :: "u32 \<Rightarrow> u32 \<Rightarrow> reg_t \<Rightarrow> reg_t" where
  "mask_and ms ls r = Reg_t (reg0 r AND ls) (reg1 r AND ms) (reg2 r) (reg3 r)"

definition mask_or :: "u32 \<Rightarrow> u32 \<Rightarrow> reg_t \<Rightarrow> reg_t" where
  "mask_or ms ls r = Reg_t (reg0 r OR ls) (reg1 r OR ms) (reg2 r) (reg3 r)"

definition get_bit :: "nat \<Rightarrow> reg_t \<Rightarrow> u32 res" where
  "get_bit b r =
     (if b < 32 then Inr (drop_bit b (reg0 r) AND 1)
      else failR (b - 32 \<ge> 32) Undefined_Shift (Inr (drop_bit (b - 32) (reg1 r) AND 1)))"

section \<open>Width conversions\<close>

definition chop :: "reg_t \<Rightarrow> nat \<Rightarrow> reg_t res" where
  "chop x to_width =
     (if to_width = 8 then Inr (mask_and 0 0xFF x)
      else if to_width = 16 then Inr (mask_and 0 0xFFFF x)
      else if to_width = 32 then Inr (mask_and 0 0xFFFFFFFF x)
      else if to_width = 64 then Inr x
      else Inl Assert_Failed)"

definition zext :: "reg_t \<Rightarrow> nat \<Rightarrow> reg_t res" where
  "zext x from_width = chop x from_width"

definition sext :: "reg_t \<Rightarrow> nat \<Rightarrow> reg_t res" where
  "sext x from_width = bindR (chop x from_width) (\<lambda>x.
     if from_width = 8 then
       bindR (get_bit 7 x) (\<lambda>b. Inr (if b \<noteq> 0 then mask_or 0xFFFFFFFF 0xFFFFFF00 x else x))
     else if from_width = 16 then
       bindR (get_bit 15 x) (\<lambda>b. Inr (if b \<noteq> 0 then mask_or 0xFFFFFFFF 0xFFFF0000 x else x))
     else if from_width = 32 then
       bindR (get_bit 31 x) (\<lambda>b. Inr (if b \<noteq> 0 then mask_or 0xFFFFFFFF 0x00000000 x else x))
     else if from_width = 64 then Inr x
     else Inl Assert_Failed)"

section \<open>Numeric conversions\<close>

text \<open>Floating-point values are their IEEE bit patterns: \<open>F32\<close> and \<open>U32\<close> of the same value coincide.\<close>

definition U24 :: "u32 \<Rightarrow> u32" where
  "U24 v = v AND 0xffffff"

definition I24 :: "u32 \<Rightarrow> u32" where
  "I24 v = (let tmp = v AND 0xffffff in if tmp AND 0x800000 \<noteq> 0 then tmp OR 0xff000000 else tmp)"

text \<open>
  The 64-bit value of a register pair shifts the 32-bit high word by 32, which C++ leaves undefined:
  \<open>shl_32\<close> is what the compiled code makes of it.
\<close>

definition U64_regs :: "(u32 \<Rightarrow> u32 res) \<Rightarrow> u32 list \<Rightarrow> u64 res" where
  "U64_regs shl_32 v = assertR (length v \<ge> 2)
     (bindR (shl_32 (v ! 1)) (\<lambda>hi. Inr (ucast hi OR ucast (v ! 0))))"

definition I8_to_I32 :: "u8 \<Rightarrow> u32" where
  "I8_to_I32 v = (if v AND 0x80 \<noteq> 0 then 0xffffff00 OR ucast v else ucast v)"

definition I16_to_I32 :: "u16 \<Rightarrow> u32" where
  "I16_to_I32 v = (if v AND 0x8000 \<noteq> 0 then 0xffff0000 OR ucast v else ucast v)"

definition I24_to_I32 :: "u32 \<Rightarrow> u32" where
  "I24_to_I32 v = (if v AND 0x800000 \<noteq> 0 then 0xff000000 OR v else v AND 0x00ffffff)"

definition SEXT_I32_I8 :: "u32 \<Rightarrow> u32" where
  "SEXT_I32_I8 t = (if t AND 0x00000080 \<noteq> 0 then 0xffffff00 OR t else t AND 0x000000ff)"

definition SEXT_I32_I16 :: "u32 \<Rightarrow> u32" where
  "SEXT_I32_I16 t = (if t AND 0x00008000 \<noteq> 0 then 0xffff0000 OR t else t AND 0x0000ffff)"

definition SEXT_I32_I24 :: "u32 \<Rightarrow> u32" where
  "SEXT_I32_I24 t = (if t AND 0x00800000 \<noteq> 0 then 0xff000000 OR t else t AND 0x00ffffff)"

definition Long_of :: "u32 \<Rightarrow> u32 \<Rightarrow> u64" where
  "Long_of low high = ucast low OR push_bit 32 (ucast high)"

definition SEXT_I64_I32 :: "u32 \<Rightarrow> u64" where
  "SEXT_I64_I32 t = (let temp1 = (if t AND 0x80000000 \<noteq> 0 then 0xffffffff else 0x00000000); temp0 = t
     in Long_of temp0 temp1)"

definition Relu_i32 :: "u32 \<Rightarrow> u32" where
  "Relu_i32 v = (if v <s 0 then 0 else v)"

definition Relu_i16 :: "u16 \<Rightarrow> u16" where
  "Relu_i16 v = (if v <s 0 then 0 else v)"

definition Relu_u16 :: "u16 \<Rightarrow> u16" where
  "Relu_u16 v = v"

definition Relu_i8 :: "u8 \<Rightarrow> u8" where
  "Relu_i8 v = (if v <s 0 then 0 else v)"

definition Relu_i64 :: "u64 \<Rightarrow> u64" where
  "Relu_i64 v = (if v <s 0 then 0 else v)"

text \<open>
  On a double the pattern is stored in a 32-bit variable before it is tested; the value returned
  for a NaN would be read through a cast beyond a 32-bit variable.
\<close>

definition Relu_f64 :: "u64 \<Rightarrow> u64 res" where
  "Relu_f64 v =
     (let tmp = (ucast v :: u32); t = (ucast tmp :: u64) in
      if t AND 0x7ff0000000000000 = 0x7ff0000000000000 \<and> t AND 0x000fffffffffffff \<noteq> 0 then Inl Out_Of_Range
      else Inr (if drop_bit 63 (t AND 0x8000000000000000) \<noteq> 0 then 0 else v))"

definition Saturation_f32 :: "u32 \<Rightarrow> u32" where
  "Saturation_f32 v =
     (if v AND 0xffffffff = 0xff800000 then 0xff7fffff
      else if v AND 0xffffffff = 0x7f800000 then 0x7f7fffff
      else if v AND 0xffffffff > 0x7f800000 then 0
      else v)"

definition Denorm_f32 :: "u32 \<Rightarrow> u32" where
  "Denorm_f32 v =
     (if v AND 0xff800000 = 0x80000000 then 0x80000000
      else if v AND 0xff800000 = 0 then 0
      else v)"

definition Denorm_f64 :: "u64 \<Rightarrow> u64" where
  "Denorm_f64 v =
     (if v AND 0xff80000000000000 = 0x8000000000000000 then 0x8000000000000000
      else if v AND 0xff80000000000000 = 0 then 0
      else v)"

section \<open>The conversions are the mathematical ones\<close>

lemma and_one_neq_0: "(x AND 1 \<noteq> 0) \<longleftrightarrow> bit x 0" for x :: "'a::len word"
  by (simp add: and_one_eq bit_0 odd_iff_mod_2_eq_one)

lemma get_bit_eq: "b < 32 \<Longrightarrow> get_bit b r = Inr (of_bool (bit (reg0 r) b))"
  by (simp add: get_bit_def and_one_eq bit_iff_odd_drop_bit mod_2_eq_odd)

lemma low_masks:
  "(0xFF :: u32) = mask 8" "(0xFFFF :: u32) = mask 16" "(0xFFFFFFFF :: u32) = mask 32"
  "(0xFFFFFF00 :: u32) = NOT (mask 8)" "(0xFFFF0000 :: u32) = NOT (mask 16)" "(0 :: u32) = NOT (mask 32)"
  by (simp_all add: mask_eq_exp_minus_1)

lemma all_ones: "(0xFFFFFFFF :: u32) = -1"
  by simp

lemma bit_all_ones: "bit (0xFFFFFFFF :: u32) k \<longleftrightarrow> k < 32"
  by (subst all_ones) (simp add: bit_simps)

lemma bit_low_ones: "bit (0xFFFFFFFF :: u64) k \<longleftrightarrow> k < 32"
proof -
  have "(0xFFFFFFFF :: u64) = mask 32" by (simp add: mask_eq_exp_minus_1)
  then show ?thesis by (simp only: bit_mask_iff) auto
qed

lemma bit_low_ones_int: "bit (0xFFFFFFFF :: int) k \<longleftrightarrow> k < 32"
proof -
  have "(0xFFFFFFFF :: int) = mask 32" by (simp add: mask_eq_exp_minus_1)
  then show ?thesis by (simp only: bit_mask_iff) auto
qed

lemma chop_eq: "w \<in> {8, 16, 32} \<Longrightarrow> chop x w = Inr (mask_and 0 (mask w) x)"
  by (auto simp: chop_def low_masks)

lemma sext_eq:
  assumes "w \<in> {8, 16, 32}"
  shows "sext x w = Inr (if bit (reg0 x) (w - 1)
    then mask_or (-1) (NOT (mask w)) (mask_and 0 (mask w) x) else mask_and 0 (mask w) x)"
proof -
  have ones: "mask_or 0xFFFFFFFF 0xFFFFFF00 = mask_or (-1) (NOT (mask 8))"
    "mask_or 0xFFFFFFFF 0xFFFF0000 = mask_or (-1) (NOT (mask 16))"
    "mask_or 0xFFFFFFFF 0 = mask_or (-1) (NOT (mask 32))"
    using all_ones by (simp_all only: low_masks(4-6))
  have b: "bit (reg0 (mask_and 0 (mask w) x)) (w - 1) = bit (reg0 x) (w - 1)"
    using assms by (auto simp: mask_and_def bit_simps)
  have "sext x w = bindR (get_bit (w - 1) (mask_and 0 (mask w) x)) (\<lambda>b.
      Inr (if b \<noteq> 0 then mask_or (-1) (NOT (mask w)) (mask_and 0 (mask w) x) else mask_and 0 (mask w) x))"
    using assms chop_eq[OF assms, of x]
    unfolding sext_def by (auto simp only: ones bindR.simps if_True if_False insert_iff empty_iff
        num.distinct numeral_eq_iff num.inject diff_numeral_simps) (simp_all add: ones)
  then show ?thesis using assms b by (auto simp: get_bit_eq)
qed

lemma bit_reg_as_u64: "bit (reg_as_u64 r) n \<longleftrightarrow> (if n < 32 then bit (reg0 r) n else bit (reg1 r) (n - 32))"
  by (auto simp: reg_as_u64_def bit_simps dest: bit_imp_le_length)

text \<open>
  C29. On the widths it accepts, \<open>sext\<close> computes the two's complement sign extension of the low
  bits to the 64-bit value and \<open>zext\<close> their zero extension; every other width fails the assert.
\<close>

theorem sext_zext_value:
  "if w \<in> {8, 16, 32, 64} then
     (\<exists>y z. sext x w = Inr y \<and> reg_as_u64 y = signed_take_bit (w - 1) (reg_as_u64 x) \<and>
        zext x w = Inr z \<and> reg_as_u64 z = take_bit w (reg_as_u64 x))
   else sext x w = Inl Assert_Failed \<and> zext x w = Inl Assert_Failed"
proof (cases "w \<in> {8, 16, 32}")
  case True
  have ww: "n < w \<longleftrightarrow> n < w - 1 \<or> n = w - 1" for n using True by auto
  have "reg_as_u64 (mask_and 0 (mask w) x) = take_bit w (reg_as_u64 x)"
    by (rule bit_word_eqI) (use True in \<open>auto simp: bit_reg_as_u64 mask_and_def bit_simps\<close>)
  moreover have "bit (reg0 x) (w - 1) \<Longrightarrow>
      reg_as_u64 (mask_or (-1) (NOT (mask w)) (mask_and 0 (mask w) x)) = signed_take_bit (w - 1) (reg_as_u64 x)"
    by (rule bit_word_eqI) (use True in \<open>auto simp: bit_reg_as_u64 mask_and_def mask_or_def bit_simps min_def ww
        not_less\<close>)
  moreover have "\<not> bit (reg0 x) (w - 1) \<Longrightarrow>
      reg_as_u64 (mask_and 0 (mask w) x) = signed_take_bit (w - 1) (reg_as_u64 x)"
  proof -
    assume nb: "\<not> bit (reg0 x) (w - 1)"
    show ?thesis
      by (rule bit_word_eqI) (use True nb in \<open>auto simp: bit_reg_as_u64 mask_and_def bit_simps min_def ww\<close>)
  qed
  ultimately show ?thesis using True by (auto simp: sext_eq zext_def chop_eq)
next
  case False
  have "signed_take_bit 63 (reg_as_u64 x) = reg_as_u64 x"
  proof (rule bit_word_eqI)
    fix n assume "n < LENGTH(64)"
    then consider "n < 63" | "n = 63" by force
    then show "bit (signed_take_bit 63 (reg_as_u64 x)) n = bit (reg_as_u64 x) n"
      by cases (auto simp: bit_simps)
  qed
  moreover have "take_bit 64 (reg_as_u64 x) = reg_as_u64 x"
    by (rule bit_word_eqI) (auto simp: bit_simps)
  ultimately show ?thesis using False by (auto simp: sext_def zext_def chop_def)
qed

lemma u32_top_bit: "x AND 0x80000000 \<noteq> 0 \<longleftrightarrow> bit x 31" for x :: u32
proof -
  have "x AND 0x80000000 = x AND push_bit 31 1" by simp
  also have "(\<dots> \<noteq> 0) = bit x 31" by (simp add: bit_iff_and_push_bit_not_eq_0)
  finally show ?thesis .
qed

lemma SEXT_I64_I32_eq: "SEXT_I64_I32 t = scast t"
proof (rule bit_word_eqI)
  fix n assume "n < LENGTH(64)"
  moreover have "bit t n \<Longrightarrow> n < 32" by auto
  ultimately show "bit (SEXT_I64_I32 t) n = bit (scast t :: u64) n"
    unfolding SEXT_I64_I32_def u32_top_bit
    by (auto simp: Long_of_def Let_def bit_simps bit_all_ones bit_low_ones bit_low_ones_int not_less min_def less_Suc_eq_le order_le_less)
qed

text \<open>The conversion of doubles never looks at the sign: it returns every value unchanged.\<close>

lemma Relu_f64_identity: "Relu_f64 v = Inr v"
proof -
  have "(ucast (ucast v :: u32) :: u64) AND 0x7ff0000000000000 = 0"
    and "drop_bit 63 ((ucast (ucast v :: u32) :: u64) AND 0x8000000000000000) = 0"
  proof -
    have c: "(0x7ff0000000000000 :: u64) = push_bit 52 (mask 11)"
      "(0x8000000000000000 :: u64) = push_bit 63 1"
      by (simp_all add: mask_eq_exp_minus_1 push_bit_eq_mult)
    show "(ucast (ucast v :: u32) :: u64) AND 0x7ff0000000000000 = 0"
      unfolding c by (rule bit_word_eqI) (auto simp: bit_simps)
    show "drop_bit 63 ((ucast (ucast v :: u32) :: u64) AND 0x8000000000000000) = 0"
      unfolding c by (rule bit_word_eqI) (auto simp: bit_simps)
  qed
  then show ?thesis by (simp add: Relu_f64_def Let_def)
qed

end
