(* ===== verification/Operands.thy ===== *)
theory Operands
  imports Sim_Prelude Exec_Types Warp_State Simt_Stack
begin

text \<open>
  Operands and the part of an instruction that all formats share (isa/inc/Instruction.h,
  isa/DecodeCommon.cpp): how an operand is read from the registers of a warp, handed to the
  handlers lane by lane, and written back. Their properties are in the
  theory Operand_Facts.
\<close>

section \<open>Operands\<close>

datatype RegType = Scalar | Vector | DataReg | TCC

record Reg =
  rg_reg_idx :: u32
  rg_range :: u32
  rg_lane_stride :: u32
  rg_lie :: bool
  rg_reg_type :: RegType

abbreviation mk_Reg :: "u32 \<Rightarrow> u32 \<Rightarrow> RegType \<Rightarrow> u32 \<Rightarrow> Reg" where
  "mk_Reg idx rng rt stride \<equiv> \<lparr>rg_reg_idx = idx, rg_range = rng, rg_lane_stride = stride, rg_lie = False,
     rg_reg_type = rt\<rparr>"

datatype OperandName = SRC0 | SRC1 | SRC2 | SRC3 | DST | IMPLICIT_DST0 | IMPLICIT_DST1

text \<open>An index that no case handles falls off the end of the function.\<close>

fun GetSrcOperand :: "nat \<Rightarrow> OperandName res" where
  "GetSrcOperand 0 = Inr SRC0"
| "GetSrcOperand (Suc 0) = Inr SRC1"
| "GetSrcOperand (Suc (Suc 0)) = Inr SRC2"
| "GetSrcOperand (Suc (Suc (Suc 0))) = Inr SRC3"
| "GetSrcOperand _ = Inl No_Return"

fun GetDstOperand :: "nat \<Rightarrow> OperandName res" where
  "GetDstOperand 0 = Inr DST"
| "GetDstOperand (Suc 0) = Inr IMPLICIT_DST0"
| "GetDstOperand (Suc (Suc 0)) = Inr IMPLICIT_DST1"
| "GetDstOperand _ = Inl No_Return"

definition MAX_WARPSIZE :: nat where
  "MAX_WARPSIZE = 32"

text \<open>A vector value is indexed by register and by lane.\<close>

record Operand =
  opd_name :: OperandName
  opd_is_valid :: bool
  opd_is_imm :: bool
  opd_is_scalar_ready :: bool
  opd_is_vector_ready :: "bool list"
  opd_reg :: Reg
  opd_imm :: u32
  opd_value :: "u32 list"
  opd_vector_value :: "u32 list list"
  opd_range :: u32

definition scalar_reg :: "RegType \<Rightarrow> bool" where
  "scalar_reg rt \<longleftrightarrow> rt = Scalar \<or> rt = TCC"

definition new_Operand_reg :: "OperandName \<Rightarrow> Reg \<Rightarrow> Operand" where
  "new_Operand_reg name reg =
     (let n = unat (rg_range reg);
          opd = \<lparr>opd_name = name, opd_is_valid = True, opd_is_imm = False, opd_is_scalar_ready = False,
                opd_is_vector_ready = [], opd_reg = reg, opd_imm = 0, opd_value = [],
                opd_vector_value = [], opd_range = rg_range reg\<rparr>
      in if scalar_reg (rg_reg_type reg) then opd\<lparr>opd_value := replicate n 0\<rparr>
         else opd\<lparr>opd_vector_value := replicate n (replicate MAX_WARPSIZE 0),
                 opd_is_vector_ready := replicate MAX_WARPSIZE False\<rparr>)"

definition new_Operand_imm :: "OperandName \<Rightarrow> u32 \<Rightarrow> Operand" where
  "new_Operand_imm name imm = \<lparr>opd_name = name, opd_is_valid = True, opd_is_imm = True,
     opd_is_scalar_ready = False, opd_is_vector_ready = [], opd_reg = mk_Reg 0 1 Vector 0, opd_imm = imm,
     opd_value = [], opd_vector_value = [], opd_range = 0\<rparr>"

definition isDst :: "Operand \<Rightarrow> bool" where
  "isDst opd \<longleftrightarrow> opd_name opd = IMPLICIT_DST0 \<or> opd_name opd = IMPLICIT_DST1"

definition getImm :: "Operand \<Rightarrow> u32" where
  "getImm opd = opd_imm opd"

text \<open>\<open>lane_id\<close> is a signed parameter with default -1, which the vector cases assert against.\<close>

definition vector_elem :: "Operand \<Rightarrow> nat \<Rightarrow> u32 \<Rightarrow> u32 res" where
  "vector_elem opd i lane_id =
     bindR (vec_get (opd_vector_value opd) i) (\<lambda>vs. vec_get vs (unat lane_id))"

definition getValue :: "Operand \<Rightarrow> u32 \<Rightarrow> u32 res" where
  "getValue opd lane_id =
     (if opd_is_imm opd then Inr (opd_imm opd)
      else if scalar_reg (rg_reg_type (opd_reg opd)) then vec_get (opd_value opd) 0
      else assertR (lane_id \<noteq> -1) (vector_elem opd 0 lane_id))"

definition getRegValue :: "Operand \<Rightarrow> u32 \<Rightarrow> reg_t res" where
  "getRegValue opd lane_id =
     (if opd_is_imm opd then Inr (reg_t_u32 (opd_imm opd))
      else if scalar_reg (rg_reg_type (opd_reg opd)) then
        bindR (vec_get (opd_value opd) 0) (\<lambda>v. Inr (reg_t_u32 v))
      else assertR (lane_id \<noteq> -1) (bindR (vector_elem opd 0 lane_id) (\<lambda>v. Inr (reg_t_u32 v))))"

definition getRegIdx :: "Operand \<Rightarrow> u32 \<Rightarrow> u32" where
  "getRegIdx opd reg_num =
     (if opd_is_imm opd then -1
      else if reg_num > rg_range (opd_reg opd) then -1
      else rg_reg_idx (opd_reg opd) + reg_num)"

fun vector_elems :: "Operand \<Rightarrow> nat \<Rightarrow> u32 \<Rightarrow> u32 list res" where
  "vector_elems opd 0 lane_id = Inr []"
| "vector_elems opd (Suc n) lane_id =
     bindR (vector_elems opd n lane_id) (\<lambda>vs. bindR (vector_elem opd n lane_id) (\<lambda>v. Inr (vs @ [v])))"

definition getValueX :: "Operand \<Rightarrow> u32 \<Rightarrow> u32 list res" where
  "getValueX opd lane_id =
     (if opd_is_imm opd then Inr [opd_imm opd]
      else if scalar_reg (rg_reg_type (opd_reg opd)) then Inr (opd_value opd)
      else assertR (lane_id \<noteq> -1) (vector_elems opd (unat (rg_range (opd_reg opd))) lane_id))"

text \<open>Store one element of a vector value and mark its lane as ready.\<close>

definition set_vector_elem :: "nat \<Rightarrow> u32 \<Rightarrow> u32 \<Rightarrow> Operand \<Rightarrow> Operand res" where
  "set_vector_elem i lane_id v opd =
     bindR (vec_set (opd_is_vector_ready opd) (unat lane_id) True) (\<lambda>rs.
     bindR (vec_get (opd_vector_value opd) i) (\<lambda>vs.
     bindR (vec_set vs (unat lane_id) v) (\<lambda>vs.
       Inr (opd\<lparr>opd_is_vector_ready := rs, opd_vector_value := (opd_vector_value opd)[i := vs]\<rparr>))))"

text \<open>
  \<open>setValue\<close> of a \<open>reg_t\<close> stores one word per register of a vector operand; of a scalar operand it
  stores every word in \<open>value_[0]\<close>, one after the other.
\<close>

definition setValue_reg :: "reg_t \<Rightarrow> u32 \<Rightarrow> Operand \<Rightarrow> Operand res" where
  "setValue_reg value lane_id opd =
     assertR (\<not> opd_is_imm opd)
       (if scalar_reg (rg_reg_type (opd_reg opd)) then
          forR (unat (rg_range (opd_reg opd))) (\<lambda>i opd.
            bindR (vec_get (reg_words value) i) (\<lambda>x.
            bindR (vec_set (opd_value opd) 0 x) (\<lambda>vs. Inr (opd\<lparr>opd_value := vs\<rparr>))))
            (opd\<lparr>opd_is_scalar_ready := True\<rparr>)
        else assertR (lane_id \<noteq> -1)
          (forR (unat (rg_range (opd_reg opd))) (\<lambda>i opd.
            bindR (vec_get (reg_words value) i) (\<lambda>x. set_vector_elem i lane_id x opd)) opd))"

definition setValue :: "u32 \<Rightarrow> u32 \<Rightarrow> Operand \<Rightarrow> Operand res" where
  "setValue value lane_id opd =
     assertR (\<not> opd_is_imm opd)
       (if scalar_reg (rg_reg_type (opd_reg opd)) then
          bindR (vec_set (opd_value opd) 0 value) (\<lambda>vs.
            Inr (opd\<lparr>opd_is_scalar_ready := True, opd_value := vs\<rparr>))
        else assertR (lane_id \<noteq> -1) (set_vector_elem 0 lane_id value opd))"

definition set_mask_bit :: "u32 \<Rightarrow> u32 \<Rightarrow> u32 \<Rightarrow> u32" where
  "set_mask_bit value bitfield m = (if value \<noteq> 0 then bitfield OR m else bitfield AND NOT m)"

definition setBitmask :: "u32 \<Rightarrow> u32 \<Rightarrow> Operand \<Rightarrow> Operand res" where
  "setBitmask value lane_id opd =
     assertR (\<not> opd_is_imm opd) (assertR (scalar_reg (rg_reg_type (opd_reg opd)))
       (if lane_id <s 32 then
          bindR (shl32 1 lane_id) (\<lambda>m.
          bindR (vec_get (opd_value opd) 0) (\<lambda>b.
            Inr (opd\<lparr>opd_value := (opd_value opd)[0 := set_mask_bit value b m]\<rparr>)))
        else assertR (opd_range opd > 1)
         (bindR (shl32 1 (lane_id - 32)) (\<lambda>m.
          bindR (vec_get (opd_value opd) 1) (\<lambda>b.
            Inr (opd\<lparr>opd_value := (opd_value opd)[1 := set_mask_bit value b m]\<rparr>))))))"

definition setValueX :: "u32 list \<Rightarrow> u32 \<Rightarrow> Operand \<Rightarrow> Operand res" where
  "setValueX value lane_id opd =
     assertR (\<not> opd_is_imm opd) (assertR (length value \<le> unat (rg_range (opd_reg opd)))
       (if scalar_reg (rg_reg_type (opd_reg opd)) then
          forR (unat (rg_range (opd_reg opd))) (\<lambda>i opd.
            bindR (vec_get value i) (\<lambda>x.
            bindR (vec_set (opd_value opd) i x) (\<lambda>vs. Inr (opd\<lparr>opd_value := vs\<rparr>))))
            (opd\<lparr>opd_is_scalar_ready := True\<rparr>)
        else assertR (lane_id \<noteq> -1)
          (forR (unat (rg_range (opd_reg opd))) (\<lambda>i opd.
            bindR (vec_get value i) (\<lambda>x. set_vector_elem i lane_id x opd)) opd)))"

section \<open>Operand collection and write-back\<close>

text \<open>The words of one register of a vector or data operand: zero for the inactive lanes.\<close>

definition lane_vector :: "(u32 \<Rightarrow> u32 res) \<Rightarrow> 'm WarpState \<Rightarrow> (bool list \<times> u32 list) \<Rightarrow> (bool list \<times> u32 list) res" where
  "lane_vector read w st = forR (unat (wst_warp_size w)) (\<lambda>j (rs, vs).
     bindR (test_lane (wst_active_mask w) j) (\<lambda>a.
     if a then
       bindR (vec_set rs j True) (\<lambda>rs.
       bindR (read (of_nat j)) (\<lambda>v.
       bindR (vec_set vs j v) (\<lambda>vs. Inr (rs, vs))))
     else Inr (rs, vs))) st"

definition data_addr :: "Reg \<Rightarrow> 'm WarpState \<Rightarrow> u32 \<Rightarrow> u32 \<Rightarrow> u32" where
  "data_addr r w i j = rg_reg_idx r + i * (rg_lane_stride r * wst_warp_size w) + j * rg_lane_stride r"

definition readReg :: "coasm \<Rightarrow> 'm WarpState \<Rightarrow> Operand \<Rightarrow> Operand res" where
  "readReg cfg w opd =
     (if opd_is_imm opd then Inr opd
      else
        let r = opd_reg opd; opd = opd\<lparr>opd_range := rg_range r\<rparr> in
        forR (unat (rg_range r)) (\<lambda>i opd.
          if scalar_reg (rg_reg_type r) then
            bindR (getSreg cfg (rg_reg_idx r + of_nat i) w) (\<lambda>v.
            bindR (vec_set (opd_value opd) i v) (\<lambda>vs.
              Inr (opd\<lparr>opd_is_scalar_ready := True, opd_value := vs\<rparr>)))
          else
            bindR (lane_vector (\<lambda>j.
                if rg_reg_type r = Vector then getVreg (rg_reg_idx r + of_nat i) j w
                else Inr (bytes_u32 (getDmem (data_addr r w (of_nat i) j) 4 w)))
              w (opd_is_vector_ready opd, replicate (unat (wst_warp_size w)) 0)) (\<lambda>(rs, vs).
            bindR (vec_set (opd_vector_value opd) i vs) (\<lambda>vv.
              Inr (opd\<lparr>opd_is_vector_ready := rs, opd_vector_value := vv\<rparr>)))) opd)"

text \<open>The write-back of an operand changes the operand as little as its range and its flag.\<close>

definition write_lane :: "Operand \<Rightarrow> nat \<Rightarrow> (u32 \<Rightarrow> u32 \<Rightarrow> 'm WarpState \<Rightarrow> 'm WarpState res) \<Rightarrow> nat \<Rightarrow> 'm WarpState \<Rightarrow> 'm WarpState res" where
  "write_lane opd i put j w =
     bindR (test_lane (wst_active_mask w) j) (\<lambda>a.
     if a then
       bindR (vec_get (opd_is_vector_ready opd) j) (\<lambda>ready.
       assertR ready
         (bindR (vector_elem opd i (of_nat j)) (\<lambda>v. put (of_nat j) v w)))
     else Inr w)"

definition writeReg :: "coasm \<Rightarrow> Operand \<Rightarrow> 'm WarpState \<Rightarrow> 'm WarpState res" where
  "writeReg cfg opd w =
     (let r = opd_reg opd in
      forR (unat (rg_range r)) (\<lambda>i w.
        if scalar_reg (rg_reg_type r) then
          bindR (vec_get (opd_value opd) i) (\<lambda>v. setSreg cfg (rg_reg_idx r + of_nat i) v w)
        else forR (unat (wst_warp_size w)) (write_lane opd i (\<lambda>j v w.
          if rg_reg_type r = Vector then setVreg (rg_reg_idx r + of_nat i) v j w
          else Inr (setDmem (data_addr r w (of_nat i) j) (u32_bytes v) w))) w) w)"

section \<open>The common part of an instruction\<close>

record Instruction =
  ins_pc :: addr_t
  ins_op_type :: op_type_t
  ins_reconvergence_pc :: addr_t
  ins_operands :: "OperandName \<Rightarrow> Operand option"
  ins_num_src_operands :: u32
  ins_num_dst_operands :: u32
  ins_m_size :: u32
  ins_m_decoded :: bool
  ins_m_is_warp_op :: bool
  ins_m_isatomic :: bool

definition new_Instruction :: "op_type_t \<Rightarrow> Instruction" where
  "new_Instruction oper = \<lparr>ins_pc = -1, ins_op_type = oper, ins_reconvergence_pc = -1,
     ins_operands = (\<lambda>_. None), ins_num_src_operands = 0, ins_num_dst_operands = 0, ins_m_size = 0,
     ins_m_decoded = False, ins_m_is_warp_op = False, ins_m_isatomic = False\<rparr>"

definition hasOperand :: "Instruction \<Rightarrow> OperandName \<Rightarrow> bool" where
  "hasOperand ins operand_name =
     (case operand_name of
        SRC0 \<Rightarrow> ins_num_src_operands ins \<ge> 1
      | SRC1 \<Rightarrow> ins_num_src_operands ins \<ge> 2
      | SRC2 \<Rightarrow> ins_num_src_operands ins \<ge> 3
      | SRC3 \<Rightarrow> ins_num_src_operands ins \<ge> 4
      | DST \<Rightarrow> ins_num_dst_operands ins \<ge> 1
      | _ \<Rightarrow> False)"

definition set_operand :: "OperandName \<Rightarrow> Operand \<Rightarrow> Instruction \<Rightarrow> Instruction" where
  "set_operand name opd ins = ins\<lparr>ins_operands := (ins_operands ins)(name \<mapsto> opd)\<rparr>"

definition makeOperand_reg :: "OperandName \<Rightarrow> Reg \<Rightarrow> Instruction \<Rightarrow> Instruction" where
  "makeOperand_reg name reg ins = set_operand name (new_Operand_reg name reg) ins"

definition makeOperand_imm :: "OperandName \<Rightarrow> u32 \<Rightarrow> Instruction \<Rightarrow> Instruction" where
  "makeOperand_imm name imm ins = set_operand name (new_Operand_imm name imm) ins"

text \<open>Using an operand that was not made follows a null pointer.\<close>

definition getOperand :: "OperandName \<Rightarrow> Instruction \<Rightarrow> Operand res" where
  "getOperand name ins = deref (ins_operands ins) name"

definition modify_operand :: "OperandName \<Rightarrow> (Operand \<Rightarrow> Operand res) \<Rightarrow> Instruction \<Rightarrow> Instruction res" where
  "modify_operand name f ins =
     bindR (getOperand name ins) (\<lambda>opd. bindR (f opd) (\<lambda>opd. Inr (set_operand name opd ins)))"

definition OperandCollect :: "coasm \<Rightarrow> 'm WarpState \<Rightarrow> Instruction \<Rightarrow> Instruction res" where
  "OperandCollect cfg w ins =
     bindR (forR (unat (ins_num_src_operands ins)) (\<lambda>i ins.
        bindR (GetSrcOperand i) (\<lambda>name. modify_operand name (readReg cfg w) ins)) ins) (\<lambda>ins.
     forR (unat (ins_num_dst_operands ins)) (\<lambda>i ins.
        bindR (GetDstOperand i) (\<lambda>name.
        bindR (getOperand name ins) (\<lambda>opd.
        if rg_reg_type (opd_reg opd) = TCC then modify_operand name (readReg cfg w) ins
        else Inr ins))) ins)"

definition WriteBack :: "coasm \<Rightarrow> Instruction \<Rightarrow> 'm WarpState \<Rightarrow> 'm WarpState res" where
  "WriteBack cfg ins w =
     forR (unat (ins_num_dst_operands ins)) (\<lambda>i w.
        bindR (GetDstOperand i) (\<lambda>name.
        bindR (getOperand name ins) (\<lambda>opd. writeReg cfg opd w))) w"

text \<open>The first source of the vector formats: an immediate assembled from fields, or a register of
  one of four kinds.\<close>

definition dsrc0_Decode ::
  "coasm \<Rightarrow> u32 \<Rightarrow> u32 \<Rightarrow> u32 \<Rightarrow> u32 \<Rightarrow> u32 \<Rightarrow> u32 \<Rightarrow> u32 \<Rightarrow> OperandName \<Rightarrow> Instruction \<Rightarrow> Instruction" where
  "dsrc0_Decode cfg imm dsrc0 src0 isize ext_imm src0_ext reg_range operand_name ins =
     (let width = COMMON_ENC_max_src0_32e_width cfg in
      if imm = 1 then
        let v = push_bit width dsrc0 + src0;
            v = (if isize = 8 then v OR push_bit (width + 2) ext_imm else v)
        in makeOperand_imm operand_name v ins
      else
        let ext = (if isize = 8 then src0 OR push_bit width src0_ext else src0) in
        if dsrc0 = COMMON_ENC_dsrc0_l cfg then
          makeOperand_reg operand_name (mk_Reg ext reg_range DataReg 4) ins
        else if dsrc0 = COMMON_ENC_dsrc0_d cfg then
          makeOperand_reg operand_name (mk_Reg ext reg_range DataReg 0) ins
        else if dsrc0 = COMMON_ENC_dsrc0_s cfg then
          makeOperand_reg operand_name (mk_Reg ext reg_range Scalar 0) ins
        else makeOperand_reg operand_name (mk_Reg ext reg_range Vector 0) ins)"

end
