(* ===== verification/Bit_Utils.thy ===== *)
theory Bit_Utils
  imports Sim_Prelude
begin

text \<open>
  Bit manipulation helpers: the integer helpers of common/string_utils.h and the bit fields of
  isa/inc/OperandUtil.h, at the 32-bit instances. A shift
  by at least the width of its operand is an error value.
\<close>

section \<open>common/string_utils.h\<close>

text \<open>The compiler builtins count the zeros above the highest and below the lowest set bit.\<close>

definition count_leading_zeros :: "u32 \<Rightarrow> nat" where
  "count_leading_zeros value = length (takeWhile (\<lambda>i. \<not> bit value i) (rev [0..<32]))"

definition count_trailing_zeros :: "u32 \<Rightarrow> nat" where
  "count_trailing_zeros value = length (takeWhile (\<lambda>i. \<not> bit value i) [0..<32])"

definition ispow2 :: "u32 \<Rightarrow> bool" where
  "ispow2 value \<longleftrightarrow> value \<noteq> 0 \<and> value AND (value - 1) = 0"

definition log2ceil :: "u32 \<Rightarrow> nat" where
  "log2ceil value = 32 - count_leading_zeros (value - 1)"

definition log2up :: "u32 \<Rightarrow> nat" where
  "log2up value = max 1 (log2ceil value)"

text \<open>An unsigned result: for 0 it is \<open>32 - 32 - 1\<close>, all ones.\<close>

definition log2floor :: "u32 \<Rightarrow> u32" where
  "log2floor value = 32 - of_nat (count_leading_zeros value) - 1"

definition ceil2 :: "u32 \<Rightarrow> nat" where
  "ceil2 value = 32 - count_leading_zeros value"

definition ceildiv :: "u32 \<Rightarrow> u32 \<Rightarrow> u32 res" where
  "ceildiv a b = failR (b = 0) Division_By_Zero (Inr ((a + b - 1) div b))"

definition roundup :: "u32 \<Rightarrow> u32 \<Rightarrow> u32 res" where
  "roundup a b = bindR (ceildiv a b) (\<lambda>q. Inr (b * q))"

definition blend :: "u32 \<Rightarrow> u32 \<Rightarrow> u32 \<Rightarrow> u32" where
  "blend m a b = a XOR ((a XOR b) AND m)"

definition rotl :: "u32 \<Rightarrow> u32 \<Rightarrow> u32 \<Rightarrow> u32 res" where
  "rotl value sh width =
     bindR (if sh \<ge> width then failR (width = 0) Division_By_Zero (Inr (sh mod width)) else Inr sh) (\<lambda>sh.
     bindR (shl32 value sh) (\<lambda>a. bindR (shr32 value (width - sh)) (\<lambda>b. Inr (a OR b))))"

definition rotr :: "u32 \<Rightarrow> u32 \<Rightarrow> u32 \<Rightarrow> u32 res" where
  "rotr value sh width =
     bindR (if sh > width then failR (width = 0) Division_By_Zero (Inr (sh mod width)) else Inr sh) (\<lambda>sh.
     bindR (shr32 value sh) (\<lambda>a. bindR (shl32 value (width - sh)) (\<lambda>b. Inr (a OR b))))"

definition sign_ext :: "u32 \<Rightarrow> nat \<Rightarrow> u32 res" where
  "sign_ext value width =
     assertR (32 \<ge> width)
    (failR (width = 0) Undefined_Shift
    (assertR ((ucast value :: u64) AND NOT (drop_bit (64 - width) (-1)) = 0)
      (let m = push_bit (width - 1) 1 in Inr ((value XOR m) - m))))"

section \<open>isa/inc/OperandUtil.h\<close>

text \<open>Bit numbers are signed integers in the code; a negative one shifts by a negative amount.\<close>

definition getBits :: "u32 \<Rightarrow> int \<Rightarrow> int \<Rightarrow> u32 res" where
  "getBits x high low =
     failR (low < 0 \<or> low \<ge> 32 \<or> high - low + 1 < 0 \<or> high - low + 1 \<ge> 32) Undefined_Shift
       (Inr (drop_bit (nat low) x AND (push_bit (nat (high - low + 1)) 1 - 1)))"

definition getBit :: "u32 \<Rightarrow> int \<Rightarrow> bool res" where
  "getBit x b = failR (b < 0 \<or> b \<ge> 32) Undefined_Shift (Inr (x AND push_bit (nat b) 1 \<noteq> 0))"

definition clearBits :: "u32 \<Rightarrow> int \<Rightarrow> int \<Rightarrow> u32 res" where
  "clearBits x high low =
     failR (low < 0 \<or> low \<ge> 64 \<or> high + 1 < 0 \<or> high + 1 \<ge> 64) Undefined_Shift
       (Inr (ucast ((ucast x :: u64) AND
          ((push_bit (nat low) 1 - 1) OR NOT (push_bit (nat (high + 1)) 1 - 1)))))"

definition truncBits :: "u32 \<Rightarrow> int \<Rightarrow> u32 res" where
  "truncBits x num = failR (num < 0 \<or> num \<ge> 64) Undefined_Shift
     (Inr (ucast ((ucast x :: u64) AND (push_bit (nat num) 1 - 1))))"

definition setBits :: "u32 \<Rightarrow> int \<Rightarrow> int \<Rightarrow> u32 \<Rightarrow> u32 res" where
  "setBits x high low value =
     bindR (clearBits x high low) (\<lambda>c.
     bindR (truncBits value (high - low + 1)) (\<lambda>t.
     failR (low < 0 \<or> low \<ge> 32) Undefined_Shift (Inr (c OR push_bit (nat low) t))))"

definition setBit :: "u32 \<Rightarrow> int \<Rightarrow> u32 res" where
  "setBit x b = failR (b < 0 \<or> b \<ge> 32) Undefined_Shift (Inr (x OR push_bit (nat b) 1))"

definition clearBit :: "u32 \<Rightarrow> int \<Rightarrow> u32 res" where
  "clearBit x b = failR (b < 0 \<or> b \<ge> 32) Undefined_Shift (Inr (x AND NOT (push_bit (nat b) 1)))"

definition setBit_to :: "u32 \<Rightarrow> int \<Rightarrow> bool \<Rightarrow> u32 res" where
  "setBit_to x b value = (if value then setBit x b else clearBit x b)"

definition SignExtend :: "u32 \<Rightarrow> u32 \<Rightarrow> u32 res" where
  "SignExtend x b =
     bindR (shl32 1 (b - 1)) (\<lambda>s. bindR (shl32 1 b) (\<lambda>t.
       Inr (if x AND s \<noteq> 0 then x OR NOT (t - 1) else x AND (t - 1))))"

definition inRange :: "int \<Rightarrow> int \<Rightarrow> int \<Rightarrow> bool" where
  "inRange value mn mx \<longleftrightarrow> value \<ge> mn \<and> value \<le> mx"

definition AlignUp :: "u32 \<Rightarrow> u32 \<Rightarrow> u32 res" where
  "AlignUp n align = assertR (align AND (align - 1) = 0) (Inr ((n + (align - 1)) AND NOT (align - 1)))"

definition AlignDown :: "u32 \<Rightarrow> u32 \<Rightarrow> u32 res" where
  "AlignDown n align = assertR (align AND (align - 1) = 0) (Inr (n AND NOT (align - 1)))"

section \<open>What the helpers compute\<close>

lemma low_mask_eq: "push_bit n 1 - 1 = (mask n :: 'a::len word)"
  by (simp add: mask_eq_exp_minus_1 push_bit_eq_mult)

lemma bit_test: "(x AND push_bit n 1 \<noteq> 0) \<longleftrightarrow> bit x n" for x :: "'a::len word"
  by (simp add: bit_iff_and_push_bit_not_eq_0)



lemma bit_blend: "bit (blend m a b) i \<longleftrightarrow> (if bit m i then bit b i else bit a i)"
  by (auto simp: blend_def bit_simps)


text \<open>The sign extension \<open>(v ^ m) - m\<close> with \<open>m\<close> the sign bit of the field.\<close>

lemma xor_sub_sign:
  fixes v :: u32
  assumes "take_bit (Suc n) v = v"
  shows "(v XOR push_bit n 1) - push_bit n 1 = signed_take_bit n v"
proof -
  have x: "v XOR push_bit n 1 = (if bit v n then v - push_bit n 1 else v + push_bit n 1)"
  proof (cases "n < 32")
    case True
    have "v XOR push_bit n 1 = flip_bit n v" by (simp only: flip_bit_eq_xor)
    then show ?thesis using True by (simp add: flip_bit_eq_if unset_bit_eq set_bit_eq push_bit_eq_mult)
  next
    case False
    then have "(2 :: u32) ^ n = 0" by (simp add: exp_eq_zero_iff)
    then show ?thesis unfolding push_bit_eq_mult mult_1 by (simp only:) simp
  qed
  show ?thesis
    unfolding x signed_take_bit_code assms Let_def by (simp add: push_bit_eq_mult)
qed

text \<open>
  \<open>sign_ext\<close> is the two's complement extension of a field of the given width; a value with a
  bit above the field and a width above 32 fail their asserts, and a width of 0 shifts by too much.
\<close>

lemma sign_ext_value:
  "sign_ext v w = (if 32 < w then Inl Assert_Failed else if w = 0 then Inl Undefined_Shift
     else if unat v < 2 ^ w then Inr (signed_take_bit (w - 1) v) else Inl Assert_Failed)"
proof (cases "32 < w \<or> w = 0")
  case False
  have d: "bit (drop_bit (64 - w) (-1 :: u64)) i \<longleftrightarrow> i < w" for i using False by (auto simp: bit_simps)
  let ?x = "(ucast v :: u64) AND NOT (drop_bit (64 - w) (-1))"
  have b: "bit ?x i \<longleftrightarrow> bit v i \<and> \<not> i < w" for i
    using bit_mask_lt[of v i] d[of i] by (cases "i < 64") (auto simp: bit_simps)
  have "?x = 0 \<longleftrightarrow> (\<forall>i. \<not> bit ?x i)" by (metis bit_0_eq bit_eqI bot_apply bot_bool_def)
  then have "?x = 0 \<longleftrightarrow> (\<forall>i. bit v i \<longrightarrow> i < w)" unfolding b by simp
  also have "\<dots> \<longleftrightarrow> take_bit w v = v" by (auto simp: bit_eq_iff bit_simps)
  also have T: "take_bit w v = v \<longleftrightarrow> unat v < 2 ^ w"
  proof -
    have "take_bit w v = v \<longleftrightarrow> take_bit w (unat v) = unat v"
      by (metis unsigned_take_bit_eq unsigned_word_eqI)
    also have "\<dots> \<longleftrightarrow> unat v < 2 ^ w" by (rule take_bit_nat_eq_self_iff)
    finally show ?thesis .
  qed
  finally have t: "(ucast v :: u64) AND NOT (drop_bit (64 - w) (-1)) = 0 \<longleftrightarrow> unat v < 2 ^ w" .
  show ?thesis
  proof (cases "unat v < 2 ^ w")
    case True
    then have tv: "take_bit (Suc (w - 1)) v = v"
      using False T by simp
    show ?thesis unfolding sign_ext_def Let_def t xor_sub_sign[OF tv] using False True by simp
  next
    case F: False
    then show ?thesis unfolding sign_ext_def t using False by simp
  qed
qed (auto simp: sign_ext_def)

end
