(* ===== verification/Scalar_ISA.thy ===== *)
theory Scalar_ISA
  imports Operands Bit_Utils
begin

text \<open>
  The scalar instructions: SOP2 (isa/InstructionSOP2.cpp), SOPC (isa/InstructionSOPC.cpp), SOPK
  (isa/InstructionSOPK.cpp), SOP1 (isa/InstructionSOP1.cpp) and the control instructions SOPP
  (isa/InstructionSOPP.cpp). A handler reads and writes the scalar registers of the warp, or
  the operands of the instruction, in the order of the code. Signed arithmetic wraps, as it does
  in the unoptimised build. Their properties are in the theories Scalar_Facts and
  Branch_Facts.
\<close>

section \<open>SOP2\<close>

text \<open>The fields of the encoding that the handlers use.\<close>

record BytesSOP2 =
  sop2_ssrc0 :: u32
  sop2_ssrc1 :: u32
  sop2_sdst :: u32

text \<open>Only one of the sources may be a literal (encoded as \<open>0xFF\<close>).\<close>

definition SOP2_Decode :: "BytesSOP2 \<Rightarrow> Instruction \<Rightarrow> Instruction res" where
  "SOP2_Decode b ins =
     (let ins = ins\<lparr>ins_m_is_warp_op := True, ins_m_decoded := True\<rparr> in
      assertR (\<not> (sop2_ssrc0 b = 0xFF \<and> sop2_ssrc1 b = 0xFF))
        (Inr (ins\<lparr>ins_m_size := (if sop2_ssrc0 b = 0xFF \<or> sop2_ssrc1 b = 0xFF then 8 else 4)\<rparr>)))"

text \<open>The signed view of a register and the arithmetic shift of it.\<close>

abbreviation as_int :: "u32 \<Rightarrow> int" where
  "as_int x \<equiv> sint x"

definition S_ADD_U32 :: "coasm \<Rightarrow> BytesSOP2 \<Rightarrow> 'm WarpState \<Rightarrow> 'm WarpState res" where
  "S_ADD_U32 cfg b w =
     bindR (getSreg cfg (sop2_ssrc0 b) w) (\<lambda>s0.
     bindR (getSreg cfg (sop2_ssrc1 b) w) (\<lambda>s1.
     let sum = s0 + s1;
         carry = ucast (drop_bit 32 ((ucast s0 :: u64) + (ucast s1 :: u64)))
     in bindR (setSreg cfg (sop2_sdst b) sum w) (setSreg cfg (SREG_SCC cfg) carry)))"

definition S_ADD_I32 :: "coasm \<Rightarrow> BytesSOP2 \<Rightarrow> 'm WarpState \<Rightarrow> 'm WarpState res" where
  "S_ADD_I32 cfg b w =
     bindR (getSreg cfg (sop2_ssrc0 b) w) (\<lambda>s0.
     bindR (getSreg cfg (sop2_ssrc1 b) w) (\<lambda>s1.
     let sum = s0 + s1;
         ovf = (if signed_drop_bit 31 s0 \<noteq> signed_drop_bit 31 s1 then 0
                else of_bool ((0 <s s0 \<and> sum <s 0) \<or> (s0 <s 0 \<and> 0 <s sum)))
     in bindR (setSreg cfg (sop2_sdst b) sum w) (setSreg cfg (SREG_SCC cfg) ovf)))"

definition S_SUB_I32 :: "coasm \<Rightarrow> BytesSOP2 \<Rightarrow> 'm WarpState \<Rightarrow> 'm WarpState res" where
  "S_SUB_I32 cfg b w =
     bindR (getSreg cfg (sop2_ssrc0 b) w) (\<lambda>s0.
     bindR (getSreg cfg (sop2_ssrc1 b) w) (\<lambda>s1.
     let diff = s0 - s1;
         ovf = (if signed_drop_bit 31 s0 \<noteq> signed_drop_bit 31 s1
                then of_bool ((0 <s s0 \<and> diff <s 0) \<or> (s0 <s 0 \<and> 0 <s diff)) else 0)
     in bindR (setSreg cfg (sop2_sdst b) diff w) (setSreg cfg (SREG_SCC cfg) ovf)))"

definition S_MIN_U32 :: "coasm \<Rightarrow> BytesSOP2 \<Rightarrow> 'm WarpState \<Rightarrow> 'm WarpState res" where
  "S_MIN_U32 cfg b w =
     bindR (getSreg cfg (sop2_ssrc0 b) w) (\<lambda>s0.
     bindR (getSreg cfg (sop2_ssrc1 b) w) (\<lambda>s1.
     let (m, s0_min) = (if s0 < s1 then (s0, 1) else (s1, 0))
     in bindR (setSreg cfg (sop2_sdst b) m w) (setSreg cfg (SREG_SCC cfg) s0_min)))"

definition S_MAX_I32 :: "coasm \<Rightarrow> BytesSOP2 \<Rightarrow> 'm WarpState \<Rightarrow> 'm WarpState res" where
  "S_MAX_I32 cfg b w =
     bindR (getSreg cfg (sop2_ssrc0 b) w) (\<lambda>s0.
     bindR (getSreg cfg (sop2_ssrc1 b) w) (\<lambda>s1.
     let (m, s0_max) = (if s1 <s s0 then (s0, 1) else (s1, 0))
     in bindR (setSreg cfg (sop2_sdst b) m w) (setSreg cfg (SREG_SCC cfg) s0_max)))"

definition S_MAX_U32 :: "coasm \<Rightarrow> BytesSOP2 \<Rightarrow> 'm WarpState \<Rightarrow> 'm WarpState res" where
  "S_MAX_U32 cfg b w =
     bindR (getSreg cfg (sop2_ssrc0 b) w) (\<lambda>s0.
     bindR (getSreg cfg (sop2_ssrc1 b) w) (\<lambda>s1.
     let (m, s0_max) = (if s0 > s1 then (s0, 1) else (s1, 0))
     in bindR (setSreg cfg (sop2_sdst b) m w) (setSreg cfg (SREG_SCC cfg) s0_max)))"

definition S_CSELECT_B32 :: "coasm \<Rightarrow> BytesSOP2 \<Rightarrow> 'm WarpState \<Rightarrow> 'm WarpState res" where
  "S_CSELECT_B32 cfg b w =
     bindR (getSreg cfg (sop2_ssrc0 b) w) (\<lambda>s0.
     bindR (getSreg cfg (sop2_ssrc1 b) w) (\<lambda>s1.
     bindR (getSreg cfg (SREG_SCC cfg) w) (\<lambda>scc.
     setSreg cfg (sop2_sdst b) (if scc \<noteq> 0 then s0 else s1) w)))"

text \<open>
  The bitwise handlers share their steps: the 32-bit ones write the result and whether it is
  non-zero, the 64-bit ones do so for a register pair. \<open>check\<close> is the assert at their start.
\<close>

definition bitwise_B32 :: "bool \<Rightarrow> (u32 \<Rightarrow> u32 \<Rightarrow> u32) \<Rightarrow> coasm \<Rightarrow> BytesSOP2 \<Rightarrow> 'm WarpState \<Rightarrow> 'm WarpState res" where
  "bitwise_B32 check f cfg b w =
     assertR check
    (bindR (getSreg cfg (sop2_ssrc0 b) w) (\<lambda>s0.
     bindR (getSreg cfg (sop2_ssrc1 b) w) (\<lambda>s1.
     let result = f s0 s1; nonzero = of_bool (result \<noteq> 0)
     in bindR (setSreg cfg (sop2_sdst b) result w) (setSreg cfg (SREG_SCC cfg) nonzero))))"

definition bitwise_B64 :: "(u32 \<Rightarrow> u32 \<Rightarrow> u32) \<Rightarrow> coasm \<Rightarrow> BytesSOP2 \<Rightarrow> 'm WarpState \<Rightarrow> 'm WarpState res" where
  "bitwise_B64 f cfg b w =
     assertR (\<not> (sop2_ssrc0 b = 0xFF \<or> sop2_ssrc1 b = 0xFF))
    (bindR (getSreg cfg (sop2_ssrc0 b) w) (\<lambda>s0_lo.
     bindR (getSreg cfg (sop2_ssrc0 b + 1) w) (\<lambda>s0_hi.
     bindR (getSreg cfg (sop2_ssrc1 b) w) (\<lambda>s1_lo.
     bindR (getSreg cfg (sop2_ssrc1 b + 1) w) (\<lambda>s1_hi.
     let result_lo = f s0_lo s1_lo; result_hi = f s0_hi s1_hi;
         nonzero = of_bool (result_lo \<noteq> 0 \<or> result_hi \<noteq> 0)
     in bindR (setSreg cfg (sop2_sdst b) result_lo w) (\<lambda>w.
        bindR (setSreg cfg (sop2_sdst b + 1) result_hi w)
          (setSreg cfg (SREG_SCC cfg) nonzero)))))))"

definition one_literal :: "BytesSOP2 \<Rightarrow> bool" where
  "one_literal b \<longleftrightarrow> \<not> (sop2_ssrc0 b = 0xFF \<and> sop2_ssrc1 b = 0xFF)"

definition S_AND_B32 :: "coasm \<Rightarrow> BytesSOP2 \<Rightarrow> 'm WarpState \<Rightarrow> 'm WarpState res" where
  "S_AND_B32 cfg b = bitwise_B32 (one_literal b) (AND) cfg b"

definition S_AND_B64 :: "coasm \<Rightarrow> BytesSOP2 \<Rightarrow> 'm WarpState \<Rightarrow> 'm WarpState res" where
  "S_AND_B64 = bitwise_B64 (AND)"

definition S_OR_B32 :: "coasm \<Rightarrow> BytesSOP2 \<Rightarrow> 'm WarpState \<Rightarrow> 'm WarpState res" where
  "S_OR_B32 = bitwise_B32 True (OR)"

definition S_OR_B64 :: "coasm \<Rightarrow> BytesSOP2 \<Rightarrow> 'm WarpState \<Rightarrow> 'm WarpState res" where
  "S_OR_B64 = bitwise_B64 (OR)"

definition S_XOR_B64 :: "coasm \<Rightarrow> BytesSOP2 \<Rightarrow> 'm WarpState \<Rightarrow> 'm WarpState res" where
  "S_XOR_B64 = bitwise_B64 (XOR)"

definition S_ANDN2_B64 :: "coasm \<Rightarrow> BytesSOP2 \<Rightarrow> 'm WarpState \<Rightarrow> 'm WarpState res" where
  "S_ANDN2_B64 = bitwise_B64 (\<lambda>s0 s1. s0 AND NOT s1)"

definition S_NAND_B64 :: "coasm \<Rightarrow> BytesSOP2 \<Rightarrow> 'm WarpState \<Rightarrow> 'm WarpState res" where
  "S_NAND_B64 = bitwise_B64 (\<lambda>s0 s1. NOT (s0 AND s1))"

text \<open>The shift amount of the scalar shifts is masked to five bits.\<close>

definition S_LSHL_B32 :: "coasm \<Rightarrow> BytesSOP2 \<Rightarrow> 'm WarpState \<Rightarrow> 'm WarpState res" where
  "S_LSHL_B32 = bitwise_B32 True (\<lambda>s0 s1. push_bit (unat (s1 AND 0x1F)) s0)"

definition S_LSHR_B32 :: "coasm \<Rightarrow> BytesSOP2 \<Rightarrow> 'm WarpState \<Rightarrow> 'm WarpState res" where
  "S_LSHR_B32 cfg b = bitwise_B32 (one_literal b) (\<lambda>s0 s1. drop_bit (unat (s1 AND 0x1F)) s0) cfg b"

definition S_ASHR_I32 :: "coasm \<Rightarrow> BytesSOP2 \<Rightarrow> 'm WarpState \<Rightarrow> 'm WarpState res" where
  "S_ASHR_I32 cfg b =
     bitwise_B32 (one_literal b) (\<lambda>s0 s1. signed_drop_bit (unat (s1 AND 0x1F)) s0) cfg b"

definition S_MUL_I32 :: "coasm \<Rightarrow> BytesSOP2 \<Rightarrow> 'm WarpState \<Rightarrow> 'm WarpState res" where
  "S_MUL_I32 cfg b w =
     assertR (one_literal b)
    (bindR (getSreg cfg (sop2_ssrc0 b) w) (\<lambda>s0.
     bindR (getSreg cfg (sop2_ssrc1 b) w) (\<lambda>s1.
     setSreg cfg (sop2_sdst b) (s0 * s1) w)))"

text \<open>Bit-field extraction: offset in the bits 4:0 and width in the bits 22:16 of the second source.\<close>

definition bfe_i32 :: "u32 \<Rightarrow> u32 \<Rightarrow> u32 \<Rightarrow> u32" where
  "bfe_i32 s0 s1 s2 =
     (if s2 = 0 then 0
      else if s2 + s1 < 32 then
        signed_drop_bit (unat (32 - s2)) (push_bit (unat (32 - s1 - s2)) s0)
      else signed_drop_bit (unat s1) s0)"

definition S_BFE_I32 :: "coasm \<Rightarrow> BytesSOP2 \<Rightarrow> 'm WarpState \<Rightarrow> 'm WarpState res" where
  "S_BFE_I32 cfg b w =
     bindR (getSreg cfg (sop2_ssrc0 b) w) (\<lambda>s0.
     bindR (getSreg cfg (sop2_ssrc1 b) w) (\<lambda>full_reg.
     let s1 = full_reg AND 0x1F; s2 = drop_bit 16 full_reg AND 0x7F;
         result = bfe_i32 s0 s1 s2; nonzero = of_bool (result \<noteq> 0)
     in bindR (setSreg cfg (sop2_sdst b) result w) (setSreg cfg (SREG_SCC cfg) nonzero)))"


section \<open>SOPC\<close>

record BytesSOPC =
  sopc_ssrc0 :: u32
  sopc_ssrc1 :: u32
  sopc_lit_const :: u32

text \<open>Both branches of the code set the size to 8.\<close>

definition SOPC_Decode :: "BytesSOPC \<Rightarrow> Instruction \<Rightarrow> Instruction" where
  "SOPC_Decode b ins =
     (let ins = ins\<lparr>ins_m_is_warp_op := True, ins_m_decoded := True\<rparr> in
      if sopc_ssrc0 b = 0xFF \<or> sopc_ssrc1 b = 0xFF then ins\<lparr>ins_m_size := 8\<rparr> else ins\<lparr>ins_m_size := 8\<rparr>)"

definition literal_or_sreg :: "coasm \<Rightarrow> BytesSOPC \<Rightarrow> u32 \<Rightarrow> 'm WarpState \<Rightarrow> u32 res" where
  "literal_or_sreg cfg b src w = (if src = 0xFF then Inr (sopc_lit_const b) else getSreg cfg src w)"

definition S_CMP :: "(u32 \<Rightarrow> u32 \<Rightarrow> bool) \<Rightarrow> coasm \<Rightarrow> BytesSOPC \<Rightarrow> 'm WarpState \<Rightarrow> 'm WarpState res" where
  "S_CMP rel cfg b w =
     assertR (\<not> (sopc_ssrc0 b = 0xFF \<and> sopc_ssrc1 b = 0xFF))
    (bindR (literal_or_sreg cfg b (sopc_ssrc0 b) w) (\<lambda>s0.
     bindR (literal_or_sreg cfg b (sopc_ssrc1 b) w) (\<lambda>s1.
     setSreg cfg (SREG_SCC cfg) (of_bool (rel s0 s1)) w)))"

definition S_CMP_EQ_I32 :: "coasm \<Rightarrow> BytesSOPC \<Rightarrow> 'm WarpState \<Rightarrow> 'm WarpState res" where
  "S_CMP_EQ_I32 = S_CMP (\<lambda>s0 s1. sint s0 = sint s1)"

definition S_CMP_GT_I32 :: "coasm \<Rightarrow> BytesSOPC \<Rightarrow> 'm WarpState \<Rightarrow> 'm WarpState res" where
  "S_CMP_GT_I32 = S_CMP (\<lambda>s0 s1. sint s0 > sint s1)"

definition S_CMP_GE_I32 :: "coasm \<Rightarrow> BytesSOPC \<Rightarrow> 'm WarpState \<Rightarrow> 'm WarpState res" where
  "S_CMP_GE_I32 = S_CMP (\<lambda>s0 s1. sint s0 \<ge> sint s1)"

definition S_CMP_LT_I32 :: "coasm \<Rightarrow> BytesSOPC \<Rightarrow> 'm WarpState \<Rightarrow> 'm WarpState res" where
  "S_CMP_LT_I32 = S_CMP (\<lambda>s0 s1. sint s0 < sint s1)"

definition S_CMP_LE_I32 :: "coasm \<Rightarrow> BytesSOPC \<Rightarrow> 'm WarpState \<Rightarrow> 'm WarpState res" where
  "S_CMP_LE_I32 = S_CMP (\<lambda>s0 s1. sint s0 \<le> sint s1)"

definition S_CMP_GT_U32 :: "coasm \<Rightarrow> BytesSOPC \<Rightarrow> 'm WarpState \<Rightarrow> 'm WarpState res" where
  "S_CMP_GT_U32 = S_CMP (\<lambda>s0 s1. s0 > s1)"

definition S_CMP_GE_U32 :: "coasm \<Rightarrow> BytesSOPC \<Rightarrow> 'm WarpState \<Rightarrow> 'm WarpState res" where
  "S_CMP_GE_U32 = S_CMP (\<lambda>s0 s1. s0 \<ge> s1)"

definition S_CMP_LE_U32 :: "coasm \<Rightarrow> BytesSOPC \<Rightarrow> 'm WarpState \<Rightarrow> 'm WarpState res" where
  "S_CMP_LE_U32 = S_CMP (\<lambda>s0 s1. s0 \<le> s1)"

section \<open>SOPK\<close>

record BytesSOPK =
  sopk_simm16 :: u16
  sopk_sdst :: u32

definition SOPK_Decode :: "Instruction \<Rightarrow> Instruction" where
  "SOPK_Decode ins = ins\<lparr>ins_m_size := 4, ins_m_is_warp_op := True, ins_m_decoded := True\<rparr>"

definition S_MOVK_I32 :: "coasm \<Rightarrow> BytesSOPK \<Rightarrow> 'm WarpState \<Rightarrow> 'm WarpState res" where
  "S_MOVK_I32 cfg b w = setSreg cfg (sopk_sdst b) (scast (sopk_simm16 b)) w"

definition S_CMPK_LE_U32 :: "'m WarpState \<Rightarrow> 'm WarpState res" where
  "S_CMPK_LE_U32 w = Inr w"

definition S_ADDK_I32 :: "coasm \<Rightarrow> BytesSOPK \<Rightarrow> 'm WarpState \<Rightarrow> 'm WarpState res" where
  "S_ADDK_I32 cfg b w =
     (let se_simm16 = scast (sopk_simm16 b) :: u32 in
      bindR (getSreg cfg (sopk_sdst b) w) (\<lambda>dst.
      let sum = dst + se_simm16;
          ovf = (if signed_drop_bit 31 dst \<noteq> signed_drop_bit 31 se_simm16 then 0
                 else of_bool ((0 <s dst \<and> sum <s 0) \<or> (dst <s 0 \<and> 0 <s sum)))
      in bindR (setSreg cfg (sopk_sdst b) sum w) (setSreg cfg (SREG_SCC cfg) ovf)))"

definition S_MULK_I32 :: "coasm \<Rightarrow> BytesSOPK \<Rightarrow> 'm WarpState \<Rightarrow> 'm WarpState res" where
  "S_MULK_I32 cfg b w =
     (let se_simm16 = scast (sopk_simm16 b) :: u32 in
      bindR (getSreg cfg (sopk_sdst b) w) (\<lambda>dst.
      let product = dst * se_simm16;
          ovf = of_bool (sint product < sint dst * sint se_simm16)
      in bindR (setSreg cfg (sopk_sdst b) product w) (setSreg cfg (SREG_SCC cfg) ovf)))"

section \<open>SOP1\<close>

record BytesSOP1 =
  sop1_op :: u32
  sop1_ssrc0 :: u32
  sop1_sdst :: u32
  sop1_ext_enc :: u32

text \<open>The opcode numbers come from the generated opcode table.\<close>

record OpcodeSOP1 =
  OP_S_MOV_B64 :: u32
  OP_S_WQM_B64 :: u32
  OP_S_SWAPPC_B64 :: u32
  OP_S_AND_SAVEEXEC_B64 :: u32

definition SOP1_Decode :: "OpcodeSOP1 \<Rightarrow> BytesSOP1 \<Rightarrow> Instruction \<Rightarrow> Instruction" where
  "SOP1_Decode opc b ins =
     (let ins = ins\<lparr>ins_m_is_warp_op := True, ins_m_decoded := True,
            ins_m_size := (if sop1_ext_enc b = 0x7 then 8 else 4),
            ins_num_dst_operands := 1, ins_num_src_operands := 1\<rparr>;
          reg_range = (if sop1_op b = OP_S_MOV_B64 opc \<or> sop1_op b = OP_S_WQM_B64 opc \<or>
                          sop1_op b = OP_S_SWAPPC_B64 opc \<or> sop1_op b = OP_S_AND_SAVEEXEC_B64 opc
                       then 2 else 1)
      in makeOperand_reg DST (mk_Reg (sop1_sdst b) reg_range Scalar 0)
        (makeOperand_reg SRC0 (mk_Reg (sop1_ssrc0 b) reg_range Scalar 0) ins))"

definition S_MOV_B64 :: "Instruction \<Rightarrow> Instruction res" where
  "S_MOV_B64 ins =
     bindR (getOperand SRC0 ins) (\<lambda>src. bindR (getValueX src (-1)) (\<lambda>s0.
     modify_operand DST (setValueX s0 (-1)) ins))"

definition S_MOV_B32 :: "Instruction \<Rightarrow> Instruction res" where
  "S_MOV_B32 ins =
     bindR (getOperand SRC0 ins) (\<lambda>src. bindR (getValue src (-1)) (\<lambda>s0.
     modify_operand DST (setValue s0 (-1)) ins))"

definition S_NOT_B32 :: "Instruction \<Rightarrow> Instruction res" where
  "S_NOT_B32 ins =
     bindR (getOperand SRC0 ins) (\<lambda>src. bindR (getValue src (-1)) (\<lambda>s0.
     modify_operand DST (setValue (NOT s0) (-1)) ins))"

definition S_WQM_B64 :: "'m WarpState \<Rightarrow> 'm WarpState res" where
  "S_WQM_B64 w = Inr w"

definition S_SWAPPC_B64 :: "coasm \<Rightarrow> BytesSOP1 \<Rightarrow> u32 \<Rightarrow> 'm WarpState \<Rightarrow> 'm WarpState res" where
  "S_SWAPPC_B64 cfg b lane_id w =
     bindR (getSreg cfg (sop1_ssrc0 b) w) (\<lambda>s0_lo.
     bindR (getSreg cfg (sop1_ssrc0 b + 1) w) (\<lambda>s0_hi.
     bindR (getWarpPC lane_id w) (\<lambda>pc.
     bindR (setSreg cfg (sop1_sdst b) (ucast (pc + 4)) w) (\<lambda>w.
     bindR (setSreg cfg (sop1_sdst b + 1) 0 w) (\<lambda>w.
     setWarpPC (ucast (s0_lo - 4)) w)))))"

definition S_AND_SAVEEXEC_B64 :: "coasm \<Rightarrow> BytesSOP1 \<Rightarrow> 'm WarpState \<Rightarrow> 'm WarpState res" where
  "S_AND_SAVEEXEC_B64 cfg b w =
     assertR (\<not> sop1_ssrc0 b = 0xFF)
    (bindR (getSreg cfg (SREG_EXEC cfg) w) (\<lambda>exec_lo.
     bindR (getSreg cfg (SREG_EXEC cfg + 1) w) (\<lambda>exec_hi.
     bindR (getSreg cfg (sop1_ssrc0 b) w) (\<lambda>s0_lo.
     bindR (getSreg cfg (sop1_ssrc0 b + 1) w) (\<lambda>s0_hi.
     let exec_new_lo = s0_lo AND exec_lo; exec_new_hi = s0_hi AND exec_hi;
         nonzero = of_bool (exec_new_lo \<noteq> 0 \<or> exec_new_hi \<noteq> 0)
     in bindR (setSreg cfg (sop1_sdst b) exec_lo w) (\<lambda>w.
        bindR (setSreg cfg (sop1_sdst b + 1) exec_hi w) (\<lambda>w.
        bindR (setSreg cfg (SREG_EXEC cfg) exec_new_lo w) (\<lambda>w.
        bindR (setSreg cfg (SREG_EXEC cfg + 1) exec_new_hi w)
          (setSreg cfg (SREG_SCC cfg) nonzero)))))))))"


section \<open>SOPP\<close>

record BytesSOPP =
  sopp_op :: u32
  sopp_tcc :: u32
  sopp_simm12 :: u32
  sopp_ext_enc :: u32

record OpcodeSOPP =
  OP_T_EXIT :: u32
  OP_T_NOP :: u32
  OP_T_CBRANCH_TCCZ :: u32
  OP_T_CBRANCH_TCCNZ :: u32
  OP_T_CBRANCH_EXECZ :: u32
  OP_T_CBRANCH_EXECNZ :: u32
  OP_S_BRANCH :: u32
  OP_BAR_SYNC :: u32

text \<open>The branch operations are an initial range of the opcode numbers.\<close>

definition SOPP_Decode :: "coasm \<Rightarrow> OpcodeSOPP \<Rightarrow> BytesSOPP \<Rightarrow> Instruction \<Rightarrow> Instruction res" where
  "SOPP_Decode cfg opc b ins =
     (let op = sopp_op b;
          ins = ins\<lparr>ins_m_decoded := True,
            ins_m_size := (if sopp_ext_enc b = COMMON_ENC_ext1_enc cfg then 8 else 4),
            ins_m_is_warp_op := True, ins_num_dst_operands := 0, ins_num_src_operands := 1\<rparr>;
          ins = (if op = OP_T_EXIT opc \<or> op = OP_T_NOP opc \<or> op = OP_T_CBRANCH_TCCZ opc \<or>
                    op = OP_T_CBRANCH_TCCNZ opc \<or> op = OP_T_CBRANCH_EXECZ opc \<or>
                    op = OP_T_CBRANCH_EXECNZ opc
                 then ins\<lparr>ins_m_is_warp_op := False, ins_num_src_operands := 0\<rparr> else ins)
      in bindR
        (if op \<le> OP_S_BRANCH opc then
           bindR (sign_ext (sopp_simm12 b) (COMMON_ENC_max_simm12_width cfg)) (\<lambda>simm.
           let ins = makeOperand_imm SRC0 simm ins in
           if op \<le> OP_T_CBRANCH_EXECNZ opc then
             Inr ((makeOperand_reg SRC1 (mk_Reg (sopp_tcc b + SREG_TCC cfg) 1 TCC 0) ins)
                  \<lparr>ins_num_src_operands := 2\<rparr>)
           else Inr ins)
         else Inr ins) (\<lambda>ins.
        Inr (if op = OP_BAR_SYNC opc then
               makeOperand_imm SRC1 (sopp_simm12 b) (makeOperand_imm SRC0 (sopp_tcc b) ins)
             else ins)))"

definition T_EXIT :: "u32 \<Rightarrow> 'm WarpState \<Rightarrow> 'm WarpState res" where
  "T_EXIT lane_id w = setFinished lane_id w"

definition S_BRANCH :: "Instruction \<Rightarrow> u32 \<Rightarrow> 'm WarpState \<Rightarrow> 'm WarpState res" where
  "S_BRANCH ins lane_id w =
     bindR (getOperand SRC0 ins) (\<lambda>op0. bindR (getValue op0 (-1)) (\<lambda>simm. incWarpPC simm lane_id w))"

text \<open>The condition of a branch is the bit of the lane in the condition register.\<close>

definition cbranch :: "bool \<Rightarrow> Instruction \<Rightarrow> u32 \<Rightarrow> 'm WarpState \<Rightarrow> 'm WarpState res" where
  "cbranch taken_if ins lane_id w =
     bindR (getOperand SRC0 ins) (\<lambda>op0. bindR (getValue op0 (-1)) (\<lambda>simm.
     bindR (getOperand SRC1 ins) (\<lambda>op1. bindR (getValue op1 (-1)) (\<lambda>cc.
     bindR (shl32 1 lane_id) (\<lambda>m.
     if (cc AND m \<noteq> 0) = taken_if then incThreadPC simm lane_id w else Inr w)))))"

definition T_CBRANCH_TCCZ :: "Instruction \<Rightarrow> u32 \<Rightarrow> 'm WarpState \<Rightarrow> 'm WarpState res" where
  "T_CBRANCH_TCCZ = cbranch False"

definition T_CBRANCH_TCCNZ :: "Instruction \<Rightarrow> u32 \<Rightarrow> 'm WarpState \<Rightarrow> 'm WarpState res" where
  "T_CBRANCH_TCCNZ = cbranch True"

definition S_CBRANCH_SCCZ :: "Instruction \<Rightarrow> u32 \<Rightarrow> 'm WarpState \<Rightarrow> 'm WarpState res" where
  "S_CBRANCH_SCCZ = cbranch False"

definition S_CBRANCH_SCCNZ :: "Instruction \<Rightarrow> u32 \<Rightarrow> 'm WarpState \<Rightarrow> 'm WarpState res" where
  "S_CBRANCH_SCCNZ = cbranch True"

definition T_CBRANCH_EXECZ :: "'m WarpState \<Rightarrow> 'm WarpState res" where
  "T_CBRANCH_EXECZ w = Inr w"

definition T_CBRANCH_EXECNZ :: "'m WarpState \<Rightarrow> 'm WarpState res" where
  "T_CBRANCH_EXECNZ w = Inr w"

definition S_BARRIER :: "'m WarpState \<Rightarrow> 'm WarpState res" where
  "S_BARRIER w = Inr w"

definition S_WAITCNT :: "'m WarpState \<Rightarrow> 'm WarpState res" where
  "S_WAITCNT w = Inr (SetMemoryWait True w)"

definition S_PHI :: "'m WarpState \<Rightarrow> 'm WarpState res" where
  "S_PHI w = Inr w"

text \<open>The barrier instruction reads its two operands and does nothing with them.\<close>

definition BAR_SYNC :: "'m WarpState \<Rightarrow> 'm WarpState res" where
  "BAR_SYNC w = Inr w"

definition T_NOP :: "'m WarpState \<Rightarrow> 'm WarpState res" where
  "T_NOP w = Inr w"

section \<open>SLS\<close>

record BytesSLS =
  sls_imm :: u32
  sls_sbase :: u32
  sls_offset :: u32
  sls_sdst :: u32

definition SLS_Decode :: "Instruction \<Rightarrow> Instruction" where
  "SLS_Decode ins = ins\<lparr>ins_m_size := 4, ins_m_is_warp_op := True, ins_m_decoded := True\<rparr>"

text \<open>
  A scalar load of \<open>n\<close> words: each word is read from memory and written to the next register
  before the next one is read; the address is cut to 32 bits. \<open>access_size\<close> is what is recorded
  as the size of the access.
\<close>

definition sls_load :: "nat \<Rightarrow> u64 \<Rightarrow> coasm \<Rightarrow> BytesSLS \<Rightarrow> 'm WarpState \<Rightarrow> 'm WarpState res" where
  "sls_load n access_size cfg b w =
     (let w = w\<lparr>wst_smem_read_counter := wst_smem_read_counter w + 1\<rparr> in
      assertR (sls_imm b \<noteq> 0)
     (bindR (getSregMemPtr cfg (push_bit 1 (sls_sbase b)) w) (\<lambda>memory_pointer.
      let m_base = ucast (mem_ptr_addr memory_pointer) :: u32;
          m_addr = m_base + sls_offset b * 4
      in assertR (m_addr AND 3 = 0)
        (bindR (forR n (\<lambda>i w.
            setSreg cfg (sls_sdst b + of_nat i)
              (bytes_u32 (readSMEM (ucast (m_addr + of_nat i * 4)) 4 undefined_space w)) w) w) (\<lambda>w.
         Inr (w\<lparr>wst_global_memory_access_address := ucast m_addr,
               wst_global_memory_access_size := access_size\<rparr>))))))"

definition S_LOAD_DWORD :: "coasm \<Rightarrow> BytesSLS \<Rightarrow> 'm WarpState \<Rightarrow> 'm WarpState res" where
  "S_LOAD_DWORD = sls_load 1 (4 * 2)"

definition S_LOAD_DWORDX2 :: "coasm \<Rightarrow> BytesSLS \<Rightarrow> 'm WarpState \<Rightarrow> 'm WarpState res" where
  "S_LOAD_DWORDX2 = sls_load 2 (4 * 2)"

definition S_LOAD_DWORDX4 :: "coasm \<Rightarrow> BytesSLS \<Rightarrow> 'm WarpState \<Rightarrow> 'm WarpState res" where
  "S_LOAD_DWORDX4 = sls_load 4 (4 * 4)"

definition S_LOAD_DWORDX8 :: "coasm \<Rightarrow> BytesSLS \<Rightarrow> 'm WarpState \<Rightarrow> 'm WarpState res" where
  "S_LOAD_DWORDX8 = sls_load 8 (4 * 8)"

definition S_LOAD_DWORDX16 :: "coasm \<Rightarrow> BytesSLS \<Rightarrow> 'm WarpState \<Rightarrow> 'm WarpState res" where
  "S_LOAD_DWORDX16 = sls_load 16 (4 * 16)"

end
