(* ===== verification/Sample_State.thy ===== *)
theory Sample_State
  imports Warp_State
begin

text \<open>
  A concrete warp, small enough to evaluate: 128 scalar registers, 8 vector registers of 32
  lanes, 4 kernel constants and a byte memory that is a function. The examples of the
  properties of the instruction theories are runs on it.
\<close>

definition sample_block :: BlockState where
  "sample_block = \<lparr>bs_bar_threads = 0, bs_uid = 1, bs_cta_id = mk_dim3 0 0 0, bs_threads_in_cta = {},
     bs_threads_that_have_exited = {}, bs_dangling_pointers = {}, bs_bar_slot = [], bs_bar_status = [],
     bs_bar_expected = [], bs_bar_counter = [], bs_bar_count = 0, bs_block_warp_count = 1,
     bs_warp_at_bar = []\<rparr>"

definition sample_thread :: "nat \<Rightarrow> ThreadItem" where
  "sample_thread i = \<lparr>ti_PC = 100, ti_NPC = 104, ti_RPC = 0, ti_RPC_updated = False, ti_last_was_call = False,
     ti_barrier_num = 0, ti_at_barrier = False, ti_valid = True, ti_thread_done = False,
     ti_branch_taken = False, ti_leading_thread = False, ti_status = ThreadItemStatusActive,
     ti_laneId = of_nat i, ti_hw_sid = 0, ti_hw_ctaid = 0, ti_hw_wid = 0, ti_hw_tid = of_nat i,
     ti_tid = mk_dim3 (of_nat i) 0 0, ti_ntid = mk_dim3 32 1 1, ti_ctaid = mk_dim3 0 0 0,
     ti_nctaid = mk_dim3 1 1 1\<rparr>"

definition bytes_read :: "u64 \<Rightarrow> nat \<Rightarrow> (u64 \<Rightarrow> u8) \<Rightarrow> u8 list" where
  "bytes_read addr n m = map (\<lambda>i. m (addr + of_nat i)) [0..<n]"

fun bytes_write :: "u64 \<Rightarrow> u8 list \<Rightarrow> (u64 \<Rightarrow> u8) \<Rightarrow> (u64 \<Rightarrow> u8)" where
  "bytes_write addr [] m = m"
| "bytes_write addr (b # bs) m = bytes_write (addr + 1) bs (m(addr := b))"

definition sample_warp :: "(u64 \<Rightarrow> u8) WarpState" where
  "sample_warp = \<lparr>wst_sreg_num = 128, wst_vreg_num = 8, wst_kernel_const_reg_num = 4, wst_warp_size = 32,
     wst_sreg = map (\<lambda>i. of_nat i) [0..<128], wst_vreg = map (\<lambda>i. of_nat i) [0..<256],
     wst_const_buffer = [10, 20, 30, 40], wst_status = replicate 32 W_READY, wst_is_blocking = False,
     wst_warp_id = 0, wst_active_mask = 0xFFFFFFFF, wst_tb_state = sample_block,
     wst_thread = map (\<lambda>i. Some (sample_thread i)) [0..<32],
     wst_local_mem_stack_pointer = 0, wst_global_memory_access_address = 0,
     wst_global_memory_access_size = 0, wst_smem_read_counter = 0,
     wst_vector_memory_global_coherency = False, wst_scalar_memory_read = False,
     wst_vector_memory_read = False, wst_vector_memory_write = False, wst_memory_wait = False,
     wst_memory = ucast, wst_dsm_read = bytes_read, wst_dsm_write = bytes_write,
     wst_mem_read = (\<lambda>_. bytes_read), wst_mem_write = (\<lambda>_. bytes_write)\<rparr>"

text \<open>Each register holds its number; the ones below 64 can be written.\<close>

lemma sample_sreg [simp]: "r < 64 \<Longrightarrow> getSreg sample_cfg r sample_warp = Inr r"
proof -
  assume r: "r < 64"
  then have "unat r < 64" using unat_mono by fastforce
  then show ?thesis using r by (simp add: getSreg_def sample_cfg_def sample_warp_def vec_get_def)
qed

lemma sample_writable [simp]: "r < 64 \<Longrightarrow> sreg_writable sample_cfg sample_warp r"
proof -
  assume r: "r < 64"
  then have "unat r < 64" using unat_mono by fastforce
  moreover have "r < 256" using r by (rule order_less_trans) simp
  ultimately show ?thesis using r by (auto simp: sreg_writable_def sample_cfg_def sample_warp_def)
qed

lemma sample_SCC [simp]: "SREG_SCC sample_cfg = 46"
  by (simp add: sample_cfg_def)

lemma sample_vreg: "r < 8 \<Longrightarrow> l < 32 \<Longrightarrow> getVreg r l sample_warp = Inr (r * 32 + l)" "r < 8 \<Longrightarrow> l < 32 \<Longrightarrow> vreg_writable sample_warp (r, l)"
proof -
  assume "r < 8" "l < 32"
  moreover from this have "unat (r * 32 + l) < 256"
    using vreg_index[of r 8 l 32] by simp
  ultimately show "getVreg r l sample_warp = Inr (r * 32 + l)" "vreg_writable sample_warp (r, l)"
    by (simp_all add: getVreg_def sample_warp_def vec_get_def vreg_writable_def)
qed

end
