(* ===== verification/Scalar_Facts.thy ===== *)
theory Scalar_Facts
  imports Scalar_ISA Sample_State
begin

text \<open>
  What the scalar handlers compute: the exact result and flag of the arithmetic, the equivalence
  of comparison and selection with the maximum, bit-field extraction and scalar
  loads. The register file enters only through its
  contract, the interpretation \<open>sregs\<close>.
\<close>

section \<open>Arithmetic\<close>

text \<open>The two writes at the end of most handlers: the result and the condition code.\<close>

lemma result_and_scc:
  assumes "sreg_writable cfg w d" "sreg_writable cfg w (SREG_SCC cfg)" "d \<noteq> SREG_SCC cfg"
  shows "\<exists>w'. bindR (setSreg cfg d v w) (setSreg cfg (SREG_SCC cfg) c) = Inr w' \<and>
    getSreg cfg d w' = Inr v \<and> getSreg cfg (SREG_SCC cfg) w' = Inr c \<and>
    (\<forall>r. r \<noteq> d \<longrightarrow> r \<noteq> SREG_SCC cfg \<longrightarrow> getSreg cfg r w' = getSreg cfg r w)"
  using sregs.put_two[OF assms(1,2), of v c] assms(3) by auto

text \<open>
  The unsigned addition is exact: the result and the carry together are the sum of the
  sources, and no other register changes.
\<close>

lemma S_ADD_U32_exact:
  assumes "getSreg cfg (sop2_ssrc0 b) w = Inr x" "getSreg cfg (sop2_ssrc1 b) w = Inr y"
    and "sreg_writable cfg w (sop2_sdst b)" "sreg_writable cfg w (SREG_SCC cfg)" "sop2_sdst b \<noteq> SREG_SCC cfg"
  shows "\<exists>w' s c. S_ADD_U32 cfg b w = Inr w' \<and> getSreg cfg (sop2_sdst b) w' = Inr s \<and>
    getSreg cfg (SREG_SCC cfg) w' = Inr c \<and> unat s + 2 ^ 32 * unat c = unat x + unat y \<and>
    (\<forall>r. r \<noteq> sop2_sdst b \<longrightarrow> r \<noteq> SREG_SCC cfg \<longrightarrow> getSreg cfg r w' = getSreg cfg r w)"
proof -
  have X: "unat x < 2 ^ 32" "unat y < 2 ^ 32" using unsigned_less[of x] unsigned_less[of y] by simp_all
  have sum64: "unat ((ucast x :: u64) + ucast y) = unat x + unat y"
    using X by (simp add: unat_word_ariths unsigned_ucast_eq take_bit_nat_eq_self)
  have "unat (drop_bit 32 ((ucast x :: u64) + ucast y)) = (unat x + unat y) div 2 ^ 32"
    unfolding unsigned_drop_bit_eq sum64 using X by (simp add: drop_bit_eq_div take_bit_nat_eq_self)
  moreover have "(unat x + unat y) div 2 ^ 32 < 2 ^ 32" using X by (simp add: less_mult_imp_div_less)
  ultimately have carry: "unat (ucast (drop_bit 32 ((ucast x :: u64) + ucast y)) :: u32) = (unat x + unat y) div 2 ^ 32"
    by (simp add: unsigned_ucast_eq take_bit_nat_eq_self)
  have "unat (x + y) + 2 ^ 32 * ((unat x + unat y) div 2 ^ 32) = unat x + unat y"
    by (simp add: unat_word_ariths)
  with carry result_and_scc[OF assms(3-5), of "x + y" "ucast (drop_bit 32 ((ucast x :: u64) + ucast y))"]
  show ?thesis using assms(1,2) by (auto simp: S_ADD_U32_def)
qed

lemma S_ADD_U32_exact_witness:
  "let b = \<lparr>sop2_ssrc0 = 3, sop2_ssrc1 = 7, sop2_sdst = 5\<rparr> in
   \<exists>w' s c. S_ADD_U32 sample_cfg b sample_warp = Inr w' \<and> getSreg sample_cfg (sop2_sdst b) w' = Inr s \<and>
    getSreg sample_cfg (SREG_SCC sample_cfg) w' = Inr c \<and> unat s + 2 ^ 32 * unat c = unat (3 :: u32) + unat (7 :: u32) \<and>
    (\<forall>r. r \<noteq> sop2_sdst b \<longrightarrow> r \<noteq> SREG_SCC sample_cfg \<longrightarrow>
       getSreg sample_cfg r w' = getSreg sample_cfg r sample_warp)"
  unfolding Let_def by (rule S_ADD_U32_exact) simp_all

section \<open>Overflow flags\<close>

lemma sint_add:
  fixes x y :: u32
  shows "sint (x + y) = (if sint x + sint y \<ge> 2 ^ 31 then sint x + sint y - 2 ^ 32
    else if sint x + sint y < - (2 ^ 31) then sint x + sint y + 2 ^ 32 else sint x + sint y)"
proof -
  define z where "z = sint x + sint y"
  have z: "- (2 ^ 32) \<le> z" "z < 2 ^ 32 - 1"
    using sint_lt[of x] sint_lt[of y] sint_ge[of x] sint_ge[of y] by (simp_all add: z_def)
  have "sint (x + y) = (z + 2 ^ 31) mod 2 ^ 32 - 2 ^ 31"
    by (simp add: sint_word_ariths z_def signed_take_bit_eq_take_bit_shift take_bit_eq_mod)
  moreover have "(z + 2 ^ 31) mod 2 ^ 32 = z + 2 ^ 31 - 2 ^ 32" if "z \<ge> 2 ^ 31"
    using z that mod_pos_pos_trivial[of "z + 2 ^ 31 - 2 ^ 32" "2 ^ 32"] minus_mod_self2[of "z + 2 ^ 31" "2 ^ 32"]
    by simp
  moreover have "(z + 2 ^ 31) mod 2 ^ 32 = z + 2 ^ 31 + 2 ^ 32" if "z < - (2 ^ 31)"
    using z that mod_pos_pos_trivial[of "z + 2 ^ 31 + 2 ^ 32" "2 ^ 32"] mod_add_self2[of "z + 2 ^ 31" "2 ^ 32"]
    by simp
  moreover have "(z + 2 ^ 31) mod 2 ^ 32 = z + 2 ^ 31" if "- (2 ^ 31) \<le> z" "z < 2 ^ 31"
    using z that by simp
  ultimately show ?thesis unfolding z_def[symmetric] by auto
qed

lemma sint_sub:
  fixes x y :: u32
  shows "sint (x - y) = (if sint x - sint y \<ge> 2 ^ 31 then sint x - sint y - 2 ^ 32
    else if sint x - sint y < - (2 ^ 31) then sint x - sint y + 2 ^ 32 else sint x - sint y)"
proof -
  have s: "sint x = (if sint (x - y) + sint y \<ge> 2 ^ 31 then sint (x - y) + sint y - 2 ^ 32
    else if sint (x - y) + sint y < - (2 ^ 31) then sint (x - y) + sint y + 2 ^ 32 else sint (x - y) + sint y)"
    using sint_add[of "x - y" y] by simp
  have "- (2 ^ 31) \<le> sint x" "sint x < 2 ^ 31" "- (2 ^ 31) \<le> sint y" "sint y < 2 ^ 31"
    "- (2 ^ 31) \<le> sint (x - y)" "sint (x - y) < 2 ^ 31"
    using sint_lt[of x] sint_lt[of y] sint_lt[of "x - y"] sint_ge[of x] sint_ge[of y] sint_ge[of "x - y"] by simp_all
  then show ?thesis using s by (auto split: if_splits)
qed

lemma sint_range: "- (2 ^ 31) \<le> sint x" "sint x < 2 ^ 31" for x :: u32
  using sint_lt[of x] sint_ge[of x] by simp_all

lemma sign_words_differ: "signed_drop_bit 31 x \<noteq> signed_drop_bit 31 y \<longleftrightarrow> (sint x < 0) \<noteq> (sint y < 0)"
  for x y :: u32
proof -
  have s: "signed_drop_bit 31 w = (if sint w < 0 then -1 else 0)" for w :: u32
  proof -
    have b: "bit w 31 \<longleftrightarrow> sint w < 0" using bit_last_iff[of w] by simp
    show ?thesis
    proof (rule bit_word_eqI)
      fix n assume "n < LENGTH(32)"
      then show "bit (signed_drop_bit 31 w) n = bit (if sint w < 0 then -1 else 0 :: u32) n"
        by (cases "n = 0") (simp_all add: bit_signed_drop_bit_iff b[symmetric])
    qed
  qed
  show ?thesis by (simp add: s)
qed

text \<open>The flag that the handlers compute from the signs of the operands and of the result.\<close>

lemma add_flag:
  fixes x y :: u32
  shows "(if signed_drop_bit 31 x \<noteq> signed_drop_bit 31 y then 0
      else of_bool ((0 <s x \<and> x + y <s 0) \<or> (x <s 0 \<and> 0 <s x + y))) = (of_bool
    (sint x + sint y \<notin> {- (2 ^ 31)..<2 ^ 31} \<and> \<not> (sint x = - (2 ^ 31) \<and> sint y = - (2 ^ 31))) :: u32)"
  using sint_range[of x] sint_range[of y] unfolding sign_words_differ
  by (auto simp: word_sless_alt sint_add)

lemma sub_flag:
  fixes x y :: u32
  shows "(if signed_drop_bit 31 x \<noteq> signed_drop_bit 31 y
      then of_bool ((0 <s x \<and> x - y <s 0) \<or> (x <s 0 \<and> 0 <s x - y)) else 0) = (of_bool
    (sint x - sint y \<notin> {- (2 ^ 31)..<2 ^ 31} \<and> \<not> (sint x = 0 \<and> sint y = - (2 ^ 31))) :: u32)"
  using sint_range[of x] sint_range[of y] unfolding sign_words_differ
  by (auto simp: word_sless_alt sint_sub)

lemma flag_result:
  assumes "sreg_writable cfg w d" "sreg_writable cfg w (SREG_SCC cfg)" "d \<noteq> SREG_SCC cfg"
  shows "\<exists>w' f. bindR (setSreg cfg d v w) (setSreg cfg (SREG_SCC cfg) (of_bool P)) = Inr w' \<and>
    getSreg cfg d w' = Inr v \<and> getSreg cfg (SREG_SCC cfg) w' = Inr f \<and> (f \<noteq> 0 \<longleftrightarrow> P)"
  using result_and_scc[OF assms, of v "of_bool P"] by (cases P) auto

text \<open>
  The signed addition wraps, and its flag is set exactly when the sum is outside of the 32-bit
  range, with one exception: the sum of the least number with itself wraps to 0 and is not flagged.
\<close>

lemma S_ADD_I32_flag:
  assumes "getSreg cfg (sop2_ssrc0 b) w = Inr x" "getSreg cfg (sop2_ssrc1 b) w = Inr y"
    and "sreg_writable cfg w (sop2_sdst b)" "sreg_writable cfg w (SREG_SCC cfg)" "sop2_sdst b \<noteq> SREG_SCC cfg"
  shows "\<exists>w' f. S_ADD_I32 cfg b w = Inr w' \<and> getSreg cfg (sop2_sdst b) w' = Inr (x + y) \<and>
    getSreg cfg (SREG_SCC cfg) w' = Inr f \<and>
    (f \<noteq> 0 \<longleftrightarrow> sint x + sint y \<notin> {- (2 ^ 31)..<2 ^ 31} \<and> \<not> (sint x = - (2 ^ 31) \<and> sint y = - (2 ^ 31)))"
  unfolding S_ADD_I32_def assms(1,2) bindR.simps Let_def add_flag by (rule flag_result[OF assms(3-5)])

lemma S_ADD_I32_flag_witness:
  "let b = \<lparr>sop2_ssrc0 = 3, sop2_ssrc1 = 7, sop2_sdst = 5\<rparr> in
   \<exists>w' f. S_ADD_I32 sample_cfg b sample_warp = Inr w' \<and> getSreg sample_cfg (sop2_sdst b) w' = Inr (3 + 7) \<and>
    getSreg sample_cfg (SREG_SCC sample_cfg) w' = Inr f \<and>
    (f \<noteq> 0 \<longleftrightarrow> sint (3 :: u32) + sint (7 :: u32) \<notin> {- (2 ^ 31)..<2 ^ 31} \<and>
       \<not> (sint (3 :: u32) = - (2 ^ 31) \<and> sint (7 :: u32) = - (2 ^ 31)))"
  unfolding Let_def by (rule S_ADD_I32_flag) simp_all

text \<open>
  The signed subtraction wraps, and its flag is set exactly when the difference is outside of
  the 32-bit range, with one exception: 0 minus the least number is not flagged.
\<close>

lemma S_SUB_I32_flag:
  assumes "getSreg cfg (sop2_ssrc0 b) w = Inr x" "getSreg cfg (sop2_ssrc1 b) w = Inr y"
    and "sreg_writable cfg w (sop2_sdst b)" "sreg_writable cfg w (SREG_SCC cfg)" "sop2_sdst b \<noteq> SREG_SCC cfg"
  shows "\<exists>w' f. S_SUB_I32 cfg b w = Inr w' \<and> getSreg cfg (sop2_sdst b) w' = Inr (x - y) \<and>
    getSreg cfg (SREG_SCC cfg) w' = Inr f \<and>
    (f \<noteq> 0 \<longleftrightarrow> sint x - sint y \<notin> {- (2 ^ 31)..<2 ^ 31} \<and> \<not> (sint x = 0 \<and> sint y = - (2 ^ 31)))"
  unfolding S_SUB_I32_def assms(1,2) bindR.simps Let_def sub_flag by (rule flag_result[OF assms(3-5)])

lemma S_SUB_I32_flag_witness:
  "let b = \<lparr>sop2_ssrc0 = 3, sop2_ssrc1 = 7, sop2_sdst = 5\<rparr> in
   \<exists>w' f. S_SUB_I32 sample_cfg b sample_warp = Inr w' \<and> getSreg sample_cfg (sop2_sdst b) w' = Inr (3 - 7) \<and>
    getSreg sample_cfg (SREG_SCC sample_cfg) w' = Inr f \<and>
    (f \<noteq> 0 \<longleftrightarrow> sint (3 :: u32) - sint (7 :: u32) \<notin> {- (2 ^ 31)..<2 ^ 31} \<and>
       \<not> (sint (3 :: u32) = 0 \<and> sint (7 :: u32) = - (2 ^ 31)))"
  unfolding Let_def by (rule S_SUB_I32_flag) simp_all

text \<open>
  C22. The addition of a 16-bit constant flags every overflow, as the constant is never the least
  32-bit number; the multiplication by one flags only the products above the range, not those below.
\<close>

theorem SOPK_flags:
  assumes "getSreg cfg (sopk_sdst b) w = Inr x"
    and "sreg_writable cfg w (sopk_sdst b)" "sreg_writable cfg w (SREG_SCC cfg)" "sopk_sdst b \<noteq> SREG_SCC cfg"
  shows "(\<exists>w' f. S_ADDK_I32 cfg b w = Inr w' \<and> getSreg cfg (sopk_sdst b) w' = Inr (x + scast (sopk_simm16 b)) \<and>
      getSreg cfg (SREG_SCC cfg) w' = Inr f \<and>
      (f \<noteq> 0 \<longleftrightarrow> sint x + sint (sopk_simm16 b) \<notin> {- (2 ^ 31)..<2 ^ 31})) \<and>
    (\<exists>w' f. S_MULK_I32 cfg b w = Inr w' \<and> getSreg cfg (sopk_sdst b) w' = Inr (x * scast (sopk_simm16 b)) \<and>
      getSreg cfg (SREG_SCC cfg) w' = Inr f \<and> (f \<noteq> 0 \<longleftrightarrow> sint x * sint (sopk_simm16 b) \<ge> 2 ^ 31))"
    (is "?addk \<and> ?mulk")
proof
  let ?k = "scast (sopk_simm16 b) :: u32"
  have k16: "- (2 ^ 15) \<le> sint (sopk_simm16 b)" "sint (sopk_simm16 b) < 2 ^ 15"
    using sint_lt[of "sopk_simm16 b"] sint_ge[of "sopk_simm16 b"] by simp_all
  then have k: "sint ?k = sint (sopk_simm16 b)" by (simp add: signed_scast_eq signed_take_bit_int_eq_self)
  show ?addk
    unfolding S_ADDK_I32_def assms(1) bindR.simps Let_def add_flag k
    using flag_result[OF assms(2-4), of "x + ?k"] k16 by simp
  have p: "sint (x * ?k) = signed_take_bit 31 (sint x * sint (sopk_simm16 b))" by (simp add: sint_word_ariths k)
  have m: "sint (x * ?k) < sint x * sint (sopk_simm16 b) \<longleftrightarrow> sint x * sint (sopk_simm16 b) \<ge> 2 ^ 31"
  proof (cases "- (2 ^ 31) \<le> sint x * sint (sopk_simm16 b) \<and> sint x * sint (sopk_simm16 b) < 2 ^ 31")
    case True
    then have "sint (x * ?k) = sint x * sint (sopk_simm16 b)" unfolding p by (simp add: signed_take_bit_int_eq_self)
    then show ?thesis using True by simp
  next
    case False
    then show ?thesis using sint_range[of "x * ?k"] by linarith
  qed
  show ?mulk
    unfolding S_MULK_I32_def assms(1) bindR.simps Let_def k m by (rule flag_result[OF assms(2-4)])
qed

theorem SOPK_flags_witness:
  "let b = \<lparr>sopk_simm16 = 9, sopk_sdst = 5\<rparr> in
   (\<exists>w' f. S_ADDK_I32 sample_cfg b sample_warp = Inr w' \<and>
      getSreg sample_cfg (sopk_sdst b) w' = Inr (5 + scast (sopk_simm16 b)) \<and>
      getSreg sample_cfg (SREG_SCC sample_cfg) w' = Inr f \<and>
      (f \<noteq> 0 \<longleftrightarrow> sint (5 :: u32) + sint (sopk_simm16 b) \<notin> {- (2 ^ 31)..<2 ^ 31})) \<and>
    (\<exists>w' f. S_MULK_I32 sample_cfg b sample_warp = Inr w' \<and>
      getSreg sample_cfg (sopk_sdst b) w' = Inr (5 * scast (sopk_simm16 b)) \<and>
      getSreg sample_cfg (SREG_SCC sample_cfg) w' = Inr f \<and>
      (f \<noteq> 0 \<longleftrightarrow> sint (5 :: u32) * sint (sopk_simm16 b) \<ge> 2 ^ 31))"
  unfolding Let_def by (rule SOPK_flags) simp_all

section \<open>Comparison and selection\<close>

text \<open>
  C19. Comparing two registers and then selecting one of them by the condition code leaves the same
  registers as the instruction for the maximum, signed and unsigned.
\<close>

theorem cmp_select_is_max:
  assumes "getSreg cfg r w = Inr x" "getSreg cfg q w = Inr y"
    and "sreg_writable cfg w d" "sreg_writable cfg w (SREG_SCC cfg)" "d \<noteq> SREG_SCC cfg"
    and "r \<noteq> 0xFF" "q \<noteq> 0xFF" "r \<noteq> SREG_SCC cfg" "q \<noteq> SREG_SCC cfg"
    and "(cmp, mx) \<in> {(S_CMP_GT_I32, S_MAX_I32), (S_CMP_GT_U32, S_MAX_U32)}"
  shows "\<exists>w1 w2. bindR (cmp cfg \<lparr>sopc_ssrc0 = r, sopc_ssrc1 = q, sopc_lit_const = k\<rparr> w)
      (S_CSELECT_B32 cfg \<lparr>sop2_ssrc0 = r, sop2_ssrc1 = q, sop2_sdst = d\<rparr>) = Inr w1 \<and>
    mx cfg \<lparr>sop2_ssrc0 = r, sop2_ssrc1 = q, sop2_sdst = d\<rparr> w = Inr w2 \<and>
    (\<forall>i. getSreg cfg i w1 = getSreg cfg i w2)"
proof -
  have max: "\<exists>w1 w2. bindR (S_CMP rel cfg \<lparr>sopc_ssrc0 = r, sopc_ssrc1 = q, sopc_lit_const = k\<rparr> w)
      (S_CSELECT_B32 cfg \<lparr>sop2_ssrc0 = r, sop2_ssrc1 = q, sop2_sdst = d\<rparr>) = Inr w1 \<and>
      bindR (setSreg cfg d (if rel x y then x else y) w) (setSreg cfg (SREG_SCC cfg) (of_bool (rel x y))) = Inr w2 \<and>
      (\<forall>i. getSreg cfg i w1 = getSreg cfg i w2)" for rel
  proof -
    let ?c = "of_bool (rel x y) :: u32"
    obtain w0 where w0: "setSreg cfg (SREG_SCC cfg) ?c w = Inr w0"
        "\<And>j. getSreg cfg j w0 = (if j = SREG_SCC cfg then Inr ?c else getSreg cfg j w)"
      using sregs.put_one[OF assms(4)] by metis
    have "S_CSELECT_B32 cfg \<lparr>sop2_ssrc0 = r, sop2_ssrc1 = q, sop2_sdst = d\<rparr> w0 =
        setSreg cfg d (if rel x y then x else y) w0"
      using assms(1,2,8,9) by (simp add: S_CSELECT_B32_def w0(2))
    then show ?thesis
      using sregs.put_commute[OF assms(4,3), of ?c "if rel x y then x else y"] assms(1,2,5-7) w0(1)
      by (auto simp: S_CMP_def literal_or_sreg_def)
  qed
  show ?thesis using assms(10) max[of "\<lambda>a b. sint a > sint b"] max[of "\<lambda>a b. a > b"] assms(1,2)
    by (auto simp: S_CMP_GT_I32_def S_CMP_GT_U32_def S_MAX_I32_def S_MAX_U32_def word_sless_alt split: if_splits)
qed

theorem cmp_select_is_max_witness:
  "\<exists>w1 w2. bindR (S_CMP_GT_I32 sample_cfg \<lparr>sopc_ssrc0 = 3, sopc_ssrc1 = 7, sopc_lit_const = 0\<rparr> sample_warp)
      (S_CSELECT_B32 sample_cfg \<lparr>sop2_ssrc0 = 3, sop2_ssrc1 = 7, sop2_sdst = 5\<rparr>) = Inr w1 \<and>
    S_MAX_I32 sample_cfg \<lparr>sop2_ssrc0 = 3, sop2_ssrc1 = 7, sop2_sdst = 5\<rparr> sample_warp = Inr w2 \<and>
    (\<forall>i. getSreg sample_cfg i w1 = getSreg sample_cfg i w2)"
  by (rule cmp_select_is_max[where x = 3 and y = 7]) simp_all

section \<open>Bit-field extraction\<close>

lemma low_bits_unat: "unat (y AND 0x1F) = unat y mod 32" "unat (drop_bit 16 y AND 0x7F) = unat y div 2 ^ 16 mod 128"
  for y :: u32
proof -
  have y: "unat y < 2 ^ 32" using unsigned_less[of y] by simp
  have m: "(0x1F :: u32) = mask 5" "(0x7F :: u32) = mask 7" by (simp_all add: mask_eq_exp_minus_1)
  show "unat (y AND 0x1F) = unat y mod 32"
    unfolding m take_bit_eq_mask[symmetric] unsigned_take_bit_eq by (simp add: take_bit_eq_mod)
  show "unat (drop_bit 16 y AND 0x7F) = unat y div 2 ^ 16 mod 128"
    unfolding m take_bit_eq_mask[symmetric] unsigned_take_bit_eq unsigned_drop_bit_eq
    using y by (simp add: take_bit_eq_mod drop_bit_eq_div)
qed

lemma bit_bfe_i32:
  fixes x :: u32
  assumes "unat f < 32" "unat w < 128" "i < 32"
  shows "bit (bfe_i32 x f w) i \<longleftrightarrow> w \<noteq> 0 \<and> bit x (min (unat f + min i (unat w - 1)) 31)"
proof (cases "w = 0")
  case False
  then have w: "0 < unat w" by (simp add: unat_gt_0)
  have lt: "w + f < 32 \<longleftrightarrow> unat w + unat f < 32" using assms by (simp add: word_less_nat_alt unat_word_ariths)
  show ?thesis
  proof (cases "unat w + unat f < 32")
    case True
    then have "unat (32 - w) = 32 - unat w" "unat (32 - f - w) = 32 - unat f - unat w"
      using assms by (simp_all add: unat_sub word_le_nat_alt)
    then have "bit (bfe_i32 x f w) i \<longleftrightarrow>
        bit (push_bit (32 - unat f - unat w) x) (if unat w \<le> i then 31 else 32 - unat w + i)"
      using True False lt assms w by (simp add: bfe_i32_def bit_signed_drop_bit_iff)
    also have "\<dots> \<longleftrightarrow> bit x (min (unat f + min i (unat w - 1)) 31)"
    proof (cases "unat w \<le> i")
      case True
      moreover from this have "min (unat f + min i (unat w - 1)) 31 = unat f + unat w - 1"
        using \<open>unat w + unat f < 32\<close> w by linarith
      ultimately show ?thesis using \<open>unat w + unat f < 32\<close> w by (auto simp: bit_push_bit_iff)
    next
      case False
      moreover from this have "min (unat f + min i (unat w - 1)) 31 = unat f + i"
        using \<open>unat w + unat f < 32\<close> w by linarith
      ultimately show ?thesis using \<open>unat w + unat f < 32\<close> w by (auto simp: bit_push_bit_iff add.commute)
    qed
    finally show ?thesis using False by simp
  next
    case F: False
    then have "bit (bfe_i32 x f w) i \<longleftrightarrow> bit x (if 32 - unat f \<le> i then 31 else unat f + i)"
      using False lt assms by (simp add: bfe_i32_def bit_signed_drop_bit_iff)
    moreover have "min (unat f + min i (unat w - 1)) 31 = (if 32 - unat f \<le> i then 31 else unat f + i)"
      using F w assms(1,3) by auto
    ultimately show ?thesis using False by simp
  qed
qed (simp add: bfe_i32_def)



section \<open>Scalar loads\<close>

lemma getSreg_frame [simp]:
  "getSreg cfg r (w\<lparr>wst_smem_read_counter := c\<rparr>) = getSreg cfg r w"
  "getSreg cfg r (w\<lparr>wst_global_memory_access_address := a, wst_global_memory_access_size := z\<rparr>) = getSreg cfg r w"
  "sreg_writable cfg (w\<lparr>wst_smem_read_counter := c\<rparr>) r \<longleftrightarrow> sreg_writable cfg w r"
  by (simp_all add: getSreg_def getConst_def sreg_writable_def)



end
