(* ===== verification/Vector_ISA.thy ===== *)
theory Vector_ISA
  imports Operands Bit_Utils
begin

text \<open>
  The vector instructions with operands: VOP2 (isa/InstructionVOP2.cpp), VOPC
  (isa/InstructionVOPC.cpp) and VOP1 (isa/InstructionVOP1.cpp). A handler is run once for each
  active lane; it reads the lane of the source operands, which were collected before, and sets
  the lane of the destination, which is written back afterwards. Floating-point values are IEEE bit
  patterns: comparisons and classification are computed on the bits, the arithmetic of the machine
  (sums, products, roots, roundings) is the parameter \<open>fpu\<close>.
\<close>

section \<open>Floating-point values\<close>

definition f32_is_nan :: "u32 \<Rightarrow> bool" where
  "f32_is_nan v \<longleftrightarrow> v AND 0x7FFFFFFF > 0x7F800000"

definition f32_is_inf :: "u32 \<Rightarrow> bool" where
  "f32_is_inf v \<longleftrightarrow> v AND 0x7FFFFFFF = 0x7F800000"

text \<open>The order of the values that are not NaN: sign and magnitude; both zeros are equal.\<close>

definition f32_ord :: "u32 \<Rightarrow> int" where
  "f32_ord v = (if bit v 31 then - uint (v AND 0x7FFFFFFF) else uint (v AND 0x7FFFFFFF))"

definition f32_lt :: "u32 \<Rightarrow> u32 \<Rightarrow> bool" where
  "f32_lt a b \<longleftrightarrow> \<not> f32_is_nan a \<and> \<not> f32_is_nan b \<and> f32_ord a < f32_ord b"

definition f32_le :: "u32 \<Rightarrow> u32 \<Rightarrow> bool" where
  "f32_le a b \<longleftrightarrow> \<not> f32_is_nan a \<and> \<not> f32_is_nan b \<and> f32_ord a \<le> f32_ord b"

definition f32_eq :: "u32 \<Rightarrow> u32 \<Rightarrow> bool" where
  "f32_eq a b \<longleftrightarrow> \<not> f32_is_nan a \<and> \<not> f32_is_nan b \<and> f32_ord a = f32_ord b"

definition f32_neg :: "u32 \<Rightarrow> u32" where
  "f32_neg v = v XOR 0x80000000"

definition f32_abs :: "u32 \<Rightarrow> u32" where
  "f32_abs v = v AND 0x7FFFFFFF"

text \<open>The integral part of a finite value: the significand scaled by the exponent.\<close>

definition f32_trunc :: "u32 \<Rightarrow> int" where
  "f32_trunc v =
     (let e = unat (drop_bit 23 v AND 0xFF);
          m = uint (v AND 0x7FFFFF) + (if e = 0 then 0 else 0x800000);
          a = (if e \<ge> 150 then m * 2 ^ (e - 150) else m div 2 ^ (150 - max e 1))
      in if bit v 31 then - a else a)"

definition f64_is_nan :: "u64 \<Rightarrow> bool" where
  "f64_is_nan v \<longleftrightarrow> v AND 0x7FFFFFFFFFFFFFFF > 0x7FF0000000000000"

definition f64_is_inf :: "u64 \<Rightarrow> bool" where
  "f64_is_inf v \<longleftrightarrow> v AND 0x7FFFFFFFFFFFFFFF = 0x7FF0000000000000"

text \<open>Zero or subnormal: the exponent field is 0.\<close>

definition f64_is_tiny :: "u64 \<Rightarrow> bool" where
  "f64_is_tiny v \<longleftrightarrow> v AND 0x7FF0000000000000 = 0"

definition f64_signbit :: "u64 \<Rightarrow> bool" where
  "f64_signbit v \<longleftrightarrow> bit v 63"

text \<open>The constant \<open>NAN\<close> converted to double.\<close>

definition NAN64 :: u64 where
  "NAN64 = 0x7FF8000000000000"

record fpu =
  f32_add :: "u32 \<Rightarrow> u32 \<Rightarrow> u32"
  f32_sub :: "u32 \<Rightarrow> u32 \<Rightarrow> u32"
  f32_mul :: "u32 \<Rightarrow> u32 \<Rightarrow> u32"
  f32_div :: "u32 \<Rightarrow> u32 \<Rightarrow> u32"
  f32_sqrt :: "u32 \<Rightarrow> u32"
  f32_rsq :: "u32 \<Rightarrow> u32"
  f32_floor :: "u32 \<Rightarrow> u32"
  f32_of_i32 :: "u32 \<Rightarrow> u32"
  f32_of_u32 :: "u32 \<Rightarrow> u32"
  f64_of_i32 :: "u32 \<Rightarrow> u64"
  f32_of_f64 :: "u64 \<Rightarrow> u32"
  f64_of_f32 :: "u32 \<Rightarrow> u64"
  f64_add :: "u64 \<Rightarrow> u64 \<Rightarrow> u64"
  f64_mul :: "u64 \<Rightarrow> u64 \<Rightarrow> u64"
  funit_add :: "(u32 \<Rightarrow> u32 \<Rightarrow> u32 \<Rightarrow> u32 \<times> u32) option"
  funit_add_f32 :: "(u32 \<Rightarrow> u32 \<Rightarrow> u32) option"

text \<open>
  \<open>funit_add\<close> and \<open>funit_add_f32\<close> are the operations of the hardware model behind the pointer
  \<open>funit_\<close>, \<open>None\<close> when it is null: the sum and the carry out.
\<close>

section \<open>Decoding VOP2\<close>

record BytesVOP2 =
  vop2_op :: u32
  vop2_imm :: u32
  vop2_dsrc0 :: u32
  vop2_src0 :: u32
  vop2_vsrc1 :: u32
  vop2_vdst :: u32
  vop2_ext_enc :: u32
  vop2_e1_imm :: u32
  vop2_e1_src0 :: u32
  vop2_e1_vsrc1 :: u32
  vop2_e1_vdst :: u32

record OpcodeVOP2 =
  OP_V_MAC_F32 :: u32
  OP_V_LSHL_B64 :: u32
  OP_V_ASHR_I64 :: u32
  OP_V_ADD_F64 :: u32
  OP_V_ADD_I64 :: u32
  OP_V_MUL_I64_I32 :: u32

definition instr_size :: "coasm \<Rightarrow> u32 \<Rightarrow> u32" where
  "instr_size cfg ext_enc = (if ext_enc = COMMON_ENC_ext1_enc cfg then 8 else 4)"

text \<open>A register number is a short field, extended in the eight-byte form.\<close>

definition ext_field :: "u32 \<Rightarrow> u32 \<Rightarrow> u32 \<Rightarrow> nat \<Rightarrow> u32" where
  "ext_field isize short ext width = (if isize = 8 then short OR push_bit width ext else short)"

definition VOP2_Decode :: "coasm \<Rightarrow> OpcodeVOP2 \<Rightarrow> BytesVOP2 \<Rightarrow> Instruction \<Rightarrow> Instruction" where
  "VOP2_Decode cfg opc b ins =
     (let op = vop2_op b; sz = instr_size cfg (vop2_ext_enc b);
          ins = ins\<lparr>ins_m_decoded := True, ins_m_size := sz, ins_num_dst_operands := 1,
            ins_num_src_operands := 2\<rparr>;
          ins = (if op = OP_V_MAC_F32 opc then
                   set_operand SRC2 (new_Operand_reg DST (mk_Reg (vop2_vdst b) 1 Vector 0))
                     (ins\<lparr>ins_num_src_operands := 3\<rparr>)
                 else ins);
          two = (op = OP_V_LSHL_B64 opc \<or> op = OP_V_ASHR_I64 opc);
          both = (op = OP_V_ADD_F64 opc \<or> op = OP_V_ADD_I64 opc);
          src0_reg_range = (if two \<or> both then 2 else 1);
          src1_reg_range = (if both then 2 else 1);
          dst_reg_range = (if two \<or> both \<or> op = OP_V_MUL_I64_I32 opc then 2 else 1);
          ins = dsrc0_Decode cfg (vop2_imm b) (vop2_dsrc0 b) (vop2_src0 b) sz (vop2_e1_imm b)
            (vop2_e1_src0 b) src1_reg_range SRC1 ins;
          ins = makeOperand_reg SRC0 (mk_Reg (ext_field sz (vop2_vsrc1 b) (vop2_e1_vsrc1 b)
            (COMMON_ENC_max_vsrc1_32e_width cfg)) src0_reg_range Vector 0) ins
      in makeOperand_reg DST (mk_Reg (ext_field sz (vop2_vdst b) (vop2_e1_vdst b)
            (COMMON_ENC_max_vdst_32e_width cfg)) dst_reg_range Vector 0) ins)"

section \<open>Shapes of handlers\<close>

definition operand_value :: "OperandName \<Rightarrow> u32 \<Rightarrow> Instruction \<Rightarrow> u32 res" where
  "operand_value name lane_id ins = bindR (getOperand name ins) (\<lambda>opd. getValue opd lane_id)"

definition operand_regvalue :: "OperandName \<Rightarrow> u32 \<Rightarrow> Instruction \<Rightarrow> reg_t res" where
  "operand_regvalue name lane_id ins = bindR (getOperand name ins) (\<lambda>opd. getRegValue opd lane_id)"

text \<open>The two words of a register pair.\<close>

definition operand_pair :: "OperandName \<Rightarrow> u32 \<Rightarrow> Instruction \<Rightarrow> u64 res" where
  "operand_pair name lane_id ins =
     bindR (getOperand name ins) (\<lambda>opd. bindR (getValueX opd lane_id) (\<lambda>vs.
     bindR (vec_get vs 0) (\<lambda>lo. bindR (vec_get vs 1) (\<lambda>hi. Inr (reg_as_u64 (Reg_t lo hi 0 0))))))"

definition set_dst :: "u32 \<Rightarrow> u32 \<Rightarrow> Instruction \<Rightarrow> Instruction res" where
  "set_dst v lane_id = modify_operand DST (setValue v lane_id)"

definition set_dst_pair :: "u64 \<Rightarrow> u32 \<Rightarrow> Instruction \<Rightarrow> Instruction res" where
  "set_dst_pair v lane_id = modify_operand DST (setValueX [ucast v, ucast (drop_bit 32 v)] lane_id)"

text \<open>A handler that sets the destination to a function of one or two sources, which may fail.\<close>

definition vunary :: "(u32 \<Rightarrow> u32 res) \<Rightarrow> u32 \<Rightarrow> Instruction \<Rightarrow> Instruction res" where
  "vunary f lane_id ins =
     bindR (operand_value SRC0 lane_id ins) (\<lambda>s0. bindR (f s0) (\<lambda>v. set_dst v lane_id ins))"

definition vbinary :: "(u32 \<Rightarrow> u32 \<Rightarrow> u32 res) \<Rightarrow> u32 \<Rightarrow> Instruction \<Rightarrow> Instruction res" where
  "vbinary f lane_id ins =
     bindR (operand_value SRC0 lane_id ins) (\<lambda>s0.
     bindR (operand_value SRC1 lane_id ins) (\<lambda>s1.
     bindR (f s0 s1) (\<lambda>v. set_dst v lane_id ins)))"

text \<open>A handler that also writes a carry bit of the lane to the condition register.\<close>

definition vcarry ::
  "(u32 \<Rightarrow> u32 \<Rightarrow> (u32 \<times> u32) res) \<Rightarrow> coasm \<Rightarrow> u32 \<Rightarrow> Instruction \<times> 'm WarpState \<Rightarrow> (Instruction \<times> 'm WarpState) res" where
  "vcarry f cfg lane_id st = (case st of (ins, w) \<Rightarrow>
     bindR (operand_value SRC0 lane_id ins) (\<lambda>s0.
     bindR (operand_value SRC1 lane_id ins) (\<lambda>s1.
     bindR (f s0 s1) (\<lambda>(v, carry).
     bindR (set_dst v lane_id ins) (\<lambda>ins.
     bindR (setBitmaskSreg cfg (SREG_VCC cfg) carry lane_id w) (\<lambda>w. Inr (ins, w)))))))"


section \<open>VOP2\<close>

definition V_CNDMASK_B32 :: "coasm \<Rightarrow> 'm WarpState \<Rightarrow> u32 \<Rightarrow> Instruction \<Rightarrow> Instruction res" where
  "V_CNDMASK_B32 cfg w lane_id ins =
     bindR (operand_value SRC0 lane_id ins) (\<lambda>s0.
     bindR (operand_value SRC1 lane_id ins) (\<lambda>s1.
     bindR (getBitmaskSreg cfg (SREG_VCC cfg) lane_id w) (\<lambda>vcci.
     set_dst (if vcci \<noteq> 0 then s1 else s0) lane_id ins)))"

definition V_ADD_F32 :: "fpu \<Rightarrow> u32 \<Rightarrow> Instruction \<Rightarrow> Instruction res" where
  "V_ADD_F32 fp = vbinary (\<lambda>s0 s1. Inr (case funit_add_f32 fp of Some hw \<Rightarrow> hw s0 s1 | None \<Rightarrow> f32_add fp s0 s1))"

definition V_SUB_F32 :: "fpu \<Rightarrow> u32 \<Rightarrow> Instruction \<Rightarrow> Instruction res" where
  "V_SUB_F32 fp = vbinary (\<lambda>s0 s1. Inr (f32_sub fp s0 s1))"

definition V_SUBREV_F32 :: "fpu \<Rightarrow> u32 \<Rightarrow> Instruction \<Rightarrow> Instruction res" where
  "V_SUBREV_F32 fp = vbinary (\<lambda>s0 s1. Inr (f32_sub fp s1 s0))"

definition V_MUL_F32 :: "fpu \<Rightarrow> u32 \<Rightarrow> Instruction \<Rightarrow> Instruction res" where
  "V_MUL_F32 fp = vbinary (\<lambda>s0 s1. Inr (f32_mul fp s0 s1))"

definition mul_i24 :: "u32 \<Rightarrow> u32 \<Rightarrow> u32 res" where
  "mul_i24 s0 s1 = bindR (SignExtend s0 24) (\<lambda>s0. bindR (SignExtend s1 24) (\<lambda>s1. Inr (s0 * s1)))"

definition V_MUL_I32_I24 :: "u32 \<Rightarrow> Instruction \<Rightarrow> Instruction res" where
  "V_MUL_I32_I24 = vbinary mul_i24"

text \<open>The product is computed with 32 bits and then widened.\<close>

definition V_MUL_I64_I32 :: "u32 \<Rightarrow> Instruction \<Rightarrow> Instruction res" where
  "V_MUL_I64_I32 lane_id ins =
     bindR (operand_regvalue SRC0 lane_id ins) (\<lambda>s0.
     bindR (operand_regvalue SRC1 lane_id ins) (\<lambda>s1.
     let p = reg_as_u32 s0 * reg_as_u32 s1; d = scast p :: u64 in
     modify_operand DST (setValue_reg (Reg_t (ucast d) (ucast (drop_bit 32 d)) 0 0) lane_id) ins))"

definition V_MULLO_I32_I24 :: "u32 \<Rightarrow> Instruction \<Rightarrow> Instruction res" where
  "V_MULLO_I32_I24 = vbinary mul_i24"

definition V_MIN_F32 :: "u32 \<Rightarrow> Instruction \<Rightarrow> Instruction res" where
  "V_MIN_F32 = vbinary (\<lambda>s0 s1. Inr (if f32_lt s0 s1 then s0 else s1))"

definition V_MAX_F32 :: "u32 \<Rightarrow> Instruction \<Rightarrow> Instruction res" where
  "V_MAX_F32 = vbinary (\<lambda>s0 s1. Inr (if f32_lt s1 s0 then s0 else s1))"

definition V_MAX_I32 :: "u32 \<Rightarrow> Instruction \<Rightarrow> Instruction res" where
  "V_MAX_I32 = vbinary (\<lambda>s0 s1. Inr (if s1 <s s0 then s0 else s1))"

definition V_MIN_I32 :: "u32 \<Rightarrow> Instruction \<Rightarrow> Instruction res" where
  "V_MIN_I32 = vbinary (\<lambda>s0 s1. Inr (if s0 <s s1 then s0 else s1))"

definition V_MIN_U32 :: "u32 \<Rightarrow> Instruction \<Rightarrow> Instruction res" where
  "V_MIN_U32 = vbinary (\<lambda>s0 s1. Inr (if s0 < s1 then s0 else s1))"

definition V_MAX_U32 :: "u32 \<Rightarrow> Instruction \<Rightarrow> Instruction res" where
  "V_MAX_U32 = vbinary (\<lambda>s0 s1. Inr (if s0 > s1 then s0 else s1))"

text \<open>The shift amounts are not masked.\<close>

definition sar32 :: "u32 \<Rightarrow> u32 \<Rightarrow> u32 res" where
  "sar32 x n = failR (n \<ge> 32) Undefined_Shift (Inr (signed_drop_bit (unat n) x))"

definition V_LSHRREV_B32 :: "u32 \<Rightarrow> Instruction \<Rightarrow> Instruction res" where
  "V_LSHRREV_B32 = vbinary (\<lambda>s0 s1. shr32 s1 s0)"

definition V_ASHRREV_I32 :: "u32 \<Rightarrow> Instruction \<Rightarrow> Instruction res" where
  "V_ASHRREV_I32 = vbinary (\<lambda>s0 s1. sar32 s1 s0)"

definition V_LSHL_B32 :: "u32 \<Rightarrow> Instruction \<Rightarrow> Instruction res" where
  "V_LSHL_B32 = vbinary (\<lambda>s0 s1. shl32 s0 s1)"

definition V_LSHLREV_B32 :: "u32 \<Rightarrow> Instruction \<Rightarrow> Instruction res" where
  "V_LSHLREV_B32 = vbinary (\<lambda>s0 s1. shl32 s1 s0)"

definition V_AND_B32 :: "u32 \<Rightarrow> Instruction \<Rightarrow> Instruction res" where
  "V_AND_B32 = vbinary (\<lambda>s0 s1. Inr (s0 AND s1))"

definition V_OR_B32 :: "u32 \<Rightarrow> Instruction \<Rightarrow> Instruction res" where
  "V_OR_B32 = vbinary (\<lambda>s0 s1. Inr (s0 OR s1))"

definition V_XOR_B32 :: "u32 \<Rightarrow> Instruction \<Rightarrow> Instruction res" where
  "V_XOR_B32 = vbinary (\<lambda>s0 s1. Inr (s0 XOR s1))"

definition V_BFM_B32 :: "u32 \<Rightarrow> Instruction \<Rightarrow> Instruction res" where
  "V_BFM_B32 lane_id ins = Inr ins"

definition V_MAC_F32 :: "fpu \<Rightarrow> u32 \<Rightarrow> Instruction \<Rightarrow> Instruction res" where
  "V_MAC_F32 fp lane_id ins =
     bindR (operand_value SRC0 lane_id ins) (\<lambda>s0.
     bindR (operand_value SRC1 lane_id ins) (\<lambda>s1.
     bindR (operand_value SRC2 lane_id ins) (\<lambda>dst.
     set_dst (f32_add fp (f32_mul fp s0 s1) dst) lane_id ins)))"

text \<open>The carry out of bit 31, of the unsigned sources.\<close>

definition carry_out :: "u32 \<Rightarrow> u32 \<Rightarrow> u32" where
  "carry_out s0 s1 = of_bool (drop_bit 32 ((ucast s0 :: u64) + ucast s1) \<noteq> 0)"

definition V_ADD_I32 :: "fpu \<Rightarrow> coasm \<Rightarrow> u32 \<Rightarrow> Instruction \<times> 'm WarpState \<Rightarrow> (Instruction \<times> 'm WarpState) res" where
  "V_ADD_I32 fp = vcarry (\<lambda>s0 s1. case funit_add fp of None \<Rightarrow> Inl Null_Deref | Some hw \<Rightarrow> Inr (hw s0 s1 0))"

text \<open>The carry of the 64-bit sum is computed from the sign-extended low words.\<close>

definition V_ADD_I64 :: "coasm \<Rightarrow> u32 \<Rightarrow> Instruction \<times> 'm WarpState \<Rightarrow> (Instruction \<times> 'm WarpState) res" where
  "V_ADD_I64 cfg lane_id st = (case st of (ins, w) \<Rightarrow>
     bindR (operand_pair SRC0 lane_id ins) (\<lambda>s0.
     bindR (operand_pair SRC1 lane_id ins) (\<lambda>s1.
     let carry = of_bool (drop_bit 32 ((scast (ucast s0 :: u32) :: u64) + scast (ucast s1 :: u32)) \<noteq> 0) in
     bindR (set_dst_pair (s0 + s1) lane_id ins) (\<lambda>ins.
     bindR (setBitmaskSreg cfg (SREG_VCC cfg) carry lane_id w) (\<lambda>w. Inr (ins, w))))))"

definition V_ADD_U32 :: "coasm \<Rightarrow> u32 \<Rightarrow> Instruction \<times> 'm WarpState \<Rightarrow> (Instruction \<times> 'm WarpState) res" where
  "V_ADD_U32 = vcarry (\<lambda>s0 s1. Inr (s0 + s1, carry_out s0 s1))"

definition V_ADDCO_U32 :: "coasm \<Rightarrow> u32 \<Rightarrow> Instruction \<times> 'm WarpState \<Rightarrow> (Instruction \<times> 'm WarpState) res" where
  "V_ADDCO_U32 = vcarry (\<lambda>s0 s1. Inr (s0 + s1, carry_out s0 s1))"

definition V_SUB_I32 :: "coasm \<Rightarrow> u32 \<Rightarrow> Instruction \<times> 'm WarpState \<Rightarrow> (Instruction \<times> 'm WarpState) res" where
  "V_SUB_I32 = vcarry (\<lambda>s0 s1. Inr (s0 - s1, of_bool (s0 <s s1)))"

definition V_SUB_U32 :: "coasm \<Rightarrow> u32 \<Rightarrow> Instruction \<times> 'm WarpState \<Rightarrow> (Instruction \<times> 'm WarpState) res" where
  "V_SUB_U32 = vcarry (\<lambda>s0 s1. Inr (s0 - s1, of_bool (s1 > s0)))"

definition V_SUBREV_I32 :: "coasm \<Rightarrow> u32 \<Rightarrow> Instruction \<times> 'm WarpState \<Rightarrow> (Instruction \<times> 'm WarpState) res" where
  "V_SUBREV_I32 = vcarry (\<lambda>s0 s1. Inr (s1 - s0, of_bool (s1 <s s0)))"

definition V_SUBREV_U32 :: "coasm \<Rightarrow> u32 \<Rightarrow> Instruction \<times> 'm WarpState \<Rightarrow> (Instruction \<times> 'm WarpState) res" where
  "V_SUBREV_U32 = vcarry (\<lambda>s0 s1. Inr (s1 - s0, of_bool (s0 > s1)))"

definition V_ASHR_I64 :: "u32 \<Rightarrow> Instruction \<Rightarrow> Instruction res" where
  "V_ASHR_I64 lane_id ins =
     bindR (getOperand SRC0 ins) (\<lambda>op0.
     bindR (getValueX op0 lane_id) (\<lambda>src0.
     bindR (operand_value SRC1 lane_id ins) (\<lambda>s1.
     bindR (vec_get src0 0) (\<lambda>lo. bindR (vec_get src0 1) (\<lambda>hi.
     set_dst_pair (signed_drop_bit (unat (s1 AND 0x1F)) (reg_as_u64 (Reg_t lo hi 0 0))) lane_id ins)))))"

text \<open>
  The sum of doubles is decided by class. The literal \<open>-0\<close> in the code is the integer 0, so both
  zero cases give the positive zero; two infinities give NaN, also when their signs agree.
\<close>

definition add_f64 :: "fpu \<Rightarrow> u64 \<Rightarrow> u64 \<Rightarrow> u64" where
  "add_f64 fp s0 s1 =
     (if f64_is_nan s0 \<or> f64_is_nan s1 then NAN64
      else if f64_is_inf s0 \<and> f64_is_inf s1 then NAN64
      else if f64_is_inf s0 then s0
      else if f64_is_inf s1 then s1
      else if f64_is_tiny s0 then
        (if f64_is_tiny s1 then (if f64_signbit s0 \<and> f64_signbit s1 then 0 else 0) else s1)
      else if f64_is_tiny s1 then
        (if f64_is_tiny s0 then (if f64_signbit s0 \<and> f64_signbit s1 then 0 else 0) else s0)
      else f64_add fp s0 s1)"

definition V_ADD_F64 :: "fpu \<Rightarrow> u32 \<Rightarrow> Instruction \<Rightarrow> Instruction res" where
  "V_ADD_F64 fp lane_id ins =
     bindR (operand_pair SRC0 lane_id ins) (\<lambda>s0.
     bindR (operand_pair SRC1 lane_id ins) (\<lambda>s1.
     set_dst_pair (add_f64 fp s0 s1) lane_id ins))"

definition V_LSHL_B64 :: "u32 \<Rightarrow> Instruction \<Rightarrow> Instruction res" where
  "V_LSHL_B64 lane_id ins =
     bindR (getOperand SRC0 ins) (\<lambda>op0.
     bindR (getValueX op0 lane_id) (\<lambda>src0.
     bindR (operand_value SRC1 lane_id ins) (\<lambda>src1.
     bindR (vec_get src0 0) (\<lambda>lo. bindR (vec_get src0 1) (\<lambda>hi.
     set_dst_pair (push_bit (unat (src1 AND 0x1F)) (reg_as_u64 (Reg_t lo hi 0 0))) lane_id ins)))))"

text \<open>The sources of this product are never loaded: \<open>junk0\<close> and \<open>junk1\<close> are what the locals hold.\<close>

definition V_MULLO_U32 :: "u32 \<Rightarrow> u32 \<Rightarrow> u32 \<Rightarrow> Instruction \<Rightarrow> Instruction res" where
  "V_MULLO_U32 junk0 junk1 lane_id ins = set_dst (junk0 * junk1) lane_id ins"

definition V_MULHI_U32 :: "u32 \<Rightarrow> Instruction \<Rightarrow> Instruction res" where
  "V_MULHI_U32 = vbinary (\<lambda>s0 s1. Inr (ucast (drop_bit 32 ((ucast s0 :: u64) * ucast s1))))"

definition V_MULLO_I32 :: "u32 \<Rightarrow> Instruction \<Rightarrow> Instruction res" where
  "V_MULLO_I32 = vbinary (\<lambda>s0 s1. Inr (s0 * s1))"

definition V_MULHI_I32 :: "u32 \<Rightarrow> Instruction \<Rightarrow> Instruction res" where
  "V_MULHI_I32 = vbinary (\<lambda>s0 s1. Inr (ucast (drop_bit 32 ((scast s0 :: u64) * scast s1))))"

section \<open>VOPC\<close>

record BytesVOPC =
  vopc_imm :: u32
  vopc_dsrc0 :: u32
  vopc_src0 :: u32
  vopc_vsrc1 :: u32
  vopc_tcc :: u32
  vopc_ext_enc :: u32
  vopc_e1_imm :: u32
  vopc_e1_src0 :: u32
  vopc_e1_vsrc1 :: u32
  vopc_e1_tcc :: u32

definition VOPC_Decode :: "coasm \<Rightarrow> BytesVOPC \<Rightarrow> Instruction \<Rightarrow> Instruction" where
  "VOPC_Decode cfg b ins =
     (let sz = instr_size cfg (vopc_ext_enc b);
          ins = ins\<lparr>ins_m_decoded := True, ins_m_size := sz, ins_num_dst_operands := 1,
            ins_num_src_operands := 2\<rparr>;
          ins = dsrc0_Decode cfg (vopc_imm b) (vopc_dsrc0 b) (vopc_src0 b) sz (vopc_e1_imm b)
            (vopc_e1_src0 b) 1 SRC1 ins;
          ins = makeOperand_reg SRC0 (mk_Reg (ext_field sz (vopc_vsrc1 b) (vopc_e1_vsrc1 b)
            (COMMON_ENC_max_vsrc1_32e_width cfg)) 1 Vector 0) ins
      in makeOperand_reg DST (mk_Reg (ext_field sz (vopc_tcc b + SREG_TCC cfg) (vopc_e1_tcc b)
            (COMMON_ENC_max_tcc_32e_width cfg)) 1 TCC 0) ins)"

text \<open>A comparison sets the bit of the lane in the destination mask.\<close>

definition V_CMP :: "(u32 \<Rightarrow> u32 \<Rightarrow> bool) \<Rightarrow> u32 \<Rightarrow> Instruction \<Rightarrow> Instruction res" where
  "V_CMP rel lane_id ins =
     bindR (operand_value SRC0 lane_id ins) (\<lambda>s0.
     bindR (operand_value SRC1 lane_id ins) (\<lambda>s1.
     modify_operand DST (setBitmask (of_bool (rel s0 s1)) lane_id) ins))"

definition V_CMP_LT_F32 :: "u32 \<Rightarrow> Instruction \<Rightarrow> Instruction res" where
  "V_CMP_LT_F32 = V_CMP f32_lt"

definition V_CMP_GT_F32 :: "u32 \<Rightarrow> Instruction \<Rightarrow> Instruction res" where
  "V_CMP_GT_F32 = V_CMP (\<lambda>s0 s1. f32_lt s1 s0)"

definition V_CMP_GE_F32 :: "u32 \<Rightarrow> Instruction \<Rightarrow> Instruction res" where
  "V_CMP_GE_F32 = V_CMP (\<lambda>s0 s1. f32_le s1 s0)"

definition V_CMP_NGT_F32 :: "u32 \<Rightarrow> Instruction \<Rightarrow> Instruction res" where
  "V_CMP_NGT_F32 = V_CMP (\<lambda>s0 s1. \<not> f32_lt s1 s0)"

definition V_CMP_NEQ_F32 :: "u32 \<Rightarrow> Instruction \<Rightarrow> Instruction res" where
  "V_CMP_NEQ_F32 = V_CMP (\<lambda>s0 s1. \<not> f32_eq s0 s1)"

definition V_CMP_LT_I32 :: "u32 \<Rightarrow> Instruction \<Rightarrow> Instruction res" where
  "V_CMP_LT_I32 = V_CMP (\<lambda>s0 s1. sint s0 < sint s1)"

definition V_CMP_EQ_I32 :: "u32 \<Rightarrow> Instruction \<Rightarrow> Instruction res" where
  "V_CMP_EQ_I32 = V_CMP (\<lambda>s0 s1. sint s0 = sint s1)"

definition V_CMP_LE_I32 :: "u32 \<Rightarrow> Instruction \<Rightarrow> Instruction res" where
  "V_CMP_LE_I32 = V_CMP (\<lambda>s0 s1. sint s0 \<le> sint s1)"

definition V_CMP_GT_I32 :: "u32 \<Rightarrow> Instruction \<Rightarrow> Instruction res" where
  "V_CMP_GT_I32 = V_CMP (\<lambda>s0 s1. sint s0 > sint s1)"

definition V_CMP_NE_I32 :: "u32 \<Rightarrow> Instruction \<Rightarrow> Instruction res" where
  "V_CMP_NE_I32 = V_CMP (\<lambda>s0 s1. sint s0 \<noteq> sint s1)"

definition V_CMP_GE_I32 :: "u32 \<Rightarrow> Instruction \<Rightarrow> Instruction res" where
  "V_CMP_GE_I32 = V_CMP (\<lambda>s0 s1. sint s0 \<ge> sint s1)"

definition V_CMP_LT_U32 :: "u32 \<Rightarrow> Instruction \<Rightarrow> Instruction res" where
  "V_CMP_LT_U32 = V_CMP (\<lambda>s0 s1. s0 < s1)"

definition V_CMP_EQ_U32 :: "u32 \<Rightarrow> Instruction \<Rightarrow> Instruction res" where
  "V_CMP_EQ_U32 lane_id ins = Inr ins"

definition V_CMP_LE_U32 :: "u32 \<Rightarrow> Instruction \<Rightarrow> Instruction res" where
  "V_CMP_LE_U32 = V_CMP (\<lambda>s0 s1. s0 \<le> s1)"

definition V_CMP_GT_U32 :: "u32 \<Rightarrow> Instruction \<Rightarrow> Instruction res" where
  "V_CMP_GT_U32 = V_CMP (\<lambda>s0 s1. s0 > s1)"

definition V_CMP_NE_U32 :: "u32 \<Rightarrow> Instruction \<Rightarrow> Instruction res" where
  "V_CMP_NE_U32 = V_CMP (\<lambda>s0 s1. s0 \<noteq> s1)"

definition V_CMP_GE_U32 :: "u32 \<Rightarrow> Instruction \<Rightarrow> Instruction res" where
  "V_CMP_GE_U32 = V_CMP (\<lambda>s0 s1. s0 \<ge> s1)"


section \<open>VOP1\<close>

record BytesVOP1 =
  vop1_op :: u32
  vop1_imm :: u32
  vop1_dsrc0 :: u32
  vop1_src0 :: u32
  vop1_vdst :: u32
  vop1_ext_enc :: u32
  vop1_e1_imm :: u32
  vop1_e2_src0 :: u32
  vop1_e1_vdst :: u32

record OpcodeVOP1 =
  OP_V_CVT_F64_I32 :: u32
  OP_V_CVT_F64_F32 :: u32
  OP_V_CVT_F64_U32 :: u32
  OP_V_SEXT_I64_I32 :: u32
  OP_V_ZEXT_B64_B32 :: u32
  OP_V_CVTA_SHARED_TO_FLAT :: u32
  OP_V_CVT_F32_F64 :: u32

definition VOP1_Decode :: "coasm \<Rightarrow> OpcodeVOP1 \<Rightarrow> BytesVOP1 \<Rightarrow> Instruction \<Rightarrow> Instruction" where
  "VOP1_Decode cfg opc b ins =
     (let op = vop1_op b; sz = instr_size cfg (vop1_ext_enc b);
          ins = ins\<lparr>ins_m_decoded := True, ins_m_size := sz, ins_num_dst_operands := 1,
            ins_num_src_operands := 1\<rparr>;
          dst_reg_range = (if op = OP_V_CVT_F64_I32 opc \<or> op = OP_V_CVT_F64_F32 opc \<or>
              op = OP_V_CVT_F64_U32 opc \<or> op = OP_V_SEXT_I64_I32 opc \<or> op = OP_V_ZEXT_B64_B32 opc \<or>
              op = OP_V_CVTA_SHARED_TO_FLAT opc then 2 else 1);
          src_reg_range = (if op = OP_V_CVT_F32_F64 opc \<or> op = OP_V_CVTA_SHARED_TO_FLAT opc then 2 else 1);
          ins = dsrc0_Decode cfg (vop1_imm b) (vop1_dsrc0 b) (vop1_src0 b) sz (vop1_e1_imm b)
            (vop1_e2_src0 b) src_reg_range SRC0 ins
      in makeOperand_reg DST (mk_Reg (ext_field sz (vop1_vdst b) (vop1_e1_vdst b)
            (COMMON_ENC_max_vdst_32e_width cfg)) dst_reg_range Vector 0) ins)"

definition V_MOV_B32 :: "u32 \<Rightarrow> Instruction \<Rightarrow> Instruction res" where
  "V_MOV_B32 = vunary Inr"

definition V_READFIRSTLANE_B32 :: "u32 \<Rightarrow> Instruction \<Rightarrow> Instruction res" where
  "V_READFIRSTLANE_B32 = vunary Inr"

text \<open>Handlers that the code leaves unimplemented do nothing.\<close>

definition unimplemented :: "u32 \<Rightarrow> Instruction \<Rightarrow> Instruction res" where
  "unimplemented lane_id ins = Inr ins"

definition V_CVT_F64_I32 :: "fpu \<Rightarrow> u32 \<Rightarrow> Instruction \<Rightarrow> Instruction res" where
  "V_CVT_F64_I32 fp lane_id ins =
     bindR (operand_value SRC0 lane_id ins) (\<lambda>s0. set_dst_pair (f64_of_i32 fp s0) lane_id ins)"

definition V_CVT_F32_I32 :: "fpu \<Rightarrow> u32 \<Rightarrow> Instruction \<Rightarrow> Instruction res" where
  "V_CVT_F32_I32 fp = vunary (\<lambda>s0. Inr (f32_of_i32 fp s0))"

definition V_CVT_F32_U32 :: "fpu \<Rightarrow> u32 \<Rightarrow> Instruction \<Rightarrow> Instruction res" where
  "V_CVT_F32_U32 fp = vunary (\<lambda>s0. Inr (f32_of_u32 fp s0))"

text \<open>
  The bounds compared against are the floats of the largest integers: \<open>2^32\<close> and \<open>2^31\<close>. A negative
  value that truncates to less than 0 has no unsigned conversion.
\<close>

definition cvt_u32_f32 :: "u32 \<Rightarrow> u32 res" where
  "cvt_u32_f32 fvalue =
     (if (f32_is_inf fvalue \<and> f32_lt fvalue 0) \<or> f32_is_nan fvalue \<or> f32_eq fvalue 0 then Inr 0
      else if f32_is_inf fvalue \<or> f32_le 0x4F800000 fvalue then Inr 0xFFFFFFFF
      else failR (f32_trunc fvalue < 0) Undefined_Conversion (Inr (of_int (f32_trunc fvalue))))"

definition V_CVT_U32_F32 :: "u32 \<Rightarrow> Instruction \<Rightarrow> Instruction res" where
  "V_CVT_U32_F32 = vunary cvt_u32_f32"

definition cvt_i32_f32 :: "u32 \<Rightarrow> u32" where
  "cvt_i32_f32 fvalue =
     (if (f32_is_inf fvalue \<and> f32_lt 0 fvalue) \<or> f32_le 0x4F000000 fvalue then 0x7FFFFFFF
      else if f32_is_inf fvalue \<or> f32_lt fvalue 0xCF000000 then 0x80000000
      else if f32_is_nan fvalue \<or> f32_eq fvalue 0 then 0
      else of_int (f32_trunc fvalue))"

definition V_CVT_I32_F32 :: "u32 \<Rightarrow> Instruction \<Rightarrow> Instruction res" where
  "V_CVT_I32_F32 = vunary (\<lambda>s0. Inr (cvt_i32_f32 s0))"

definition V_CVT_F32_F64 :: "fpu \<Rightarrow> u32 \<Rightarrow> Instruction \<Rightarrow> Instruction res" where
  "V_CVT_F32_F64 fp lane_id ins =
     bindR (operand_pair SRC0 lane_id ins) (\<lambda>s0. set_dst (f32_of_f64 fp s0) lane_id ins)"

definition V_CVT_F64_F32 :: "fpu \<Rightarrow> u32 \<Rightarrow> Instruction \<Rightarrow> Instruction res" where
  "V_CVT_F64_F32 fp lane_id ins =
     bindR (operand_value SRC0 lane_id ins) (\<lambda>s0. set_dst_pair (f64_of_f32 fp s0) lane_id ins)"

definition V_TRUNC_F32 :: "fpu \<Rightarrow> u32 \<Rightarrow> Instruction \<Rightarrow> Instruction res" where
  "V_TRUNC_F32 fp = vunary (\<lambda>s0.
     failR (f32_is_nan s0 \<or> f32_is_inf s0 \<or> f32_trunc s0 < - (2 ^ 31) \<or> f32_trunc s0 \<ge> 2 ^ 31) Undefined_Conversion
       (Inr (f32_of_i32 fp (of_int (f32_trunc s0)))))"

definition V_RCP_F32 :: "fpu \<Rightarrow> u32 \<Rightarrow> Instruction \<Rightarrow> Instruction res" where
  "V_RCP_F32 fp = vunary (\<lambda>s0. Inr (f32_div fp 0x3F800000 s0))"

definition V_RSQ_F32 :: "fpu \<Rightarrow> u32 \<Rightarrow> Instruction \<Rightarrow> Instruction res" where
  "V_RSQ_F32 fp = vunary (\<lambda>s0. Inr (f32_rsq fp s0))"

definition V_SQRT_F32 :: "fpu \<Rightarrow> u32 \<Rightarrow> Instruction \<Rightarrow> Instruction res" where
  "V_SQRT_F32 fp = vunary (\<lambda>s0. Inr (f32_sqrt fp s0))"

definition V_NOT_B32 :: "u32 \<Rightarrow> Instruction \<Rightarrow> Instruction res" where
  "V_NOT_B32 = vunary (\<lambda>s0. Inr (NOT s0))"

definition V_MOVRELD_B32 :: "coasm \<Rightarrow> BytesVOP1 \<Rightarrow> 'm WarpState \<Rightarrow> u32 \<Rightarrow> Instruction \<Rightarrow> Instruction res" where
  "V_MOVRELD_B32 cfg b w lane_id ins =
     bindR (operand_value SRC0 lane_id ins) (\<lambda>s0.
     assertR (vop1_src0 b \<noteq> 0xFF)
    (bindR (getSreg cfg (SREG_M0 cfg) w) (\<lambda>m0. set_dst m0 lane_id ins)))"

definition V_MOVRELS_B32 :: "coasm \<Rightarrow> BytesVOP1 \<Rightarrow> 'm WarpState \<Rightarrow> u32 \<Rightarrow> Instruction \<Rightarrow> Instruction res" where
  "V_MOVRELS_B32 cfg b w lane_id ins =
     assertR (vop1_src0 b \<noteq> 0xFF)
    (bindR (getSreg cfg (SREG_M0 cfg) w) (\<lambda>m0.
     bindR (operand_value SRC0 lane_id ins) (\<lambda>s0. set_dst s0 lane_id ins)))"

text \<open>A conversion of the first word of the source, stored as one word per destination register.\<close>

definition vconvert :: "(reg_t \<Rightarrow> reg_t res) \<Rightarrow> u32 \<Rightarrow> Instruction \<Rightarrow> Instruction res" where
  "vconvert f lane_id ins =
     bindR (operand_regvalue SRC0 lane_id ins) (\<lambda>x.
     bindR (f x) (\<lambda>x. modify_operand DST (setValue_reg x lane_id) ins))"

definition V_SEXT_I32_I8 :: "u32 \<Rightarrow> Instruction \<Rightarrow> Instruction res" where
  "V_SEXT_I32_I8 = vconvert (\<lambda>x. sext x 8)"

definition V_SEXT_I32_I16 :: "u32 \<Rightarrow> Instruction \<Rightarrow> Instruction res" where
  "V_SEXT_I32_I16 = vconvert (\<lambda>x. sext x 16)"

definition V_SEXT_I64_I32 :: "u32 \<Rightarrow> Instruction \<Rightarrow> Instruction res" where
  "V_SEXT_I64_I32 = vconvert (\<lambda>x. sext x 32)"

definition V_ZEXT_B32_B8 :: "u32 \<Rightarrow> Instruction \<Rightarrow> Instruction res" where
  "V_ZEXT_B32_B8 = vconvert (\<lambda>x. zext x 8)"

definition V_ZEXT_B32_B16 :: "u32 \<Rightarrow> Instruction \<Rightarrow> Instruction res" where
  "V_ZEXT_B32_B16 = vconvert (\<lambda>x. zext x 16)"

definition V_ZEXT_B64_B32 :: "u32 \<Rightarrow> Instruction \<Rightarrow> Instruction res" where
  "V_ZEXT_B64_B32 = vconvert (\<lambda>x. zext x 32)"

definition V_CHOP_B16_B32 :: "u32 \<Rightarrow> Instruction \<Rightarrow> Instruction res" where
  "V_CHOP_B16_B32 = vconvert (\<lambda>x. chop x 16)"

definition set_u64 :: "u64 \<Rightarrow> reg_t \<Rightarrow> reg_t" where
  "set_u64 v x = Reg_t (ucast v) (ucast (drop_bit 32 v)) (reg2 x) (reg3 x)"

definition V_CVTA_SHARED_TO_FLAT :: "coasm \<Rightarrow> u32 \<Rightarrow> Instruction \<Rightarrow> Instruction res" where
  "V_CVTA_SHARED_TO_FLAT cfg = vconvert (\<lambda>x.
     bindR (shared_to_generic cfg 0 (reg_as_u64 x)) (\<lambda>a. Inr (set_u64 a x)))"

definition V_CVTA_FLAT_TO_GLOBAL :: "u32 \<Rightarrow> Instruction \<Rightarrow> Instruction res" where
  "V_CVTA_FLAT_TO_GLOBAL = vconvert (\<lambda>x. Inr (set_u64 (generic_to_global (reg_as_u64 x)) x))"

end
