(* ===== verification/VOP3_ISA.thy ===== *)
theory VOP3_ISA
  imports Vector_ISA Scalar_ISA
begin

text \<open>
  The three-source vector instructions (isa/InstructionVOP3A.cpp, isa/InstructionVOP3B.cpp).
  Their handlers do not use the collected operands: they read the source fields as scalar
  registers and write the destination lane, or the lane's bit of a scalar mask, at once. Signed
  sums, negations and absolute values wrap, as the machine computes them.
\<close>

section \<open>Decoding\<close>

record BytesVOP3A =
  vop3a_op :: u32
  vop3a_vdst :: u32
  vop3a_abs :: u32
  vop3a_clamp :: u32
  vop3a_src0 :: u32
  vop3a_src1 :: u32
  vop3a_src2 :: u32
  vop3a_omod :: u32
  vop3a_neg :: u32

text \<open>The register of the first source operand is the second field, and the field \<open>src0\<close> is not used.\<close>

definition VOP3A_Decode :: "u32 \<Rightarrow> BytesVOP3A \<Rightarrow> Instruction \<Rightarrow> Instruction" where
  "VOP3A_Decode op_V_CSEL_B64 b ins =
     (let ins = ins\<lparr>ins_m_size := 8, ins_m_decoded := True, ins_num_dst_operands := 1,
            ins_num_src_operands := 3\<rparr>;
          reg_range = (if vop3a_op b = op_V_CSEL_B64 then 2 else 1);
          ins = makeOperand_reg SRC0 (mk_Reg (vop3a_src1 b) reg_range Vector 0) ins;
          ins = makeOperand_reg SRC1 (mk_Reg (vop3a_src2 b) reg_range Vector 0) ins;
          ins = makeOperand_reg SRC2 (mk_Reg (vop3a_src2 b) reg_range Vector 0) ins
      in makeOperand_reg DST (mk_Reg (vop3a_vdst b) reg_range Vector 0) ins)"

record BytesVOP3B =
  vop3b_vdst :: u32
  vop3b_sdst :: u32
  vop3b_src0 :: u32
  vop3b_vsrc1 :: u32
  vop3b_ssrc2 :: u32

definition VOP3B_Decode :: "Instruction \<Rightarrow> Instruction" where
  "VOP3B_Decode ins = ins\<lparr>ins_m_size := 8, ins_m_decoded := True\<rparr>"

section \<open>Source modifiers\<close>

definition modify :: "u32 \<Rightarrow> nat \<Rightarrow> ('a \<Rightarrow> 'a) \<Rightarrow> 'a \<Rightarrow> 'a" where
  "modify field i f x = (if bit field i then f x else x)"

definition i32_abs :: "u32 \<Rightarrow> u32" where
  "i32_abs v = (if v <s 0 then - v else v)"

text \<open>Output modifiers are not implemented, the third modifier bit not for two sources.\<close>

definition no_output_modifier :: "BytesVOP3A \<Rightarrow> 'a res \<Rightarrow> 'a res" where
  "no_output_modifier b k = assertR (vop3a_clamp b = 0) (assertR (vop3a_omod b = 0) k)"

definition no_modifier :: "BytesVOP3A \<Rightarrow> 'a res \<Rightarrow> 'a res" where
  "no_modifier b k = no_output_modifier b (assertR (vop3a_neg b = 0) (assertR (vop3a_abs b = 0) k))"

definition sources2 :: "(u32 \<Rightarrow> u32) \<Rightarrow> (u32 \<Rightarrow> u32) \<Rightarrow> coasm \<Rightarrow> BytesVOP3A \<Rightarrow> 'm WarpState \<Rightarrow> (u32 \<times> u32) res" where
  "sources2 absolute negate cfg b w = no_output_modifier b
    (bindR (getSreg cfg (vop3a_src0 b) w) (\<lambda>s0.
     bindR (getSreg cfg (vop3a_src1 b) w) (\<lambda>s1.
     assertR (\<not> bit (vop3a_abs b) 2) (assertR (\<not> bit (vop3a_neg b) 2)
       (Inr (modify (vop3a_neg b) 0 negate (modify (vop3a_abs b) 0 absolute s0),
             modify (vop3a_neg b) 1 negate (modify (vop3a_abs b) 1 absolute s1)))))))"

definition float_sources2 :: "coasm \<Rightarrow> BytesVOP3A \<Rightarrow> 'm WarpState \<Rightarrow> (u32 \<times> u32) res" where
  "float_sources2 = sources2 f32_abs f32_neg"

definition int_sources2 :: "coasm \<Rightarrow> BytesVOP3A \<Rightarrow> 'm WarpState \<Rightarrow> (u32 \<times> u32) res" where
  "int_sources2 = sources2 i32_abs uminus"

definition float_sources3 :: "coasm \<Rightarrow> BytesVOP3A \<Rightarrow> 'm WarpState \<Rightarrow> (u32 \<times> u32 \<times> u32) res" where
  "float_sources3 cfg b w = no_output_modifier b
    (bindR (getSreg cfg (vop3a_src0 b) w) (\<lambda>s0.
     bindR (getSreg cfg (vop3a_src1 b) w) (\<lambda>s1.
     bindR (getSreg cfg (vop3a_src2 b) w) (\<lambda>s2.
       Inr (modify (vop3a_neg b) 0 f32_neg (modify (vop3a_abs b) 0 f32_abs s0),
            modify (vop3a_neg b) 1 f32_neg (modify (vop3a_abs b) 1 f32_abs s1),
            modify (vop3a_neg b) 2 f32_neg (modify (vop3a_abs b) 2 f32_abs s2))))))"

definition plain_sources2 :: "coasm \<Rightarrow> BytesVOP3A \<Rightarrow> 'm WarpState \<Rightarrow> (u32 \<times> u32) res" where
  "plain_sources2 cfg b w = no_modifier b
    (bindR (getSreg cfg (vop3a_src0 b) w) (\<lambda>s0.
     bindR (getSreg cfg (vop3a_src1 b) w) (\<lambda>s1. Inr (s0, s1))))"

definition plain_sources3 :: "coasm \<Rightarrow> BytesVOP3A \<Rightarrow> 'm WarpState \<Rightarrow> (u32 \<times> u32 \<times> u32) res" where
  "plain_sources3 cfg b w = no_modifier b
    (bindR (getSreg cfg (vop3a_src0 b) w) (\<lambda>s0.
     bindR (getSreg cfg (vop3a_src1 b) w) (\<lambda>s1.
     bindR (getSreg cfg (vop3a_src2 b) w) (\<lambda>s2. Inr (s0, s1, s2)))))"

text \<open>Results go to a lane of the destination register, a pair of them, or to the bit of the lane.\<close>

definition write_lane_pair :: "u32 \<Rightarrow> u64 \<Rightarrow> u32 \<Rightarrow> 'm WarpState \<Rightarrow> 'm WarpState res" where
  "write_lane_pair vdst value lane_id w =
     bindR (setVreg vdst (ucast value) lane_id w) (\<lambda>w.
     setVreg (vdst + 1) (ucast (drop_bit 32 value)) lane_id w)"

definition write_compare ::
  "('s \<Rightarrow> bool) \<Rightarrow> (coasm \<Rightarrow> BytesVOP3A \<Rightarrow> 'm WarpState \<Rightarrow> 's res) \<Rightarrow> coasm \<Rightarrow> BytesVOP3A \<Rightarrow> u32 \<Rightarrow> 'm WarpState \<Rightarrow> 'm WarpState res" where
  "write_compare rel sources cfg b lane_id w =
     bindR (sources cfg b w) (\<lambda>s. setBitmaskSreg cfg (vop3a_vdst b) (of_bool (rel s)) lane_id w)"

section \<open>Arithmetic\<close>

definition V_CNDMASK_B32_VOP3A :: "coasm \<Rightarrow> BytesVOP3A \<Rightarrow> u32 \<Rightarrow> 'm WarpState \<Rightarrow> 'm WarpState res" where
  "V_CNDMASK_B32_VOP3A cfg b lane_id w = no_output_modifier b (assertR (vop3a_abs b = 0)
    (bindR (getSreg cfg (vop3a_src0 b) w) (\<lambda>s0.
     bindR (getSreg cfg (vop3a_src1 b) w) (\<lambda>s1.
     bindR (getBitmaskSreg cfg (vop3a_src2 b) lane_id w) (\<lambda>vcci.
     assertR (\<not> bit (vop3a_neg b) 2)
       (setVreg (vop3a_vdst b)
         (if vcci \<noteq> 0 then modify (vop3a_neg b) 1 f32_neg s1 else modify (vop3a_neg b) 0 f32_neg s0)
         lane_id w))))))"

definition V_ADD_F32_VOP3A :: "fpu \<Rightarrow> coasm \<Rightarrow> BytesVOP3A \<Rightarrow> u32 \<Rightarrow> 'm WarpState \<Rightarrow> 'm WarpState res" where
  "V_ADD_F32_VOP3A fp cfg b lane_id w = bindR (float_sources2 cfg b w) (\<lambda>(s0, s1).
     setVreg (vop3a_vdst b) (f32_add fp s0 s1) lane_id w)"

definition V_SUBREV_F32_VOP3A :: "fpu \<Rightarrow> coasm \<Rightarrow> BytesVOP3A \<Rightarrow> u32 \<Rightarrow> 'm WarpState \<Rightarrow> 'm WarpState res" where
  "V_SUBREV_F32_VOP3A fp cfg b lane_id w = bindR (float_sources2 cfg b w) (\<lambda>(s0, s1).
     setVreg (vop3a_vdst b) (f32_sub fp s1 s0) lane_id w)"

definition V_MUL_F32_VOP3A :: "fpu \<Rightarrow> coasm \<Rightarrow> BytesVOP3A \<Rightarrow> u32 \<Rightarrow> 'm WarpState \<Rightarrow> 'm WarpState res" where
  "V_MUL_F32_VOP3A fp cfg b lane_id w = bindR (float_sources2 cfg b w) (\<lambda>(s0, s1).
     setVreg (vop3a_vdst b) (f32_mul fp s0 s1) lane_id w)"

definition V_MUL_I32_I24_VOP3A :: "coasm \<Rightarrow> BytesVOP3A \<Rightarrow> u32 \<Rightarrow> 'm WarpState \<Rightarrow> 'm WarpState res" where
  "V_MUL_I32_I24_VOP3A cfg b lane_id w = bindR (plain_sources2 cfg b w) (\<lambda>(s0, s1).
     bindR (mul_i24 s0 s1) (\<lambda>product. setVreg (vop3a_vdst b) product lane_id w))"

definition V_MAX_F32_VOP3A :: "coasm \<Rightarrow> BytesVOP3A \<Rightarrow> u32 \<Rightarrow> 'm WarpState \<Rightarrow> 'm WarpState res" where
  "V_MAX_F32_VOP3A cfg b lane_id w = bindR (float_sources2 cfg b w) (\<lambda>(s0, s1).
     setVreg (vop3a_vdst b) (if f32_lt s1 s0 then s0 else s1) lane_id w)"

definition V_MAD_F32 :: "fpu \<Rightarrow> coasm \<Rightarrow> BytesVOP3A \<Rightarrow> u32 \<Rightarrow> 'm WarpState \<Rightarrow> 'm WarpState res" where
  "V_MAD_F32 fp cfg b lane_id w = bindR (float_sources3 cfg b w) (\<lambda>(s0, s1, s2).
     setVreg (vop3a_vdst b) (f32_add fp (f32_mul fp s0 s1) s2) lane_id w)"

text \<open>The only handler on the operands; the product and the sum are computed with 32 bits.\<close>

definition V_MADLO_I32_I32 :: "u32 \<Rightarrow> Instruction \<Rightarrow> Instruction res" where
  "V_MADLO_I32_I32 lane_id ins =
     bindR (operand_regvalue SRC0 lane_id ins) (\<lambda>s0.
     bindR (operand_regvalue SRC1 lane_id ins) (\<lambda>s1.
     bindR (operand_regvalue SRC2 lane_id ins) (\<lambda>s2.
     let d = scast (reg_as_u32 s0 * reg_as_u32 s1 + reg_as_u32 s2) :: u64 in
     modify_operand DST (setValue_reg (Reg_t (ucast d) (ucast (drop_bit 32 d)) 0 0) lane_id) ins)))"

definition V_MAD_U32_U24 :: "coasm \<Rightarrow> BytesVOP3A \<Rightarrow> u32 \<Rightarrow> 'm WarpState \<Rightarrow> 'm WarpState res" where
  "V_MAD_U32_U24 cfg b lane_id w = bindR (plain_sources3 cfg b w) (\<lambda>(s0, s1, s2).
     setVreg (vop3a_vdst b) ((s0 AND 0x00FFFFFF) * (s1 AND 0x00FFFFFF) + s2) lane_id w)"

definition V_FMA_F32 :: "fpu \<Rightarrow> coasm \<Rightarrow> BytesVOP3A \<Rightarrow> u32 \<Rightarrow> 'm WarpState \<Rightarrow> 'm WarpState res" where
  "V_FMA_F32 fp cfg b lane_id w = bindR (float_sources3 cfg b w) (\<lambda>(s0, s1, s2).
     setVreg (vop3a_vdst b) (f32_add fp (f32_mul fp s0 s1) s2) lane_id w)"

definition V_FRACT_F32_VOP3A :: "fpu \<Rightarrow> coasm \<Rightarrow> BytesVOP3A \<Rightarrow> u32 \<Rightarrow> 'm WarpState \<Rightarrow> 'm WarpState res" where
  "V_FRACT_F32_VOP3A fp cfg b lane_id w = no_output_modifier b
    (bindR (getSreg cfg (vop3a_src0 b) w) (\<lambda>s0.
     assertR (\<not> bit (vop3a_abs b) 1) (assertR (\<not> bit (vop3a_abs b) 2)
    (assertR (\<not> bit (vop3a_neg b) 1) (assertR (\<not> bit (vop3a_neg b) 2)
    (let s0 = modify (vop3a_neg b) 0 f32_neg (modify (vop3a_abs b) 0 f32_abs s0) in
     setVreg (vop3a_vdst b) (f32_sub fp s0 (f32_floor fp s0)) lane_id w))))))"

section \<open>Bit fields\<close>

definition bfe_u32 :: "u32 \<Rightarrow> u32 \<Rightarrow> u32 \<Rightarrow> u32" where
  "bfe_u32 s0 s1 s2 = drop_bit (unat s1) s0 AND (push_bit (unat s2) 1 - 1)"

definition V_BFE_U32 :: "coasm \<Rightarrow> BytesVOP3A \<Rightarrow> u32 \<Rightarrow> 'm WarpState \<Rightarrow> 'm WarpState res" where
  "V_BFE_U32 cfg b lane_id w = bindR (plain_sources3 cfg b w) (\<lambda>(s0, s1, s2).
     setVreg (vop3a_vdst b) (bfe_u32 s0 (s1 AND 0x1F) (s2 AND 0x1F)) lane_id w)"

definition V_BFE_I32 :: "coasm \<Rightarrow> BytesVOP3A \<Rightarrow> u32 \<Rightarrow> 'm WarpState \<Rightarrow> 'm WarpState res" where
  "V_BFE_I32 cfg b lane_id w = bindR (plain_sources3 cfg b w) (\<lambda>(s0, s1, s2).
     setVreg (vop3a_vdst b) (bfe_i32 s0 (s1 AND 0x1F) (s2 AND 0x1F)) lane_id w)"

definition V_BFI_B32 :: "coasm \<Rightarrow> BytesVOP3A \<Rightarrow> u32 \<Rightarrow> 'm WarpState \<Rightarrow> 'm WarpState res" where
  "V_BFI_B32 cfg b lane_id w = bindR (plain_sources3 cfg b w) (\<lambda>(s0, s1, s2).
     setVreg (vop3a_vdst b) ((s0 AND s1) OR (NOT s0 AND s2)) lane_id w)"

text \<open>The second source is the low word.\<close>

definition V_ALIGNBIT_B32 :: "coasm \<Rightarrow> BytesVOP3A \<Rightarrow> u32 \<Rightarrow> 'm WarpState \<Rightarrow> 'm WarpState res" where
  "V_ALIGNBIT_B32 cfg b lane_id w = bindR (plain_sources3 cfg b w) (\<lambda>(s0, s1, s2).
     setVreg (vop3a_vdst b)
       (ucast (drop_bit (unat (s2 AND 0x1F)) (reg_as_u64 (Reg_t s1 s0 0 0)) AND 0xFFFFFFFF)) lane_id w)"

definition V_LSHR_B64 :: "coasm \<Rightarrow> BytesVOP3A \<Rightarrow> u32 \<Rightarrow> 'm WarpState \<Rightarrow> 'm WarpState res" where
  "V_LSHR_B64 cfg b lane_id w = no_modifier b
    (bindR (getSreg cfg (vop3a_src0 b) w) (\<lambda>lo.
     bindR (getSreg cfg (vop3a_src0 b + 1) w) (\<lambda>hi.
     bindR (getSreg cfg (vop3a_src1 b) w) (\<lambda>s1.
     write_lane_pair (vop3a_vdst b) (drop_bit (unat (s1 AND 0x1F)) (reg_as_u64 (Reg_t lo hi 0 0))) lane_id w))))"

section \<open>Three-way maximum and median\<close>

definition max3_i32 :: "u32 \<Rightarrow> u32 \<Rightarrow> u32 \<Rightarrow> u32 res" where
  "max3_i32 s0 s1 s2 =
     (if s1 \<le>s s0 \<and> s2 \<le>s s0 then Inr s0
      else if s0 \<le>s s1 \<and> s2 \<le>s s1 then Inr s1
      else if s0 \<le>s s2 \<and> s1 \<le>s s2 then Inr s2
      else Inl Runtime_Error)"

definition V_MAX3_I32 :: "coasm \<Rightarrow> BytesVOP3A \<Rightarrow> u32 \<Rightarrow> 'm WarpState \<Rightarrow> 'm WarpState res" where
  "V_MAX3_I32 cfg b lane_id w = bindR (plain_sources3 cfg b w) (\<lambda>(s0, s1, s2).
     bindR (max3_i32 s0 s1 s2) (\<lambda>v. setVreg (vop3a_vdst b) v lane_id w))"

definition med3_i32 :: "u32 \<Rightarrow> u32 \<Rightarrow> u32 \<Rightarrow> u32 res" where
  "med3_i32 s0 s1 s2 =
     (if s1 \<le>s s0 \<and> s2 \<le>s s0 then Inr (if s2 \<le>s s1 then s1 else s2)
      else if s0 \<le>s s1 \<and> s2 \<le>s s1 then Inr (if s2 \<le>s s0 then s0 else s2)
      else if s0 \<le>s s2 \<and> s1 \<le>s s2 then Inr (if s1 \<le>s s0 then s0 else s1)
      else Inl Runtime_Error)"

definition V_MED3_I32 :: "coasm \<Rightarrow> BytesVOP3A \<Rightarrow> u32 \<Rightarrow> 'm WarpState \<Rightarrow> 'm WarpState res" where
  "V_MED3_I32 cfg b lane_id w = bindR (plain_sources3 cfg b w) (\<lambda>(s0, s1, s2).
     bindR (med3_i32 s0 s1 s2) (\<lambda>v. setVreg (vop3a_vdst b) v lane_id w))"

section \<open>Comparisons\<close>

definition V_CMP_LT_F32_VOP3A :: "coasm \<Rightarrow> BytesVOP3A \<Rightarrow> u32 \<Rightarrow> 'm WarpState \<Rightarrow> 'm WarpState res" where
  "V_CMP_LT_F32_VOP3A = write_compare (\<lambda>(s0, s1). f32_lt s0 s1) float_sources2"

definition V_CMP_EQ_F32_VOP3A :: "coasm \<Rightarrow> BytesVOP3A \<Rightarrow> u32 \<Rightarrow> 'm WarpState \<Rightarrow> 'm WarpState res" where
  "V_CMP_EQ_F32_VOP3A = write_compare (\<lambda>(s0, s1). f32_eq s0 s1) float_sources2"

definition V_CMP_GT_F32_VOP3A :: "coasm \<Rightarrow> BytesVOP3A \<Rightarrow> u32 \<Rightarrow> 'm WarpState \<Rightarrow> 'm WarpState res" where
  "V_CMP_GT_F32_VOP3A = write_compare (\<lambda>(s0, s1). f32_lt s1 s0) float_sources2"

definition V_CMP_NEQ_F32_VOP3A :: "coasm \<Rightarrow> BytesVOP3A \<Rightarrow> u32 \<Rightarrow> 'm WarpState \<Rightarrow> 'm WarpState res" where
  "V_CMP_NEQ_F32_VOP3A = write_compare (\<lambda>(s0, s1). \<not> f32_eq s0 s1) float_sources2"

definition V_CMP_NLT_F32_VOP3A :: "coasm \<Rightarrow> BytesVOP3A \<Rightarrow> u32 \<Rightarrow> 'm WarpState \<Rightarrow> 'm WarpState res" where
  "V_CMP_NLT_F32_VOP3A = write_compare (\<lambda>(s0, s1). \<not> f32_lt s0 s1) float_sources2"

definition V_CMP_LT_I32_VOP3A :: "coasm \<Rightarrow> BytesVOP3A \<Rightarrow> u32 \<Rightarrow> 'm WarpState \<Rightarrow> 'm WarpState res" where
  "V_CMP_LT_I32_VOP3A = write_compare (\<lambda>(s0, s1). sint s0 < sint s1) int_sources2"

definition V_CMP_EQ_I32_VOP3A :: "coasm \<Rightarrow> BytesVOP3A \<Rightarrow> u32 \<Rightarrow> 'm WarpState \<Rightarrow> 'm WarpState res" where
  "V_CMP_EQ_I32_VOP3A = write_compare (\<lambda>(s0, s1). sint s0 = sint s1) int_sources2"

definition V_CMP_LE_I32_VOP3A :: "coasm \<Rightarrow> BytesVOP3A \<Rightarrow> u32 \<Rightarrow> 'm WarpState \<Rightarrow> 'm WarpState res" where
  "V_CMP_LE_I32_VOP3A = write_compare (\<lambda>(s0, s1). sint s0 \<le> sint s1) int_sources2"

definition V_CMP_GT_I32_VOP3A :: "coasm \<Rightarrow> BytesVOP3A \<Rightarrow> u32 \<Rightarrow> 'm WarpState \<Rightarrow> 'm WarpState res" where
  "V_CMP_GT_I32_VOP3A = write_compare (\<lambda>(s0, s1). sint s0 > sint s1) int_sources2"

definition V_CMP_NE_I32_VOP3A :: "coasm \<Rightarrow> BytesVOP3A \<Rightarrow> u32 \<Rightarrow> 'm WarpState \<Rightarrow> 'm WarpState res" where
  "V_CMP_NE_I32_VOP3A = write_compare (\<lambda>(s0, s1). sint s0 \<noteq> sint s1) int_sources2"

definition V_CMP_GE_I32_VOP3A :: "coasm \<Rightarrow> BytesVOP3A \<Rightarrow> u32 \<Rightarrow> 'm WarpState \<Rightarrow> 'm WarpState res" where
  "V_CMP_GE_I32_VOP3A = write_compare (\<lambda>(s0, s1). sint s0 \<ge> sint s1) int_sources2"

definition V_CMP_LT_U32_VOP3A :: "coasm \<Rightarrow> BytesVOP3A \<Rightarrow> u32 \<Rightarrow> 'm WarpState \<Rightarrow> 'm WarpState res" where
  "V_CMP_LT_U32_VOP3A = write_compare (\<lambda>(s0, s1). s0 < s1) plain_sources2"

definition V_CMP_LE_U32_VOP3A :: "coasm \<Rightarrow> BytesVOP3A \<Rightarrow> u32 \<Rightarrow> 'm WarpState \<Rightarrow> 'm WarpState res" where
  "V_CMP_LE_U32_VOP3A = write_compare (\<lambda>(s0, s1). s0 \<le> s1) plain_sources2"

definition V_CMP_GT_U32_VOP3A :: "coasm \<Rightarrow> BytesVOP3A \<Rightarrow> u32 \<Rightarrow> 'm WarpState \<Rightarrow> 'm WarpState res" where
  "V_CMP_GT_U32_VOP3A = write_compare (\<lambda>(s0, s1). s0 > s1) plain_sources2"

definition V_CMP_LG_U32_VOP3A :: "coasm \<Rightarrow> BytesVOP3A \<Rightarrow> u32 \<Rightarrow> 'm WarpState \<Rightarrow> 'm WarpState res" where
  "V_CMP_LG_U32_VOP3A = write_compare (\<lambda>(s0, s1). s0 < s1 \<or> s0 > s1) plain_sources2"

definition V_CMP_GE_U32_VOP3A :: "coasm \<Rightarrow> BytesVOP3A \<Rightarrow> u32 \<Rightarrow> 'm WarpState \<Rightarrow> 'm WarpState res" where
  "V_CMP_GE_U32_VOP3A = write_compare (\<lambda>(s0, s1). s0 \<ge> s1) plain_sources2"

text \<open>This comparison writes the bit twice: to the destination and to the exec register, whose number
  comes from outside of the sources.\<close>

definition V_CMPX_EQ_I32_VOP3A :: "u32 \<Rightarrow> coasm \<Rightarrow> BytesVOP3A \<Rightarrow> u32 \<Rightarrow> 'm WarpState \<Rightarrow> 'm WarpState res" where
  "V_CMPX_EQ_I32_VOP3A register_exec cfg b lane_id w = bindR (int_sources2 cfg b w) (\<lambda>(s0, s1).
     bindR (setBitmaskSreg cfg (vop3a_vdst b) (of_bool (sint s0 = sint s1)) lane_id w) (\<lambda>w.
     setBitmaskSreg cfg register_exec (of_bool (sint s0 = sint s1)) lane_id w))"

section \<open>Double-precision product\<close>

text \<open>
  The product is decided by class. The cases meant for a zero or subnormal first source test the
  second one, and their literal \<open>-0\<close> is the integer 0.
\<close>

definition INF64 :: u64 where
  "INF64 = 0x7FF0000000000000"

definition NEG_INF64 :: u64 where
  "NEG_INF64 = 0xFFF0000000000000"

definition mul_f64 :: "fpu \<Rightarrow> u64 \<Rightarrow> u64 \<Rightarrow> u64" where
  "mul_f64 fp s0 s1 =
     (if f64_is_nan s0 \<or> f64_is_nan s1 then NAN64
      else if f64_is_tiny s1 \<and> \<not> f64_signbit s0 then
        (if f64_is_inf s1 then NAN64 else if \<not> f64_signbit s1 then 0 else 0)
      else if f64_is_tiny s1 \<and> f64_signbit s0 then
        (if f64_is_inf s1 then NAN64 else if \<not> f64_signbit s1 then 0 else 0)
      else if f64_is_inf s0 \<and> \<not> f64_signbit s0 then
        (if f64_is_tiny s1 then NAN64 else if \<not> f64_signbit s1 then INF64 else NEG_INF64)
      else if f64_is_inf s0 \<and> f64_signbit s0 then
        (if f64_is_tiny s1 then NAN64 else if \<not> f64_signbit s1 then NEG_INF64 else INF64)
      else f64_mul fp s0 s1)"

definition V_MUL_F64 :: "fpu \<Rightarrow> coasm \<Rightarrow> BytesVOP3A \<Rightarrow> u32 \<Rightarrow> 'm WarpState \<Rightarrow> 'm WarpState res" where
  "V_MUL_F64 fp cfg b lane_id w = no_modifier b
    (bindR (getSreg cfg (vop3a_src0 b) w) (\<lambda>lo0.
     bindR (getSreg cfg (vop3a_src0 b + 1) w) (\<lambda>hi0.
     bindR (getSreg cfg (vop3a_src1 b) w) (\<lambda>lo1.
     bindR (getSreg cfg (vop3a_src1 b + 1) w) (\<lambda>hi1.
     write_lane_pair (vop3a_vdst b)
       (mul_f64 fp (reg_as_u64 (Reg_t lo0 hi0 0 0)) (reg_as_u64 (Reg_t lo1 hi1 0 0))) lane_id w)))))"

section \<open>VOP3B\<close>

text \<open>The sum with carry in and carry out.\<close>

definition addc_u32 :: "u32 \<Rightarrow> u32 \<Rightarrow> u32 \<Rightarrow> u32 \<times> u32" where
  "addc_u32 s0 s1 carry_in = (s0 + s1 + carry_in,
     of_bool (drop_bit 32 ((ucast s0 :: u64) + ucast s1 + ucast carry_in) \<noteq> 0))"

definition V_ADDC_U32 :: "coasm \<Rightarrow> BytesVOP3B \<Rightarrow> u32 \<Rightarrow> 'm WarpState \<Rightarrow> 'm WarpState res" where
  "V_ADDC_U32 cfg b lane_id w =
     bindR (getSreg cfg (vop3b_src0 b) w) (\<lambda>s0.
     bindR (getVreg (vop3b_vsrc1 b) lane_id w) (\<lambda>s1.
     bindR (getBitmaskSreg cfg (vop3b_ssrc2 b) lane_id w) (\<lambda>carry_in.
     case addc_u32 s0 s1 carry_in of (v, carry) \<Rightarrow>
     bindR (setVreg (vop3b_vdst b) v lane_id w) (\<lambda>w.
     setBitmaskSreg cfg (vop3b_sdst b) carry lane_id w))))"

text \<open>The handlers that the code leaves to \<open>ISAUnimplemented\<close> leave the warp as it is.\<close>

definition ISAUnimplemented :: "'m WarpState \<Rightarrow> 'm WarpState res" where
  "ISAUnimplemented w = Inr w"

end
