(* ===== verification/Thread_Block.thy ===== *)
theory Thread_Block
  imports Simt_Stack Kernel_Info Warp_State Operands
begin

text \<open>
  The execution of a thread block (model/ThreadBlock.cpp, \<open>ThreadItem::Execute\<close> of
  model/ThreadItem.cpp): its threads, warps and memories, the fetch of an instruction, its
  execution by the active lanes of a warp, the update of the warp's stack and the loop over the
  warps until every thread has completed. The facts about it are in Thread_Block_Facts.
\<close>

section \<open>State\<close>

text \<open>
  An instruction as the block sees it: the part that all formats share and the virtual
  functions. Which handler an opcode selects is fixed by a table outside of the sources
  (opcodes.def), so \<open>make_instruction\<close> below is a parameter.
\<close>

record 'm Inst =
  in_base :: Instruction
  in_execute :: "u32 \<Rightarrow> Instruction \<times> 'm WarpState \<Rightarrow> (Instruction \<times> 'm WarpState) res"
  in_collect :: "'m WarpState \<Rightarrow> Instruction \<Rightarrow> Instruction res"
  in_write_back :: "Instruction \<Rightarrow> 'm WarpState \<Rightarrow> 'm WarpState res"

text \<open>The shared memory of the block and the global memory, with the accessors of their class.\<close>

type_synonym 'ms block_mem = "'ms \<times> 'ms"

record 'ms mem_ops =
  ms_read :: "u64 \<Rightarrow> nat \<Rightarrow> 'ms \<Rightarrow> u8 list"
  ms_write :: "u64 \<Rightarrow> u8 list \<Rightarrow> 'ms \<Rightarrow> 'ms"
  ms_new :: 'ms

text \<open>
  The threads, the block state and the memories are shared by pointer with the warp states; a
  warp state is given them when it is used (\<open>use_warp_state\<close>) and they are taken back from it
  afterwards. A warp has no state until \<open>createWarp\<close>.
\<close>

record 'ms ThreadBlock =
  tb_warp_size :: u32
  tb_warp_count :: u32
  tb_kernel_addr :: u64
  tb_kernel_args :: u64
  tb_kernel_const_num :: u32
  tb_warp :: "Warp list"
  tb_warp_state :: "'ms block_mem WarpState option list"
  tb_warp_live_thread :: "u32 list"
  tb_thread :: "ThreadItem option list"
  tb_block_state :: BlockState
  tb_insts :: "u64 \<rightharpoonup> 'ms block_mem Inst"
  tb_mem :: "'ms block_mem"

definition initilizeSIMTStack :: "u32 \<Rightarrow> u32 \<Rightarrow> 'ms ThreadBlock \<Rightarrow> 'ms ThreadBlock" where
  "initilizeSIMTStack warp_count warp_size tb =
     tb\<lparr>tb_warp := map (\<lambda>i. new_Warp (of_nat i) (unat warp_size)) [0..<unat warp_count],
        tb_warp_state := replicate (unat warp_count) None,
        tb_warp_size := warp_size, tb_warp_count := warp_count\<rparr>"

definition new_ThreadBlock ::
  "KernelInfo \<Rightarrow> BlockState \<Rightarrow> u32 \<Rightarrow> u32 \<Rightarrow> u32 \<Rightarrow> (nat \<Rightarrow> u32) \<Rightarrow> 'ms block_mem \<Rightarrow> 'ms ThreadBlock res" where
  "new_ThreadBlock k block_state warp_size threads_per_shader kernel_const_num junk mem =
     failR (warp_size = 0) Division_By_Zero
    (let warp_count = threads_per_shader div warp_size +
           (if threads_per_shader mod warp_size \<noteq> 0 then 1 else 0)
     in assertR (warp_count * warp_size > 0)
       (Inr (initilizeSIMTStack warp_count warp_size
          \<lparr>tb_warp_size = warp_size, tb_warp_count = warp_count,
           tb_kernel_addr = getProgAddr (ki_state k), tb_kernel_args = getParamAddr (ki_state k),
           tb_kernel_const_num = kernel_const_num, tb_warp = [], tb_warp_state = [],
           tb_warp_live_thread = map junk [0..<unat warp_count],
           tb_thread = replicate (unat (warp_count * warp_size)) None,
           tb_block_state = block_state, tb_insts = (\<lambda>_. None), tb_mem = mem\<rparr>)))"

definition use_warp_state :: "nat \<Rightarrow> 'ms ThreadBlock \<Rightarrow> 'ms block_mem WarpState res" where
  "use_warp_state wid tb = bindR (vec_get (tb_warp_state tb) wid) (\<lambda>s. case s of
     None \<Rightarrow> Inl Null_Deref
   | Some w \<Rightarrow> Inr (w\<lparr>wst_thread := tb_thread tb, wst_tb_state := tb_block_state tb, wst_memory := tb_mem tb\<rparr>))"

definition put_warp_state :: "nat \<Rightarrow> 'ms block_mem WarpState \<Rightarrow> 'ms ThreadBlock \<Rightarrow> 'ms ThreadBlock" where
  "put_warp_state wid w tb = tb\<lparr>tb_warp_state := (tb_warp_state tb)[wid := Some w],
     tb_thread := wst_thread w, tb_block_state := wst_tb_state w, tb_mem := wst_memory w\<rparr>"

section \<open>Executing an instruction in a thread\<close>

text \<open>The array of threads is indexed by the number of the thread in the block.\<close>

definition thread_at :: "u32 \<Rightarrow> 'm WarpState \<Rightarrow> ThreadItem res" where
  "thread_at tid w = bindR (vec_get (wst_thread w) (unat tid)) (\<lambda>t.
     case t of None \<Rightarrow> Inl Null_Deref | Some t \<Rightarrow> Inr t)"

definition modify_at :: "u32 \<Rightarrow> (ThreadItem \<Rightarrow> ThreadItem) \<Rightarrow> 'm WarpState \<Rightarrow> 'm WarpState res" where
  "modify_at tid f w = bindR (thread_at tid w) (\<lambda>t.
     bindR (vec_set (wst_thread w) (unat tid) (Some (f t))) (\<lambda>ts. Inr (w\<lparr>wst_thread := ts\<rparr>)))"

text \<open>
  A warp operation runs its handler only in the leading thread. The program counter of every
  active lane's next instruction is preset before the handler runs.
\<close>

definition ThreadItem_Execute ::
  "(u32 \<Rightarrow> Instruction \<times> 'm WarpState \<Rightarrow> (Instruction \<times> 'm WarpState) res) \<Rightarrow>
   u32 \<Rightarrow> Instruction \<times> 'm WarpState \<Rightarrow> (Instruction \<times> 'm WarpState) res" where
  "ThreadItem_Execute exec tid st = (case st of (ins, w) \<Rightarrow>
     bindR (thread_at tid w) (\<lambda>t.
     let pc = next_instr t in
     bindR (if \<not> ins_m_is_warp_op ins then modify_at tid (set_npc (pc + ins_m_size ins)) w else Inr w) (\<lambda>w.
     bindR (modify_at tid clearRPC w) (\<lambda>w.
     assertR (\<not> is_done t)
    (bindR (if ins_m_is_warp_op ins \<and> \<not> ti_leading_thread t then Inr (ins, w)
            else bindR (incWarpPC (ins_m_size ins) (ti_laneId t) w) (\<lambda>w. exec (ti_laneId t) (ins, w)))
       (\<lambda>(ins, w). bindR (modify_at tid update_pc w) (\<lambda>w. Inr (ins, w))))))))"

definition checkExecutionStatusAndUpdate ::
  "u32 \<Rightarrow> u32 \<Rightarrow> 'm WarpState \<Rightarrow> u32 list \<Rightarrow> u32 list res" where
  "checkExecutionStatusAndUpdate warp_size tid w alive =
     bindR (vec_get (wst_thread w) (unat tid)) (\<lambda>t.
     if (case t of None \<Rightarrow> True | Some t \<Rightarrow> is_done t) then
       bindR (vec_get alive (unat (tid div warp_size))) (\<lambda>n.
       vec_set alive (unat (tid div warp_size)) (n - 1))
     else Inr alive)"

section \<open>Executing an instruction in a warp\<close>

text \<open>The body of the loop over the lanes, for an active lane.\<close>

definition execute_lane ::
  "(u32 \<Rightarrow> Instruction \<times> 'm WarpState \<Rightarrow> (Instruction \<times> 'm WarpState) res) \<Rightarrow> u32 \<Rightarrow> u32 \<Rightarrow> nat \<Rightarrow>
   bool \<times> Instruction \<times> 'm WarpState \<times> u32 list \<Rightarrow> (bool \<times> Instruction \<times> 'm WarpState \<times> u32 list) res" where
  "execute_lane exec warp_size warp_id t st = (case st of (leading_thread, ins, w, alive) \<Rightarrow>
     let tid = warp_size * warp_id + of_nat t in
     bindR (modify_at tid (set_leading_thread leading_thread) w) (\<lambda>w.
     bindR (ThreadItem_Execute exec tid (ins, w)) (\<lambda>(ins, w).
     bindR (isLaneExit (of_nat t) w) (\<lambda>ex.
     bindR (if ex then bindR (thread_at tid w) (\<lambda>thd. bindR (set_done thd) (\<lambda>thd. modify_at tid (\<lambda>_. thd) w))
            else Inr w) (\<lambda>w.
     bindR (checkExecutionStatusAndUpdate warp_size tid w alive) (\<lambda>alive.
       Inr (False, ins, w, alive)))))))"

definition execute_lanes ::
  "(u32 \<Rightarrow> Instruction \<times> 'm WarpState \<Rightarrow> (Instruction \<times> 'm WarpState) res) \<Rightarrow> u32 \<Rightarrow> u32 \<Rightarrow> u32 \<Rightarrow>
   bool \<times> Instruction \<times> 'm WarpState \<times> u32 list \<Rightarrow> (bool \<times> Instruction \<times> 'm WarpState \<times> u32 list) res" where
  "execute_lanes exec warp_size warp_id active_mask st = forR (unat warp_size) (\<lambda>t st.
     bindR (test_lane active_mask t) (\<lambda>a. if a then execute_lane exec warp_size warp_id t st else Inr st)) st"

text \<open>
  The operands are collected and written back only when \<open>g_debug_exec > 1\<close> (\<open>debug\<close>), and they
  are collected before the active mask of the instruction is set.
\<close>

definition executeInstruction ::
  "bool \<Rightarrow> 'ms block_mem Inst \<Rightarrow> nat \<Rightarrow> 'ms ThreadBlock \<Rightarrow> ('ms block_mem Inst \<times> 'ms ThreadBlock) res" where
  "executeInstruction debug inst wid tb =
     bindR (vec_get (tb_warp tb) wid) (\<lambda>wp.
     bindR (get_simt_active_mask wp) (\<lambda>active_mask.
     bindR (use_warp_state wid tb) (\<lambda>w.
     bindR (if debug then in_collect inst w (in_base inst) else Inr (in_base inst)) (\<lambda>ins.
     bindR (execute_lanes (in_execute inst) (tb_warp_size tb) (of_nat wid) active_mask
        (True, ins, setActiveMask active_mask w, tb_warp_live_thread tb)) (\<lambda>(_, ins, w, alive).
     bindR (if debug then in_write_back inst ins w else Inr w) (\<lambda>w.
       Inr (inst\<lparr>in_base := ins\<rparr>, (put_warp_state wid w tb)\<lparr>tb_warp_live_thread := alive\<rparr>)))))))"

section \<open>The stack of a warp\<close>

definition is_thread_done :: "u32 \<Rightarrow> 'ms ThreadBlock \<Rightarrow> bool res" where
  "is_thread_done hw_thread_id tb = bindR (vec_get (tb_thread tb) (unat hw_thread_id)) (\<lambda>t.
     Inr (case t of None \<Rightarrow> True | Some t \<Rightarrow> is_done t))"

definition RECONVERGE_RETURN_PC :: addr_t where
  "RECONVERGE_RETURN_PC = -2"

text \<open>
  What the loop over the lanes collects: the completed lanes, the next program counters and the
  reconvergence point. The call stack of a thread is never filled, so asking for its return
  address reads the back of an empty list.
\<close>

definition collect_next_pc ::
  "u32 \<Rightarrow> 'ms ThreadBlock \<Rightarrow> nat \<Rightarrow> u32 \<times> addr_t list \<times> addr_t \<Rightarrow> (u32 \<times> addr_t list \<times> addr_t) res" where
  "collect_next_pc wtid tb i st = (case st of (thread_done, next_pc, reconvergence_pc) \<Rightarrow>
     bindR (is_thread_done (wtid + of_nat i) tb) (\<lambda>dn.
     if dn then
       failR (i \<ge> 32) Out_Of_Range (Inr (set_bit i thread_done, next_pc @ [-1], reconvergence_pc))
     else if reconvergence_pc = RECONVERGE_RETURN_PC then Inl Out_Of_Range
     else bindR (vec_get (tb_thread tb) (unat (wtid + of_nat i))) (\<lambda>t. case t of
       None \<Rightarrow> Inl Null_Deref
     | Some t \<Rightarrow> Inr (thread_done, next_pc @ [get_pc t], reconvergence_pc))))"

definition updateSIMTStack ::
  "nat \<Rightarrow> 'ms block_mem Inst \<Rightarrow> 'ms ThreadBlock \<Rightarrow> ('ms block_mem Inst \<times> 'ms ThreadBlock) res" where
  "updateSIMTStack wid inst tb =
     (let wtid = of_nat wid * tb_warp_size tb; ins = in_base inst in
      bindR (forR (unat (tb_warp_size tb)) (collect_next_pc wtid tb) (0, [], ins_reconvergence_pc ins))
        (\<lambda>(thread_done, next_pc, reconvergence_pc).
      bindR (vec_get (tb_warp tb) wid) (\<lambda>wp.
      bindR (Warp_update thread_done next_pc reconvergence_pc (ins_op_type ins) (ins_m_size ins) (ins_pc ins) wp)
        (\<lambda>wp.
       Inr (inst\<lparr>in_base := ins\<lparr>ins_reconvergence_pc := reconvergence_pc\<rparr>\<rparr>,
            tb\<lparr>tb_warp := (tb_warp tb)[wid := wp]\<rparr>)))))"

section \<open>Fetching\<close>

text \<open>
  An instruction is read from the global memory, made and decoded the first time its address is
  executed, and kept. \<open>make_instruction\<close> makes and decodes the instruction of an opcode.
\<close>

definition opcode_of_bytes :: "u8 list \<Rightarrow> u64" where
  "opcode_of_bytes bs = mem_ptr_of (bytes_u32 (take 4 bs)) (bytes_u32 (drop 4 bs))"

definition getInstruction ::
  "'ms mem_ops \<Rightarrow> (u64 \<Rightarrow> 'ms block_mem Inst res) \<Rightarrow> u64 \<Rightarrow> 'ms ThreadBlock \<Rightarrow>
   ('ms block_mem Inst \<times> 'ms ThreadBlock) res" where
  "getInstruction ops make_instruction pc tb =
     (case tb_insts tb pc of
        Some inst \<Rightarrow> Inr (inst, tb)
      | None \<Rightarrow>
          bindR (make_instruction (opcode_of_bytes (ms_read ops (tb_kernel_addr tb + pc) 8 (snd (tb_mem tb))))) (\<lambda>inst.
          let inst = inst\<lparr>in_base := (in_base inst)\<lparr>ins_pc := pc\<rparr>\<rparr>
          in Inr (inst, tb\<lparr>tb_insts := (tb_insts tb)(pc \<mapsto> inst)\<rparr>)))"

definition getExecuteWarp ::
  "'ms mem_ops \<Rightarrow> (u64 \<Rightarrow> 'ms block_mem Inst res) \<Rightarrow> nat \<Rightarrow> 'ms ThreadBlock \<Rightarrow>
   ('ms block_mem Inst \<times> 'ms ThreadBlock) res" where
  "getExecuteWarp ops make_instruction wid tb =
     bindR (vec_get (tb_warp tb) wid) (\<lambda>wp.
     bindR (get_pdom_stack_top_info wp) (\<lambda>(pc, rpc).
     bindR (getInstruction ops make_instruction (ucast pc) tb) (\<lambda>(inst, tb).
     bindR (update_simt_active_mask (ins_m_isatomic (in_base inst)) wp) (\<lambda>wp.
       Inr (inst, tb\<lparr>tb_warp := (tb_warp tb)[wid := wp]\<rparr>)))))"

text \<open>The instruction is an object that the block keeps: what changes in it stays changed.\<close>

definition keep_inst :: "'ms block_mem Inst \<Rightarrow> 'ms ThreadBlock \<Rightarrow> 'ms ThreadBlock" where
  "keep_inst inst tb = tb\<lparr>tb_insts := (tb_insts tb)(ins_pc (in_base inst) \<mapsto> inst)\<rparr>"

definition executeWarp ::
  "'ms mem_ops \<Rightarrow> (u64 \<Rightarrow> 'ms block_mem Inst res) \<Rightarrow> bool \<Rightarrow> nat \<Rightarrow> 'ms ThreadBlock \<Rightarrow> 'ms ThreadBlock res" where
  "executeWarp ops make_instruction debug wid tb =
     bindR (getExecuteWarp ops make_instruction wid tb) (\<lambda>(inst, tb).
     bindR (executeInstruction debug inst wid tb) (\<lambda>(inst, tb).
     bindR (updateSIMTStack wid inst tb) (\<lambda>(inst, tb). Inr (keep_inst inst tb))))"

section \<open>The loop over the warps\<close>

definition GetWarpExecuteOrder :: "u32 \<Rightarrow> nat list" where
  "GetWarpExecuteOrder warp_count = [0..<unat warp_count]"

definition warp_is_blocking :: "nat \<Rightarrow> 'ms ThreadBlock \<Rightarrow> bool res" where
  "warp_is_blocking wid tb = bindR (use_warp_state wid tb) (\<lambda>w. Inr (isBlocking w))"

definition warp_waiting_at_barrier :: "nat \<Rightarrow> 'ms ThreadBlock \<Rightarrow> bool res" where
  "warp_waiting_at_barrier wid tb =
     bindR (vec_get (bs_warp_at_bar (tb_block_state tb)) wid) (\<lambda>at_bar.
     if at_bar then Inr True
     else bindR (vec_get (tb_warp_live_thread tb) wid) (\<lambda>n. Inr (\<not> n > 0)))"

text \<open>One warp in one round; \<open>all_done\<close> is whether no warp visited so far had live threads.\<close>

definition visit_warp ::
  "'ms mem_ops \<Rightarrow> (u64 \<Rightarrow> 'ms block_mem Inst res) \<Rightarrow> bool \<Rightarrow> nat \<Rightarrow> 'ms ThreadBlock \<times> bool \<Rightarrow>
   ('ms ThreadBlock \<times> bool) res" where
  "visit_warp ops make_instruction debug wid st = (case st of (tb, all_done) \<Rightarrow>
     bindR (vec_get (tb_warp_live_thread tb) wid) (\<lambda>n.
     let all_done = (if n > 0 then False else all_done) in
     bindR (warp_is_blocking wid tb) (\<lambda>blocking.
     bindR (if blocking then Inr True else warp_waiting_at_barrier wid tb) (\<lambda>skip.
     if skip then Inr (tb, all_done)
     else
       bindR (executeWarp ops make_instruction debug wid tb) (\<lambda>tb.
       bindR (vec_get (tb_warp_live_thread tb) wid) (\<lambda>n.
       if n = 0 then
         bindR (removeWarp (of_nat wid) (tb_block_state tb)) (\<lambda>b. Inr (tb\<lparr>tb_block_state := b\<rparr>, all_done))
       else Inr (tb, all_done)))))))"

definition execute_round ::
  "'ms mem_ops \<Rightarrow> (u64 \<Rightarrow> 'ms block_mem Inst res) \<Rightarrow> bool \<Rightarrow> 'ms ThreadBlock \<Rightarrow> ('ms ThreadBlock \<times> bool) res" where
  "execute_round ops make_instruction debug tb =
     foldR (visit_warp ops make_instruction debug) (GetWarpExecuteOrder (tb_warp_count tb)) (tb, True)"

text \<open>The loop may run for ever: a program that does not end, or a warp that is never unblocked.\<close>

partial_function (option) execute_loop ::
  "'ms mem_ops \<Rightarrow> (u64 \<Rightarrow> 'ms block_mem Inst res) \<Rightarrow> bool \<Rightarrow> 'ms ThreadBlock \<Rightarrow> 'ms ThreadBlock res option" where
  "execute_loop ops make_instruction debug tb =
     (case execute_round ops make_instruction debug tb of
        Inl e \<Rightarrow> Some (Inl e)
      | Inr (tb, all_done) \<Rightarrow>
          if all_done then Some (Inr tb) else execute_loop ops make_instruction debug tb)"

section \<open>Setting up the block\<close>

text \<open>
  A thread takes its indices from the kernel, whose walk it advances. The function has no
  return statement; its result is not used. \<open>raw\<close> is the memory the object is made in.
\<close>

definition createThread :: "ThreadItem \<Rightarrow> u32 \<Rightarrow> u32 \<Rightarrow> u32 \<Rightarrow> u32 \<Rightarrow> KernelInfo \<Rightarrow> ThreadItem \<times> KernelInfo" where
  "createThread raw sid tid hw_cta_id hw_warp_id k =
     (let thd = ThreadItem_init sid hw_cta_id hw_warp_id tid (new_ThreadItem raw);
          ctaid3d = ki_next_cta k; tid3d = ki_next_tid k;
          k = increment_thread_id k;
          thd = set_tid tid3d (set_ctaid ctaid3d (set_ntid (ki_block_dim k) (set_nctaid (ki_grid_dim k) thd)))
      in (set_pc 0 (set_valid thd), k))"

definition createThreads :: "ThreadItem \<Rightarrow> u32 \<Rightarrow> nat \<Rightarrow> ThreadItem option list \<times> KernelInfo \<Rightarrow>
   (ThreadItem option list \<times> KernelInfo) res" where
  "createThreads raw warp_size n st = forR n (\<lambda>i (ts, k).
     case createThread raw 0 (of_nat i) 0 (of_nat i div warp_size) k of (thd, k) \<Rightarrow>
     bindR (vec_set ts i (Some thd)) (\<lambda>ts. Inr (ts, k))) st"

definition new_WarpState ::
  "u32 \<Rightarrow> u32 \<Rightarrow> u32 \<Rightarrow> u32 \<Rightarrow> (u64 \<Rightarrow> nat \<Rightarrow> 'm \<Rightarrow> u8 list) \<Rightarrow> (u64 \<Rightarrow> u8 list \<Rightarrow> 'm \<Rightarrow> 'm) \<Rightarrow>
   (SpaceType \<Rightarrow> u64 \<Rightarrow> nat \<Rightarrow> 'm \<Rightarrow> u8 list) \<Rightarrow> (SpaceType \<Rightarrow> u64 \<Rightarrow> u8 list \<Rightarrow> 'm \<Rightarrow> 'm) \<Rightarrow>
   'm WarpState \<Rightarrow> 'm WarpState" where
  "new_WarpState sreg_num vreg_num warp_size kernel_const_reg_num dsm_rd dsm_wr mem_rd mem_wr raw =
     raw\<lparr>wst_sreg_num := sreg_num, wst_vreg_num := vreg_num,
       wst_kernel_const_reg_num := kernel_const_reg_num, wst_warp_size := warp_size,
       wst_dsm_read := dsm_rd, wst_dsm_write := dsm_wr, wst_mem_read := mem_rd, wst_mem_write := mem_wr,
       wst_vector_memory_global_coherency := False, wst_scalar_memory_read := False,
       wst_vector_memory_read := False, wst_vector_memory_write := False, wst_memory_wait := False\<rparr>"

text \<open>The memory that an access goes to; every other space is the shared memory.\<close>

definition space_is_global :: "SpaceType \<Rightarrow> bool" where
  "space_is_global mem_space \<longleftrightarrow>
     mem_space \<in> {global_space, const_space, param_local_space, param_kernel_space, local_space, generic_space}"

definition dsm_read_func :: "'ms mem_ops \<Rightarrow> u64 \<Rightarrow> nat \<Rightarrow> 'ms block_mem \<Rightarrow> u8 list" where
  "dsm_read_func ops addr n mem = ms_read ops addr n (fst mem)"

definition dsm_write_func :: "'ms mem_ops \<Rightarrow> u64 \<Rightarrow> u8 list \<Rightarrow> 'ms block_mem \<Rightarrow> 'ms block_mem" where
  "dsm_write_func ops addr bs mem = (ms_write ops addr bs (fst mem), snd mem)"

definition mem_read_func :: "'ms mem_ops \<Rightarrow> SpaceType \<Rightarrow> u64 \<Rightarrow> nat \<Rightarrow> 'ms block_mem \<Rightarrow> u8 list" where
  "mem_read_func ops mem_space addr n mem =
     ms_read ops addr n (if space_is_global mem_space then snd mem else fst mem)"

definition mem_write_func :: "'ms mem_ops \<Rightarrow> SpaceType \<Rightarrow> u64 \<Rightarrow> u8 list \<Rightarrow> 'ms block_mem \<Rightarrow> 'ms block_mem" where
  "mem_write_func ops mem_space addr bs mem =
     (if space_is_global mem_space then (fst mem, ms_write ops addr bs (snd mem))
      else (ms_write ops addr bs (fst mem), snd mem))"

text \<open>
  The registers that receive the thread index: consecutive ones for the bits set in the kernel
  control word; the third one depends on the bit of the second. -1 means none.
\<close>

definition index_regs :: "bool \<Rightarrow> bool \<Rightarrow> (int \<times> int \<times> int)" where
  "index_regs bit_x bit_y =
     (let x = (if bit_x then 0 else -1); y = (if bit_y then x + 1 else -1); z = (if bit_y then y + 1 else -1)
      in (x, y, z))"

definition set_index :: "coasm \<Rightarrow> int \<Rightarrow> u32 \<Rightarrow> u32 \<Rightarrow> 'm WarpState \<Rightarrow> 'm WarpState res" where
  "set_index cfg reg_num v lane_id w =
     (if reg_num \<ge> 0 then setVreg (of_int reg_num + THREAD_REG_BASE cfg) v lane_id w else Inr w)"

text \<open>The loop over the lanes of a new warp: its state is the mask, the live count and the warp state.\<close>

definition init_lane ::
  "coasm \<Rightarrow> u32 \<Rightarrow> u32 \<Rightarrow> u32 \<Rightarrow> nat \<Rightarrow> u32 \<times> u32 \<times> 'm WarpState \<Rightarrow> (u32 \<times> u32 \<times> 'm WarpState) res" where
  "init_lane cfg ctrl warp_size warp_id lane_id st = (case st of (initialMask, n, w) \<Rightarrow>
     let i = warp_id * warp_size + of_nat lane_id;
         (x, y, z) = index_regs (bit ctrl (KERNEL_CTRL_BIT_THREAD_IDX_X cfg)) (bit ctrl (KERNEL_CTRL_BIT_THREAD_IDX_Y cfg))
     in bindR (vec_get (wst_thread w) (unat i)) (\<lambda>t. case t of
          None \<Rightarrow> failR (lane_id \<ge> 32) Out_Of_Range (Inr (unset_bit lane_id initialMask, n, w))
        | Some thd \<Rightarrow>
            bindR (modify_at i (set_laneid (of_nat lane_id)) w) (\<lambda>w.
            bindR (set_index cfg x (dx (ti_tid thd)) (of_nat lane_id) w) (\<lambda>w.
            bindR (set_index cfg y (dy (ti_tid thd)) (of_nat lane_id) w) (\<lambda>w.
            bindR (set_index cfg z (dz (ti_tid thd)) (of_nat lane_id) w) (\<lambda>w.
              Inr (initialMask, n + 1, w)))))))"

text \<open>
  \<open>raw\<close>, \<open>junk\<close> and \<open>junk_status\<close> are the uninitialised members and arrays of the new warp state.
  Resuming from a checkpoint file is in the theory Block_Checkpoint.
\<close>

definition createWarp ::
  "coasm \<Rightarrow> 'ms mem_ops \<Rightarrow> KernelInfo \<Rightarrow> 'ms block_mem WarpState \<Rightarrow> (nat \<Rightarrow> u32) \<Rightarrow> (nat \<Rightarrow> WarpStatus) \<Rightarrow> nat \<Rightarrow>
   'ms ThreadBlock \<Rightarrow> 'ms ThreadBlock res" where
  "createWarp cfg ops k raw junk junk_status wid tb =
     (let w = new_WarpState 256 265 (tb_warp_size tb) (tb_kernel_const_num tb) (dsm_read_func ops)
            (dsm_write_func ops) (mem_read_func ops) (mem_write_func ops) raw;
          w = WarpState_init (of_nat wid) (tb_block_state tb) (tb_thread tb) junk junk_status w;
          st = ki_state k
      in bindR (setStackPointer cfg (getLocalAddr st + getLocalSize st * of_nat wid) w) (\<lambda>w.
         let w = setConstBuffer (getConstBuffer st) w in
         bindR (forR (unat (tb_warp_size tb)) (init_lane cfg (ki_kernel_ctrl k) (tb_warp_size tb) (of_nat wid)) (-1, 0, w))
           (\<lambda>(initialMask, n, w).
         bindR (thread_at (of_nat wid * tb_warp_size tb) w) (\<lambda>thd.
         bindR (vec_get (tb_warp tb) wid) (\<lambda>wp.
         bindR (vec_set (tb_warp_live_thread tb) wid n) (\<lambda>ls.
           Inr (tb\<lparr>tb_warp := (tb_warp tb)[wid := Warp_launch (get_pc thd) initialMask wp],
             tb_warp_state := (tb_warp_state tb)[wid := Some w],
             tb_thread := wst_thread w, tb_warp_live_thread := ls\<rparr>)))))))"

text \<open>The index of the block is written to the shared memory, each component at the same place.\<close>

definition write_block_index :: "coasm \<Rightarrow> 'ms mem_ops \<Rightarrow> u32 \<Rightarrow> dim3 \<Rightarrow> 'ms \<Rightarrow> 'ms" where
  "write_block_index cfg ops ctrl cta_id shared =
     (case index_regs (bit ctrl (KERNEL_CTRL_BIT_BLOCK_IDX_X cfg)) (bit ctrl (KERNEL_CTRL_BIT_BLOCK_IDX_Y cfg)) of
        (x, y, z) \<Rightarrow>
        let shared = (if x \<ge> 0 then ms_write ops (of_int x) (u32_bytes (dx cta_id)) shared else shared);
            shared = (if y \<ge> 0 then ms_write ops (of_int x) (u32_bytes (dy cta_id)) shared else shared)
        in if z \<ge> 0 then ms_write ops (of_int x) (u32_bytes (dz cta_id)) shared else shared)"

definition initializeCTA ::
  "coasm \<Rightarrow> 'ms mem_ops \<Rightarrow> ThreadItem \<Rightarrow> 'ms block_mem WarpState \<Rightarrow> (nat \<Rightarrow> u32) \<Rightarrow> (nat \<Rightarrow> WarpStatus) \<Rightarrow>
   'ms ThreadBlock \<times> KernelInfo \<Rightarrow> ('ms ThreadBlock \<times> KernelInfo) res" where
  "initializeCTA cfg ops raw_thread raw junk junk_status st = (case st of (tb, k) \<Rightarrow>
     let n = unat (tb_warp_count tb); cells = unat (tb_warp_count tb * tb_warp_size tb) in
     bindR (createThreads raw_thread (tb_warp_size tb) (unat (threads_per_cta k)) (replicate cells None, k)) (\<lambda>(ts, k).
     let shared = write_block_index cfg ops (ki_kernel_ctrl k) (bs_cta_id (tb_block_state tb)) (ms_new ops);
         tb = tb\<lparr>tb_warp_live_thread := replicate n 0, tb_thread := ts, tb_mem := (shared, snd (tb_mem tb))\<rparr>
     in bindR (forR n (createWarp cfg ops k raw junk junk_status) tb) (\<lambda>tb. Inr (tb, k))))"

text \<open>The execution of a block, without checkpoints (\<open>checkpoint_option\<close> is 0); with them, see Block_Checkpoint.\<close>

definition ThreadBlock_execute ::
  "coasm \<Rightarrow> 'ms mem_ops \<Rightarrow> (u64 \<Rightarrow> 'ms block_mem Inst res) \<Rightarrow> bool \<Rightarrow> ThreadItem \<Rightarrow> 'ms block_mem WarpState \<Rightarrow>
   (nat \<Rightarrow> u32) \<Rightarrow> (nat \<Rightarrow> WarpStatus) \<Rightarrow> 'ms ThreadBlock \<times> KernelInfo \<Rightarrow> ('ms ThreadBlock \<times> KernelInfo) res option" where
  "ThreadBlock_execute cfg ops make_instruction debug raw_thread raw junk junk_status st =
     (case initializeCTA cfg ops raw_thread raw junk junk_status st of
        Inl e \<Rightarrow> Some (Inl e)
      | Inr (tb, k) \<Rightarrow> (case execute_loop ops make_instruction debug tb of
            None \<Rightarrow> None
          | Some r \<Rightarrow> Some (bindR r (\<lambda>tb. Inr (tb, k)))))"

end
