(* ===== verification/Thread_Block_Facts.thy ===== *)
theory Thread_Block_Facts
  imports Thread_Block Scalar_ISA
begin

text \<open>
  What the execution of a thread block keeps true. The contract between the block and the
  handlers of the instructions is the locale \<open>handler\<close>; under it one instruction of a warp
  moves exactly the active lanes, ends those that exit and keeps the count of live threads exact. The
  invariant of the block is in Block_Invariant, its steps are in Block_Run.
\<close>

section \<open>The contract of a handler\<close>

text \<open>What an instruction may change of a thread without the block noticing.\<close>

definition norm :: "ThreadItem \<Rightarrow> ThreadItem" where
  "norm t = t\<lparr>ti_NPC := 0, ti_RPC := 0, ti_RPC_updated := False, ti_last_was_call := False,
     ti_leading_thread := False\<rparr>"

definition only_npc :: "ThreadItem option list \<Rightarrow> ThreadItem option list \<Rightarrow> bool" where
  "only_npc ts ts' \<longleftrightarrow> map (map_option (set_npc 0)) ts' = map (map_option (set_npc 0)) ts"

text \<open>The part of a warp state that a handler keeps, whatever lane it runs for.\<close>

definition warp_frame :: "u32 \<Rightarrow> 'm WarpState \<Rightarrow> 'm WarpState \<Rightarrow> bool" where
  "warp_frame l w w' \<longleftrightarrow> wst_warp_id w' = wst_warp_id w \<and> wst_warp_size w' = wst_warp_size w \<and>
     wst_active_mask w' = wst_active_mask w \<and> wst_is_blocking w' = wst_is_blocking w \<and>
     only_npc (wst_thread w) (wst_thread w') \<and>
     length (wst_status w') = length (wst_status w) \<and>
     (\<forall>i < length (wst_status w). i \<noteq> unat l \<longrightarrow> wst_status w' ! i = wst_status w ! i)"

definition inst_frame :: "Instruction \<Rightarrow> Instruction \<Rightarrow> bool" where
  "inst_frame ins ins' \<longleftrightarrow> (\<exists>ops. ins' = ins\<lparr>ins_operands := ops\<rparr>)"

locale handler =
  fixes exec :: "u32 \<Rightarrow> Instruction \<times> 'm WarpState \<Rightarrow> (Instruction \<times> 'm WarpState) res"
  assumes frame: "exec l (ins, w) = Inr (ins', w') \<Longrightarrow> warp_frame l w w' \<and> inst_frame ins ins'"

section \<open>Threads\<close>

lemma only_npc_refl [simp]: "only_npc ts ts"
  by (simp add: only_npc_def)

lemma only_npc_trans: "only_npc a b \<Longrightarrow> only_npc b c \<Longrightarrow> only_npc a c"
  by (simp add: only_npc_def)

lemma only_npc_length: "only_npc a b \<Longrightarrow> length b = length a"
  unfolding only_npc_def by (drule arg_cong[where f = length]) simp

lemma only_npc_nth:
  assumes "only_npc a b" "i < length a"
  shows "map_option (set_npc 0) (b ! i) = map_option (set_npc 0) (a ! i)"
proof -
  have "map (map_option (set_npc 0)) b ! i = map (map_option (set_npc 0)) a ! i"
    using assms(1) by (simp add: only_npc_def)
  then show ?thesis using assms(2) only_npc_length[OF assms(1)] by simp
qed

lemma norm_eq_npc: "set_npc 0 t' = set_npc 0 t \<Longrightarrow> norm t' = norm t"
proof -
  have n: "norm (set_npc 0 t) = norm t" for t by (simp add: norm_def set_npc_def)
  assume "set_npc 0 t' = set_npc 0 t"
  then show "norm t' = norm t" using n[of t] n[of t'] by simp
qed

lemma only_npc_norm: "only_npc a b \<Longrightarrow> i < length a \<Longrightarrow> map_option norm (b ! i) = map_option norm (a ! i)"
  using only_npc_nth[of a b i] by (cases "a ! i"; cases "b ! i") (auto intro: norm_eq_npc)

lemma only_npc_update:
  "i < length ts \<Longrightarrow> ts ! i = Some t \<Longrightarrow> only_npc ts (ts[i := Some (set_npc n t)])"
  by (auto simp: only_npc_def map_update list_update_same_conv set_npc_def nth_map
      intro!: list_update_same_conv[THEN iffD2])

lemma norm_set [simp]:
  "norm (set_npc n t) = norm t" "norm (clearRPC t) = norm t" "norm (set_leading_thread b t) = norm t"
  by (simp_all add: norm_def set_npc_def clearRPC_def set_leading_thread_def)

lemma norm_fields:
  assumes "norm t' = norm t"
  shows "ti_PC t' = ti_PC t" "ti_thread_done t' = ti_thread_done t" "ti_laneId t' = ti_laneId t"
    "ti_at_barrier t' = ti_at_barrier t" "ti_tid t' = ti_tid t" "ti_ctaid t' = ti_ctaid t"
  using arg_cong[OF assms, of ti_PC] arg_cong[OF assms, of ti_thread_done] arg_cong[OF assms, of ti_laneId]
    arg_cong[OF assms, of ti_at_barrier] arg_cong[OF assms, of ti_tid] arg_cong[OF assms, of ti_ctaid]
  by (simp_all add: norm_def)

lemma thread_at_Inr [res_simps]:
  "thread_at tid w = Inr t \<longleftrightarrow> unat tid < length (wst_thread w) \<and> wst_thread w ! unat tid = Some t"
  by (auto simp: thread_at_def vec_get_def split: option.splits)

lemma modify_at_Inr [res_simps]:
  "modify_at tid f w = Inr w' \<longleftrightarrow> (\<exists>t. thread_at tid w = Inr t \<and>
     w' = w\<lparr>wst_thread := (wst_thread w)[unat tid := Some (f t)]\<rparr>)"
  by (auto simp: modify_at_def res_simps)

lemma getThread_at: "getThread lane w = thread_at (wst_warp_id w * wst_warp_size w + lane) w"
  by (simp add: getThread_def thread_at_def Let_def)

lemma modifyThread_at: "modifyThread lane f w = modify_at (wst_warp_id w * wst_warp_size w + lane) f w"
  by (simp add: modifyThread_def modify_at_def getThread_at)

lemma warp_frame_refl [simp]: "warp_frame l w w"
  by (simp add: warp_frame_def)

lemma warp_frame_trans: "warp_frame l a b \<Longrightarrow> warp_frame l b c \<Longrightarrow> warp_frame l a c"
  by (auto simp: warp_frame_def intro: only_npc_trans)

lemma inst_frame_refl [simp]: "inst_frame i i"
  unfolding inst_frame_def by (rule exI[of _ "ins_operands i"]) simp

lemma inst_frame_trans: "inst_frame a b \<Longrightarrow> inst_frame b c \<Longrightarrow> inst_frame a c"
  unfolding inst_frame_def by fastforce

lemma set_npc_frame: "modifyThread lane (set_npc n) w = Inr w' \<Longrightarrow> warp_frame l w w'"
  by (auto simp: modifyThread_at res_simps warp_frame_def only_npc_update)

lemma for_active_frame:
  assumes "for_active_lanes f w = Inr w'" "\<And>lane u v. f lane u = Inr v \<Longrightarrow> warp_frame l u v"
  shows "warp_frame l w w'"
  using assms(1) unfolding for_active_lanes_def
proof (rule forR_invariant[where P = "warp_frame l w"])
  fix i u v
  assume "bindR (test_lane (wst_active_mask u) i) (\<lambda>a. if a then f (of_nat i) u else Inr u) = Inr v" "warp_frame l w u"
  then show "warp_frame l w v"
    using assms(2)[of "of_nat i" u v] warp_frame_trans[of l w u v] by (auto simp: res_simps split: if_splits)
qed simp

lemma incWarpPC_frame: "incWarpPC n lane w = Inr w' \<Longrightarrow> warp_frame l w w'"
  by (auto simp: incWarpPC_def res_simps Let_def intro: for_active_frame set_npc_frame)

lemma incThreadPC_frame: "incThreadPC n lane w = Inr w' \<Longrightarrow> warp_frame l w w'"
  by (auto simp: incThreadPC_def res_simps Let_def intro: set_npc_frame)

section \<open>One lane\<close>

definition norm_threads :: "'m WarpState \<Rightarrow> ThreadItem option list" where
  "norm_threads w = map (map_option norm) (wst_thread w)"

definition fixed_part :: "'m WarpState \<Rightarrow> u32 \<times> u32 \<times> u32 \<times> bool" where
  "fixed_part w = (wst_warp_id w, wst_warp_size w, wst_active_mask w, wst_is_blocking w)"

text \<open>Only lane \<open>l\<close>'s status may differ.\<close>

definition status_but :: "nat \<Rightarrow> WarpStatus list \<Rightarrow> WarpStatus list \<Rightarrow> bool" where
  "status_but l st st' \<longleftrightarrow> length st' = length st \<and> (\<forall>i < length st. i \<noteq> l \<longrightarrow> st' ! i = st ! i)"

lemma status_but_refl [simp]: "status_but l st st"
  by (simp add: status_but_def)

lemma norm_threads_eq:
  assumes "norm_threads w' = norm_threads w"
  shows "length (wst_thread w') = length (wst_thread w)"
    "i < length (wst_thread w) \<Longrightarrow> map_option norm (wst_thread w' ! i) = map_option norm (wst_thread w ! i)"
proof -
  show l: "length (wst_thread w') = length (wst_thread w)"
    using arg_cong[OF assms, of length] by (simp add: norm_threads_def)
  have "norm_threads w' ! i = norm_threads w ! i" using assms by simp
  then show "i < length (wst_thread w) \<Longrightarrow> map_option norm (wst_thread w' ! i) = map_option norm (wst_thread w ! i)"
    using l by (simp add: norm_threads_def)
qed

lemma modify_at_norm:
  assumes "modify_at tid f w = Inr w'" "\<And>t. norm (f t) = norm t"
  shows "norm_threads w' = norm_threads w" "fixed_part w' = fixed_part w" "wst_status w' = wst_status w"
proof -
  obtain t where t: "unat tid < length (wst_thread w)" "wst_thread w ! unat tid = Some t"
    and w': "w' = w\<lparr>wst_thread := (wst_thread w)[unat tid := Some (f t)]\<rparr>"
    using assms(1) by (auto simp: res_simps)
  show "norm_threads w' = norm_threads w"
    unfolding norm_threads_def w' using t assms(2)[of t]
    by (auto simp: map_update nth_map intro!: list_update_same_conv[THEN iffD2])
  show "fixed_part w' = fixed_part w" "wst_status w' = wst_status w" by (simp_all add: w' fixed_part_def)
qed

lemma warp_frame_norm:
  assumes "warp_frame l w w'"
  shows "norm_threads w' = norm_threads w" "fixed_part w' = fixed_part w"
    "status_but (unat l) (wst_status w) (wst_status w')"
proof -
  have o: "only_npc (wst_thread w) (wst_thread w')" using assms by (simp add: warp_frame_def)
  show "norm_threads w' = norm_threads w"
    unfolding norm_threads_def using only_npc_length[OF o] only_npc_norm[OF o]
    by (intro nth_equalityI) auto
  show "fixed_part w' = fixed_part w" "status_but (unat l) (wst_status w) (wst_status w')"
    using assms by (auto simp: warp_frame_def fixed_part_def status_but_def)
qed

text \<open>What one thread's execution does: its program counter moves, nothing else of any thread.\<close>

lemma update_pc_norm: "norm (update_pc t) = (norm t)\<lparr>ti_PC := ti_NPC t\<rparr>"
  by (simp add: norm_def update_pc_def)

context handler
begin

lemma thread_execute:
  assumes "ThreadItem_Execute exec tid (ins, w) = Inr (ins', w')"
  obtains t n where "unat tid < length (wst_thread w)" "wst_thread w ! unat tid = Some t" "\<not> is_done t"
    "norm_threads w' = (norm_threads w)[unat tid := Some ((norm t)\<lparr>ti_PC := n\<rparr>)]"
    "fixed_part w' = fixed_part w" "status_but (unat (ti_laneId t)) (wst_status w) (wst_status w')"
    "inst_frame ins ins'"
proof -
  obtain t where t: "thread_at tid w = Inr t" "unat tid < length (wst_thread w)"
    "wst_thread w ! unat tid = Some t"
    using assms by (auto simp: ThreadItem_Execute_def res_simps Let_def)
  obtain w1 w2 w4 where 1: "(if \<not> ins_m_is_warp_op ins then modify_at tid (set_npc (next_instr t + ins_m_size ins)) w
        else Inr w) = Inr w1" "modify_at tid clearRPC w1 = Inr w2" "\<not> is_done t"
    and 4: "(if ins_m_is_warp_op ins \<and> \<not> ti_leading_thread t then Inr (ins, w2)
        else bindR (incWarpPC (ins_m_size ins) (ti_laneId t) w2) (\<lambda>w. exec (ti_laneId t) (ins, w))) = Inr (ins', w4)"
    and 5: "modify_at tid update_pc w4 = Inr w'"
    using assms t(1) by (auto simp: ThreadItem_Execute_def res_simps Let_def simp del: if_split split: if_splits)
  have n1: "norm_threads w1 = norm_threads w" "fixed_part w1 = fixed_part w" "wst_status w1 = wst_status w"
    using 1(1) modify_at_norm[of tid "set_npc (next_instr t + ins_m_size ins)" w w1] by (auto split: if_splits)
  have n2: "norm_threads w2 = norm_threads w" "fixed_part w2 = fixed_part w" "wst_status w2 = wst_status w"
    using modify_at_norm[OF 1(2)] n1 by auto
  have n4: "norm_threads w4 = norm_threads w \<and> fixed_part w4 = fixed_part w \<and>
    status_but (unat (ti_laneId t)) (wst_status w) (wst_status w4) \<and> inst_frame ins ins'"
  proof (cases "ins_m_is_warp_op ins \<and> \<not> ti_leading_thread t")
    case True
    then show ?thesis using 4 n2 by auto
  next
    case False
    then obtain w3 where "incWarpPC (ins_m_size ins) (ti_laneId t) w2 = Inr w3"
      "exec (ti_laneId t) (ins, w3) = Inr (ins', w4)" using 4 by (auto simp: res_simps split: if_splits)
    then have "warp_frame (ti_laneId t) w2 w4" "inst_frame ins ins'"
      using incWarpPC_frame frame warp_frame_trans by blast+
    then show ?thesis using warp_frame_norm n2 by metis
  qed
  obtain t4 where t4: "unat tid < length (wst_thread w4)" "wst_thread w4 ! unat tid = Some t4"
    "w' = w4\<lparr>wst_thread := (wst_thread w4)[unat tid := Some (update_pc t4)]\<rparr>"
    using 5 by (auto simp: res_simps)
  have "norm t4 = norm t" using norm_threads_eq(2)[of w4 w "unat tid"] n4 t t4(2) by simp
  then have "norm_threads w' = (norm_threads w)[unat tid := Some ((norm t)\<lparr>ti_PC := ti_NPC t4\<rparr>)]"
    using n4 by (simp add: t4(3) norm_threads_def map_update update_pc_norm)
  then show thesis
    using that t 1(3) n4 t4(3) by (auto simp: fixed_part_def)
qed

end

text \<open>One iteration of the loop over the lanes: the lane's thread moves, and is done if its
  handler set the status of the lane; then it is no longer counted.\<close>

lemma done_unchanged: "\<not> is_done t \<Longrightarrow> (norm t)\<lparr>ti_PC := n\<rparr> = (norm t)\<lparr>ti_PC := n, ti_thread_done := False\<rparr>"
  by (simp add: is_done_def norm_def)

lemma set_done_Inr: "set_done t = Inr t' \<longleftrightarrow> \<not> ti_at_barrier t \<and> t' = t\<lparr>ti_thread_done := True\<rparr>"
  by (auto simp: set_done_def res_simps)

lemma norm_nth: "unat tid < length (wst_thread w) \<Longrightarrow> wst_thread w ! unat tid = Some t \<Longrightarrow>
    norm_threads w ! unat tid = Some (norm t)"
  by (simp add: norm_threads_def)

lemma norm_nth_Some:
  "i < length (wst_thread w) \<Longrightarrow> norm_threads w ! i = Some u \<Longrightarrow> \<exists>t. wst_thread w ! i = Some t \<and> norm t = u"
  by (auto simp: norm_threads_def)

lemma length_norm_threads [simp]: "length (norm_threads w) = length (wst_thread w)"
  by (simp add: norm_threads_def)

context handler
begin

lemma lane_result:
  assumes "execute_lane exec warp_size warp_id t (leading, ins, w, c) = Inr (leading', ins', w', c')"
    and "t < 32" "t < length (wst_status w)" "tid = warp_size * warp_id + of_nat t"
    and "\<And>thd. wst_thread w ! unat tid = Some thd \<Longrightarrow> ti_laneId thd = of_nat t"
  obtains thd n where "unat tid < length (wst_thread w)" "wst_thread w ! unat tid = Some thd" "\<not> is_done thd"
    "\<not> leading'" "inst_frame ins ins'" "fixed_part w' = fixed_part w" "status_but t (wst_status w) (wst_status w')"
    "norm_threads w' = (norm_threads w)[unat tid :=
       Some ((norm thd)\<lparr>ti_PC := n, ti_thread_done := (wst_status w' ! t = W_EXIT)\<rparr>)]"
    "c' = (if wst_status w' ! t = W_EXIT then c[unat (tid div warp_size) := c ! unat (tid div warp_size) - 1] else c)"
    "wst_status w' ! t = W_EXIT \<longrightarrow> unat (tid div warp_size) < length c"
proof -
  have tu: "unat (of_nat t :: u32) = t" using assms(2) by (simp add: unat_of_nat)
  obtain w1 w2 ex w3 where 1: "modify_at tid (set_leading_thread leading) w = Inr w1"
    and 2: "ThreadItem_Execute exec tid (ins, w1) = Inr (ins', w2)"
    and 3: "isLaneExit (of_nat t) w2 = Inr ex"
      "(if ex then bindR (thread_at tid w2) (\<lambda>thd. bindR (set_done thd) (\<lambda>thd. modify_at tid (\<lambda>_. thd) w2))
        else Inr w2) = Inr w3"
    and 4: "checkExecutionStatusAndUpdate warp_size tid w3 c = Inr c'" "leading' = False" "w' = w3"
    using assms(1) by (auto simp: execute_lane_def assms(4)[symmetric] res_simps Let_def simp del: if_split)
  note n1 = modify_at_norm[OF 1, OF norm_set(3)]
  obtain thd1 n where t1: "unat tid < length (wst_thread w1)" "wst_thread w1 ! unat tid = Some thd1"
    "\<not> is_done thd1" "norm_threads w2 = (norm_threads w1)[unat tid := Some ((norm thd1)\<lparr>ti_PC := n\<rparr>)]"
    "fixed_part w2 = fixed_part w1" "status_but (unat (ti_laneId thd1)) (wst_status w1) (wst_status w2)"
    "inst_frame ins ins'"
    using thread_execute[OF 2] .
  obtain thd where t: "unat tid < length (wst_thread w)" "wst_thread w ! unat tid = Some thd"
    "wst_thread w1 = (wst_thread w)[unat tid := Some (set_leading_thread leading thd)]"
    using 1 by (auto simp: res_simps)
  then have "thd1 = set_leading_thread leading thd" using t1(1,2) by simp
  then have nt: "norm thd1 = norm thd" by simp
  note lane = norm_fields[OF nt]
  have st2: "status_but t (wst_status w) (wst_status w2)"
    using t1(6) n1(3) lane(3) assms(5)[OF t(2)] tu by simp
  have ex: "ex = (wst_status w2 ! t = W_EXIT)"
    using 3(1) tu by (auto simp: isLaneExit_def res_simps)
  have len2: "length (wst_thread w2) = length (wst_thread w)"
    using arg_cong[OF t1(4), of length] t(3) by simp
  obtain t2 where t2: "wst_thread w2 ! unat tid = Some t2" "norm t2 = (norm thd)\<lparr>ti_PC := n\<rparr>"
    using norm_nth_Some[of "unat tid" w2] t(1) len2 t1(4) n1(1) nt by auto
  have nd: "\<not> is_done thd" "\<not> is_done t2"
    using t1(3) lane(2) arg_cong[OF t2(2), of ti_thread_done] by (simp_all add: is_done_def norm_def)
  have w3: "norm_threads w3 = (norm_threads w)[unat tid := Some ((norm thd)\<lparr>ti_PC := n, ti_thread_done := ex\<rparr>)] \<and>
    fixed_part w3 = fixed_part w2 \<and> wst_status w3 = wst_status w2 \<and>
    (\<exists>t3. wst_thread w3 ! unat tid = Some t3 \<and> is_done t3 = ex) \<and> length (wst_thread w3) = length (wst_thread w)"
  proof (cases ex)
    case True
    then have "w3 = w2\<lparr>wst_thread := (wst_thread w2)[unat tid := Some (t2\<lparr>ti_thread_done := True\<rparr>)]\<rparr>"
      using 3(2) t2(1) by (auto simp: res_simps set_done_Inr)
    moreover have "norm (t2\<lparr>ti_thread_done := True\<rparr>) = (norm t2)\<lparr>ti_thread_done := True\<rparr>"
      by (simp add: norm_def)
    ultimately show ?thesis
      using True t1(4) n1(1) nt t2(2) t(1) len2
      by (simp add: norm_threads_def map_update fixed_part_def is_done_def)
  next
    case False
    then show ?thesis
      using 3(2) t1(4) n1(1) nt t2(1) nd len2 done_unchanged[OF nd(1), of n] by auto
  qed
  then have "c' = (if ex then c[unat (tid div warp_size) := c ! unat (tid div warp_size) - 1] else c)"
    "ex \<longrightarrow> unat (tid div warp_size) < length c"
    using 4(1) t(1) by (auto simp: checkExecutionStatusAndUpdate_def res_simps vec_get_def split: if_splits)
  then show thesis
    using that[of thd n] t nd 4(2,3) t1(5,7) n1(2) st2 w3 ex by auto
qed

end

section \<open>All active lanes\<close>

text \<open>
  \<open>moved\<close> is what the loop has done after the first \<open>n\<close> lanes: the threads of the active ones,
  which were live, have a new program counter and are done if their status says so, and no
  other thread has changed. \<open>b\<close> is the number of the warp's first thread.
\<close>

definition moved :: "nat \<Rightarrow> u32 \<Rightarrow> nat \<Rightarrow> 'm WarpState \<Rightarrow> 'm WarpState \<Rightarrow> bool" where
  "moved b m n w w' \<longleftrightarrow> length (wst_thread w') = length (wst_thread w) \<and>
     (\<forall>j < length (wst_thread w).
        if b \<le> j \<and> j < b + n \<and> bit m (j - b) then
          \<exists>thd p. wst_thread w ! j = Some thd \<and> \<not> is_done thd \<and>
            norm_threads w' ! j = Some ((norm thd)\<lparr>ti_PC := p, ti_thread_done := (wst_status w' ! (j - b) = W_EXIT)\<rparr>)
        else norm_threads w' ! j = norm_threads w ! j)"

definition exits :: "u32 \<Rightarrow> nat \<Rightarrow> 'm WarpState \<Rightarrow> nat set" where
  "exits m n w = {i. i < n \<and> bit m i \<and> wst_status w ! i = W_EXIT}"

lemma finite_exits [simp]: "finite (exits m n w)"
  by (simp add: exits_def)

lemma lane_index:
  fixes ws :: u32
  assumes "t < unat ws" "unat ws * wid + unat ws < 2 ^ 32"
  shows "unat (ws * of_nat wid + of_nat t) = unat ws * wid + t"
    "unat ((ws * of_nat wid + of_nat t) div ws) = wid"
proof -
  have ws: "unat ws > 0" using assms(1) by simp
  have wid: "wid < 2 ^ 32"
  proof -
    have "wid \<le> unat ws * wid" using ws by simp
    then show ?thesis using assms(2) by linarith
  qed
  have "unat ws < 2 ^ 32" using unsigned_less[of ws] by simp
  then have t: "t < 2 ^ 32" using assms(1) by linarith
  have e: "unat (ws * of_nat wid + of_nat t) = (unat ws * wid + t) mod 2 ^ 32"
    using wid t by (simp add: unat_word_ariths unat_of_nat mod_simps)
  then show 1: "unat (ws * of_nat wid + of_nat t) = unat ws * wid + t"
    using assms by simp
  show "unat ((ws * of_nat wid + of_nat t) div ws) = wid"
    using ws assms(1) by (simp add: unat_div 1)
qed

context handler
begin

lemma lanes_result:
  assumes "unat warp_size \<le> 32" "length (wst_status w) = unat warp_size"
    and "unat warp_size * wid + unat warp_size \<le> length (wst_thread w)" "length (wst_thread w) < 2 ^ 32"
    and "\<And>i thd. i < unat warp_size \<Longrightarrow> wst_thread w ! (unat warp_size * wid + i) = Some thd \<Longrightarrow> ti_laneId thd = of_nat i"
    and "n \<le> unat warp_size"
    and "forR n (\<lambda>t st. bindR (test_lane m t) (\<lambda>a. if a then execute_lane exec warp_size (of_nat wid) t st else Inr st))
        (leading, ins, w, c) = Inr (leading', ins', w', c')"
  shows "moved (unat warp_size * wid) m n w w' \<and> fixed_part w' = fixed_part w \<and> inst_frame ins ins' \<and>
    length (wst_status w') = length (wst_status w) \<and>
    (\<forall>i < unat warp_size. \<not> (i < n \<and> bit m i) \<longrightarrow> wst_status w' ! i = wst_status w ! i) \<and>
    c' = c[wid := c ! wid - of_nat (card (exits m n w'))] \<and>
    (exits m n w' \<noteq> {} \<longrightarrow> wid < length c)"
  using assms(6,7)
proof (induction n arbitrary: leading' ins' w' c')
  case 0
  then show ?case by (auto simp: moved_def exits_def)
next
  case (Suc n)
  obtain ld1 ins1 w1 c1 where 1: "forR n (\<lambda>t st. bindR (test_lane m t)
      (\<lambda>a. if a then execute_lane exec warp_size (of_nat wid) t st else Inr st)) (leading, ins, w, c) = Inr (ld1, ins1, w1, c1)"
    and s: "(if bit m n then execute_lane exec warp_size (of_nat wid) n (ld1, ins1, w1, c1)
        else Inr (ld1, ins1, w1, c1)) = Inr (leading', ins', w', c')"
    using Suc.prems(2) by (auto simp: forR_Suc res_simps test_lane_def split: if_splits)
  let ?b = "unat warp_size * wid"
  have n: "n < unat warp_size" "n < 32" using Suc.prems(1) assms(1) by auto
  note IH = Suc.IH[OF Suc_leD[OF Suc.prems(1)] 1]
  show ?case
  proof (cases "bit m n")
    case False
    then have same: "(leading', ins', w', c') = (ld1, ins1, w1, c1)" using s by simp
    have "exits m (Suc n) w' = exits m n w'" using False by (auto simp: exits_def less_Suc_eq)
    moreover have "?b \<le> k \<and> k < ?b + Suc n \<and> bit m (k - ?b) \<longleftrightarrow> ?b \<le> k \<and> k < ?b + n \<and> bit m (k - ?b)" for k
      using False by (cases "k = ?b + n") auto
    then have "moved ?b m (Suc n) w w' \<longleftrightarrow> moved ?b m n w w'"
      by (simp only: moved_def)
    moreover have "i < Suc n \<and> bit m i \<longleftrightarrow> i < n \<and> bit m i" for i
      using False by (cases "i = n") auto
    ultimately show ?thesis using IH same by simp
  next
    case True
    let ?tid = "warp_size * of_nat wid + of_nat n :: u32"
    have ix: "unat ?tid = ?b + n" "unat (?tid div warp_size) = wid"
      using lane_index[OF n(1), of wid] assms(3,4) by auto
    have IH': "moved ?b m n w w1" "fixed_part w1 = fixed_part w" "inst_frame ins ins1"
      "length (wst_status w1) = length (wst_status w)"
      "\<forall>i < unat warp_size. \<not> (i < n \<and> bit m i) \<longrightarrow> wst_status w1 ! i = wst_status w ! i"
      "c1 = c[wid := c ! wid - of_nat (card (exits m n w1))]" "exits m n w1 \<noteq> {} \<longrightarrow> wid < length c"
      by (insert IH, elim conjE, assumption)+
    have j: "norm_threads w1 ! (?b + n) = norm_threads w ! (?b + n)" "?b + n < length (wst_thread w)"
      using IH'(1) n(1) assms(3) by (auto simp: moved_def)
    have len1: "length (wst_thread w1) = length (wst_thread w)" using IH'(1) by (simp add: moved_def)
    have lane: "ti_laneId thd = of_nat n" if "wst_thread w1 ! unat ?tid = Some thd" for thd
    proof -
      have "norm_threads w ! (?b + n) = Some (norm thd)"
        using that j len1 ix(1) by (simp add: norm_threads_def)
      then obtain u where "wst_thread w ! (?b + n) = Some u" "norm u = norm thd"
        using norm_nth_Some j(2) by blast
      then show ?thesis using assms(5)[OF n(1)] norm_fields(3) by metis
    qed
    obtain thd p where t: "unat ?tid < length (wst_thread w1)" "wst_thread w1 ! unat ?tid = Some thd" "\<not> is_done thd"
      "inst_frame ins1 ins'" "fixed_part w' = fixed_part w1" "status_but n (wst_status w1) (wst_status w')"
      "norm_threads w' = (norm_threads w1)[unat ?tid :=
         Some ((norm thd)\<lparr>ti_PC := p, ti_thread_done := (wst_status w' ! n = W_EXIT)\<rparr>)]"
      "c' = (if wst_status w' ! n = W_EXIT then c1[unat (?tid div warp_size) := c1 ! unat (?tid div warp_size) - 1] else c1)"
      "wst_status w' ! n = W_EXIT \<longrightarrow> unat (?tid div warp_size) < length c1"
      by (rule lane_result[where t = n and tid = ?tid and w = w1 and warp_id = "of_nat wid" and ins = ins1 and
          leading = ld1 and c = c1 and leading' = leading' and ins' = ins' and w' = w' and c' = c' and warp_size = warp_size])
        (use s True n lane IH'(4) assms(2) in auto)
    obtain u where u: "wst_thread w ! (?b + n) = Some u" "norm u = norm thd"
      using norm_nth_Some[of "?b + n" w "norm thd"] norm_nth[OF t(1,2)] j ix(1) by auto
    have nd: "\<not> is_done u" using t(3) norm_fields(2)[OF u(2)] by (simp add: is_done_def)
    have st: "wst_status w' ! i = wst_status w1 ! i" if "i < unat warp_size" "i \<noteq> n" for i
      using t(6) that IH'(4) assms(2) by (simp add: status_but_def)
    have len': "length (wst_thread w') = length (wst_thread w)" "length (wst_status w') = length (wst_status w)"
      using arg_cong[OF t(7), of length] len1 t(6) IH'(4) by (simp_all add: status_but_def)
    have mv: "moved ?b m (Suc n) w w'"
      unfolding moved_def
    proof (intro conjI allI impI)
      fix k assume k: "k < length (wst_thread w)"
      show "if ?b \<le> k \<and> k < ?b + Suc n \<and> bit m (k - ?b)
        then \<exists>thd p. wst_thread w ! k = Some thd \<and> \<not> is_done thd \<and> norm_threads w' ! k =
            Some ((norm thd)\<lparr>ti_PC := p, ti_thread_done := (wst_status w' ! (k - ?b) = W_EXIT)\<rparr>)
        else norm_threads w' ! k = norm_threads w ! k"
      proof (cases "k = ?b + n")
        case True
        then show ?thesis
          using u nd t(7) ix(1) len1 k \<open>bit m n\<close> by auto
      next
        case False
        have w'k: "norm_threads w' ! k = norm_threads w1 ! k" using t(7) ix(1) False by simp
        have "wst_status w' ! (k - ?b) = wst_status w1 ! (k - ?b)" if "?b \<le> k" "k < ?b + Suc n"
          using st[of "k - ?b"] that False n(1) by auto
        moreover have "?b \<le> k \<and> k < ?b + Suc n \<and> bit m (k - ?b) \<longleftrightarrow> ?b \<le> k \<and> k < ?b + n \<and> bit m (k - ?b)"
          using False by auto
        ultimately show ?thesis using IH'(1) k w'k by (auto simp: moved_def split: if_splits)
      qed
    qed (rule len'(1))
    have ex1: "exits m n w' = exits m n w1"
      using st n(1) by (auto simp: exits_def)
    have exS: "exits m (Suc n) w' = (if wst_status w' ! n = W_EXIT then insert n (exits m n w1) else exits m n w1)"
      using ex1 True by (auto simp: exits_def less_Suc_eq)
    have nin: "n \<notin> exits m n w1" by (simp add: exits_def)
    have c': "c' = c[wid := c ! wid - of_nat (card (exits m (Suc n) w'))]"
      "exits m (Suc n) w' \<noteq> {} \<longrightarrow> wid < length c"
      using t(8,9) IH'(6,7) nin unfolding ix(2) exS by (auto simp: algebra_simps split: if_splits)
    have "\<forall>i < unat warp_size. \<not> (i < Suc n \<and> bit m i) \<longrightarrow> wst_status w' ! i = wst_status w ! i"
      using st IH'(5) True by (metis less_Suc_eq)
    then show ?thesis
      using mv t(5) IH'(2) inst_frame_trans[OF IH'(3) t(4)] len'(2) c' by simp
  qed
qed

end

end
