(* ===== verification/Block_Run.thy ===== *)
theory Block_Run
  imports Block_Invariant
begin

text \<open>
  The steps of a thread block keep its invariant: the execution of an instruction, the update of
  the stack, a warp's turn, a round over the warps and the whole loop of \<open>ThreadBlock::execute\<close>.
\<close>

section \<open>What an executed instruction leaves\<close>

lemma stepped_fields:
  assumes "stepped tb wid m X tb'"
  shows "tb_warp_size tb' = tb_warp_size tb" "tb_warp_count tb' = tb_warp_count tb" "tb_insts tb' = tb_insts tb"
    "tb_warp tb' = tb_warp tb" "length (tb_thread tb') = length (tb_thread tb)"
    "length (tb_warp_state tb') = length (tb_warp_state tb)"
    "tb_warp_live_thread tb' = (tb_warp_live_thread tb)[wid := tb_warp_live_thread tb ! wid - of_nat (card X)]"
    "X \<subseteq> {i. i < unat (tb_warp_size tb) \<and> bit m i}"
    "k \<noteq> wid \<Longrightarrow> tb_warp_state tb' ! k = tb_warp_state tb ! k"
    "i < unat (tb_warp_size tb) \<Longrightarrow> bit m i \<Longrightarrow> live_at (lane tb wid i) \<and> (live_at (lane tb' wid i) \<longleftrightarrow> i \<notin> X)"
    "j < length (tb_thread tb) \<Longrightarrow> map_option ti_laneId (tb_thread tb' ! j) = map_option ti_laneId (tb_thread tb ! j)"
  using assms unfolding stepped_def by simp_all

lemma stepped_rest:
  assumes "stepped tb wid m X tb'" "j < length (tb_thread tb)"
    "\<not> (unat (tb_warp_size tb) * wid \<le> j \<and> j < unat (tb_warp_size tb) * wid + unat (tb_warp_size tb) \<and>
           bit m (j - unat (tb_warp_size tb) * wid))"
  shows "map_option norm (tb_thread tb' ! j) = map_option norm (tb_thread tb ! j)"
proof -
  have "\<forall>j < length (tb_thread tb).
        \<not> (unat (tb_warp_size tb) * wid \<le> j \<and> j < unat (tb_warp_size tb) * wid + unat (tb_warp_size tb) \<and>
           bit m (j - unat (tb_warp_size tb) * wid)) \<longrightarrow>
        map_option norm (tb_thread tb' ! j) = map_option norm (tb_thread tb ! j)"
    using assms(1) unfolding stepped_def by (elim conjE)
  then show ?thesis using assms(2,3) by blast
qed

lemma stepped_state:
  assumes "stepped tb wid m X tb'"
  obtains s s' where "tb_warp_state tb ! wid = Some s" "tb_warp_state tb' ! wid = Some s'" "wst_warp_id s' = wst_warp_id s"
    "wst_warp_size s' = wst_warp_size s" "length (wst_status s') = length (wst_status s)"
    "wst_is_blocking s' = wst_is_blocking s"
    "\<And>i. i < unat (tb_warp_size tb) \<Longrightarrow> i \<notin> X \<Longrightarrow> wst_status s' ! i = W_EXIT \<Longrightarrow> wst_status s ! i = W_EXIT"
proof -
  have "\<exists>s s'. tb_warp_state tb ! wid = Some s \<and> tb_warp_state tb' ! wid = Some s' \<and> wst_warp_id s' = wst_warp_id s \<and>
        wst_warp_size s' = wst_warp_size s \<and> length (wst_status s') = length (wst_status s) \<and>
        wst_is_blocking s' = wst_is_blocking s \<and>
        (\<forall>i < unat (tb_warp_size tb). i \<notin> X \<longrightarrow> wst_status s' ! i = W_EXIT \<longrightarrow> wst_status s ! i = W_EXIT)"
    using assms unfolding stepped_def by (elim conjE)
  then show thesis using that by blast
qed

lemma lane_bound:
  assumes "block_wf tb" "wid < unat (tb_warp_count tb)" "i < unat (tb_warp_size tb)"
  shows "unat (tb_warp_size tb) * wid + i < length (tb_thread tb)"
  using warp_index[OF assms(1,2)] assms(3) by simp

lemma stepped_other_lane:
  assumes "stepped tb wid m X tb'" "block_wf tb" "wid' < unat (tb_warp_count tb)" "i < unat (tb_warp_size tb)"
    "wid' \<noteq> wid \<or> \<not> bit m i"
  shows "map_option norm (lane tb' wid' i) = map_option norm (lane tb wid' i)"
proof -
  let ?n = "unat (tb_warp_size tb)"
  have "\<not> (?n * wid \<le> ?n * wid' + i \<and> ?n * wid' + i < ?n * wid + ?n \<and> bit m (?n * wid' + i - ?n * wid))"
  proof
    assume a: "?n * wid \<le> ?n * wid' + i \<and> ?n * wid' + i < ?n * wid + ?n \<and> bit m (?n * wid' + i - ?n * wid)"
    have "(?n * wid' + i) div ?n = wid" using a by (intro div_nat_eqI) (auto simp: algebra_simps)
    moreover have "(?n * wid' + i) div ?n = wid'" using assms(4) by simp
    ultimately show False using a assms(5) by auto
  qed
  from stepped_rest[OF assms(1) lane_bound[OF assms(2,3,4)] this] show ?thesis
    by (simp add: lane_def stepped_fields[OF assms(1)])
qed

lemma stepped_laneId:
  assumes "stepped tb wid m X tb'" "block_wf tb" "wid' < unat (tb_warp_count tb)" "i < unat (tb_warp_size tb)"
  shows "map_option ti_laneId (lane tb' wid' i) = map_option ti_laneId (lane tb wid' i)"
  using stepped_fields(11)[OF assms(1) lane_bound[OF assms(2,3,4)]]
  by (simp add: lane_def stepped_fields[OF assms(1)])

lemma stepped_live_lanes:
  assumes "stepped tb wid m X tb'" "block_wf tb" "wid < unat (tb_warp_count tb)"
  shows "live_lanes tb' wid = live_lanes tb wid - X" "X \<subseteq> live_lanes tb wid"
    "wid' < unat (tb_warp_count tb) \<Longrightarrow> wid' \<noteq> wid \<Longrightarrow> live_lanes tb' wid' = live_lanes tb wid'"
proof -
  note f = stepped_fields[OF assms(1)]
  show "X \<subseteq> live_lanes tb wid" using f(8) f(10) by (auto simp: live_lanes_def)
  have "live_at (lane tb' wid i) \<longleftrightarrow> live_at (lane tb wid i) \<and> i \<notin> X" if i: "i < unat (tb_warp_size tb)" for i
  proof (cases "bit m i")
    case True
    then show ?thesis using f(10)[OF i] by auto
  next
    case False
    then show ?thesis
      using live_at_norm[OF stepped_other_lane[OF assms i]] f(8) by auto
  qed
  then show "live_lanes tb' wid = live_lanes tb wid - X" by (auto simp: live_lanes_def f(1))
  show "live_lanes tb' wid' = live_lanes tb wid'" if "wid' < unat (tb_warp_count tb)" "wid' \<noteq> wid"
    using live_at_norm[OF stepped_other_lane[OF assms(1,2) that(1)]] that(2) by (auto simp: live_lanes_def f(1))
qed

lemma stepped_wf:
  assumes "stepped tb wid m X tb'" "block_wf tb"
  shows "block_wf tb'"
  using assms(2) unfolding block_wf_def by (simp add: stepped_fields[OF assms(1)])

lemma stepped_warp_wf:
  assumes s: "stepped tb wid m X tb'" "block_wf tb" "wid < unat (tb_warp_count tb)"
    and "wid' < unat (tb_warp_count tb)" "warp_wf tb wid'"
  shows "warp_wf tb' wid'"
proof -
  note f = stepped_fields[OF s(1)]
  have lid: "\<forall>i < unat (tb_warp_size tb). \<forall>t. lane tb' wid' i = Some t \<longrightarrow> ti_laneId t = of_nat i"
  proof (intro allI impI)
    fix i t assume i: "i < unat (tb_warp_size tb)" and t: "lane tb' wid' i = Some t"
    obtain u where "lane tb wid' i = Some u" "ti_laneId u = ti_laneId t"
      using stepped_laneId[OF s(1,2) assms(4) i] t by (cases "lane tb wid' i") auto
    then show "ti_laneId t = of_nat i" using assms(5) i by (auto simp: warp_wf_def)
  qed
  obtain w where w: "tb_warp_state tb ! wid' = Some w" "wst_warp_id w = of_nat wid'" "wst_warp_size w = tb_warp_size tb"
    "length (wst_status w) = unat (tb_warp_size tb)"
    using assms(5) by (auto simp: warp_wf_def)
  have "\<exists>w. tb_warp_state tb' ! wid' = Some w \<and> wst_warp_id w = of_nat wid' \<and> wst_warp_size w = tb_warp_size tb \<and>
        length (wst_status w) = unat (tb_warp_size tb)"
  proof (cases "wid' = wid")
    case True
    obtain w' where w': "tb_warp_state tb' ! wid = Some w'" "wst_warp_id w' = wst_warp_id w"
      "wst_warp_size w' = wst_warp_size w" "length (wst_status w') = length (wst_status w)"
      "\<And>i. i < unat (tb_warp_size tb) \<Longrightarrow> i \<notin> X \<Longrightarrow> wst_status w' ! i = W_EXIT \<Longrightarrow> wst_status w ! i = W_EXIT"
      by (rule stepped_state[OF s(1)]) (use w True in auto)
    then show ?thesis using w True by (intro exI[of _ w']) simp
  next
    case False
    then show ?thesis using w f(9)[OF False] stepped_live_lanes(3)[OF s assms(4)] by auto
  qed
  then show ?thesis using assms(5) lid by (simp add: warp_wf_def f(1,4))
qed

lemma stepped_count:
  assumes s: "stepped tb wid m X tb'" "block_wf tb" "wid < unat (tb_warp_count tb)"
    and "wid' < unat (tb_warp_count tb)" "count_inv tb wid'"
  shows "count_inv tb' wid'"
proof (cases "wid' = wid")
  case True
  have len: "wid < length (tb_warp_live_thread tb)" using s(2,3) by (simp add: block_wf_def)
  have X: "X \<subseteq> live_lanes tb wid" by (rule stepped_live_lanes(2)[OF s])
  have "card (live_lanes tb wid - X) = card (live_lanes tb wid) - card X"
    using X finite_subset[OF X] by (intro card_Diff_subset) simp_all
  moreover have "card X \<le> card (live_lanes tb wid)" using X by (simp add: card_mono)
  ultimately show ?thesis
    using assms(5) len True by (simp add: count_inv_def stepped_fields(7)[OF s(1)] stepped_live_lanes(1)[OF s] of_nat_diff)
next
  case False
  then show ?thesis
    using assms(5) by (simp add: count_inv_def stepped_fields(7)[OF s(1)] stepped_live_lanes(3)[OF s assms(4)])
qed

lemma stepped_stack_other:
  assumes s: "stepped tb wid m X tb'" "block_wf tb" "wid < unat (tb_warp_count tb)"
    and "wid' < unat (tb_warp_count tb)" "stack_inv tb wid'" "wid' \<noteq> wid"
  shows "stack_inv tb' wid'"
proof -
  have "pc_at (lane tb' wid' i) = pc_at (lane tb wid' i)" if "i \<in> live_lanes tb wid'" for i
    using pc_at_norm[OF stepped_other_lane[OF s(1,2) assms(4)]] that assms(6) by (simp add: live_lanes_def)
  then show ?thesis
    using assms(5,6) by (auto simp: stack_inv_def Let_def stepped_fields(4)[OF s(1)] stepped_live_lanes(3)[OF s assms(4)])
qed

section \<open>The update of the stack\<close>

text \<open>What the stack update sees of a lane, for the lanes of the warp.\<close>

lemma updateSIMTStack_flat:
  assumes "updateSIMTStack wid inst tb = Inr (inst', tb')" "block_wf tb" "wid < unat (tb_warp_count tb)"
    and "w_stack (tb_warp tb ! wid) = e # es" "flat_entry e"
    and "ins_reconvergence_pc (in_base inst) = null_pc" "ins_op_type (in_base inst) \<noteq> CALL_OP"
    and "lanes (se_active_mask e) \<subseteq> {..<unat (tb_warp_size tb)}"
  obtains wp xs where "inst' = inst" "tb' = tb\<lparr>tb_warp := (tb_warp tb)[wid := wp]\<rparr>"
    "w_warp_size wp = w_warp_size (tb_warp tb ! wid)" "w_stack wp = xs @ es" "\<forall>x \<in> set xs. flat_entry x" "sorted_wrt apart xs"
    "\<forall>x \<in> set xs. \<forall>i. bit (se_active_mask x) i \<longrightarrow>
       bit (se_active_mask e) i \<and> i \<in> live_lanes tb wid \<and> pc_at (lane tb wid i) = se_PC x"
    "\<forall>i \<in> live_lanes tb wid. bit (se_active_mask e) i \<longrightarrow> (\<exists>x \<in> set xs. bit (se_active_mask x) i)"
proof -
  let ?n = "unat (tb_warp_size tb)"
  let ?base = "?n * wid"
  have n: "?n \<le> 32" and len: "length (tb_thread tb) < 2 ^ 32" using assms(2) by (simp_all add: block_wf_def)
  note ix = warp_index[OF assms(2,3)]
  obtain dn npc r wp where c: "forR ?n (collect_next_pc (of_nat wid * tb_warp_size tb) tb) (0, [], null_pc) = Inr (dn, npc, r)"
    and u: "Warp_update dn npc r (ins_op_type (in_base inst)) (ins_m_size (in_base inst)) (ins_pc (in_base inst))
      (tb_warp tb ! wid) = Inr wp"
    and res: "inst' = inst\<lparr>in_base := (in_base inst)\<lparr>ins_reconvergence_pc := r\<rparr>\<rparr>"
      "tb' = tb\<lparr>tb_warp := (tb_warp tb)[wid := wp]\<rparr>"
    using assms(1,6) by (auto simp: updateSIMTStack_def Let_def res_simps)
  have i: "unat (of_nat wid * tb_warp_size tb + of_nat i) = ?base + i" if "i < ?n" for i
    using lane_index(1)[OF that, of wid] ix len by (simp add: mult.commute)
  have at: "lane tb wid k = tb_thread tb ! (?base + k)" for k by (simp add: lane_def)
  have nx: "r = null_pc" "length npc = ?n" "\<And>k. bit dn k \<longleftrightarrow> k < ?n \<and> \<not> live_at (lane tb wid k)"
    "\<And>k. k < ?n \<Longrightarrow> live_at (lane tb wid k) \<Longrightarrow> npc ! k = pc_at (lane tb wid k)"
    using collect_next_pcs[OF c n i] unfolding at by auto
  have act: "k < ?n" if "bit (se_active_mask e) k" for k using assms(8) that by auto
  have ok: "lanes_ok dn npc (se_active_mask e)"
  proof -
    have "npc ! k \<noteq> null_pc" if "bit (se_active_mask e) k" "\<not> bit dn k" for k
      using nx(3,4)[of k] act[OF that(1)] that pc_at_not_null by auto
    then have "null_pc \<notin> next_pcs dn npc (se_active_mask e)" by (auto simp: next_pcs_def dest: sym)
    then show ?thesis using n assms(8) nx(2) by (simp add: lanes_ok_def)
  qed
  obtain xs where xs: "wp = (tb_warp tb ! wid)\<lparr>w_stack := xs @ es, w_div_stats := w_div_stats wp\<rparr>" "\<forall>x \<in> set xs. flat_entry x"
    "sorted_wrt apart xs"
    "\<forall>x \<in> set xs. \<forall>i. bit (se_active_mask x) i \<longrightarrow>
       bit (se_active_mask e) i \<and> \<not> bit dn i \<and> npc ! i = se_PC x"
    "\<forall>i. bit (se_active_mask e) i \<and> \<not> bit dn i \<longrightarrow> (\<exists>x \<in> set xs. bit (se_active_mask x) i)"
    by (rule update_flat[OF assms(4) u[unfolded nx(1)] ok assms(7,5)])
  show thesis
  proof (rule that[of wp xs])
    show "inst' = inst" using res(1) nx(1) assms(6) by (simp add: Instruction.equality Inst.equality)
    show "w_stack wp = xs @ es" by (subst xs(1)) simp
    show "w_warp_size wp = w_warp_size (tb_warp tb ! wid)" by (subst xs(1)) simp
    show "\<forall>x \<in> set xs. \<forall>i. bit (se_active_mask x) i \<longrightarrow>
       bit (se_active_mask e) i \<and> i \<in> live_lanes tb wid \<and> pc_at (lane tb wid i) = se_PC x"
      using xs(4) nx(3,4) act by (metis (mono_tags, lifting) live_lanes_def mem_Collect_eq)
    show "\<forall>i \<in> live_lanes tb wid. bit (se_active_mask e) i \<longrightarrow> (\<exists>x \<in> set xs. bit (se_active_mask x) i)"
      using xs(5) nx(3) by (auto simp: live_lanes_def)
  qed (use res(2) xs(2,3) in auto)
qed

section \<open>A warp's turn\<close>

lemma update_same_mask:
  "update_simt_active_mask isatomic w = Inr w' \<Longrightarrow> w' = w \<and> w_stack w \<noteq> []"
  by (auto simp: update_simt_active_mask_def get_simt_active_mask_def set_simt_active_mask_def stack_back_def
      modify_back_def res_simps split: list.splits)

lemma getInstruction_ok:
  assumes "getInstruction ops mk pc tb = Inr (inst, tb')" "insts_ok tb" "make_ok mk"
  shows "inst_ok inst \<and> ins_pc (in_base inst) = pc \<and> tb' = tb\<lparr>tb_insts := tb_insts tb'\<rparr> \<and> insts_ok tb' \<and>
    tb_insts tb' pc = Some inst"
proof (cases "tb_insts tb pc")
  case None
  then obtain i where i: "mk (opcode_of_bytes (ms_read ops (tb_kernel_addr tb + pc) 8 (snd (tb_mem tb)))) = Inr i"
    "inst = i\<lparr>in_base := (in_base i)\<lparr>ins_pc := pc\<rparr>\<rparr>" "tb' = tb\<lparr>tb_insts := (tb_insts tb)(pc \<mapsto> inst)\<rparr>"
    using assms(1) by (auto simp: getInstruction_def res_simps Let_def)
  have "inst_ok i" using assms(3) i(1) by (simp add: make_ok_def)
  then have "inst_ok inst" by (simp add: inst_ok_def i(2))
  then show ?thesis using assms(2) i by (simp add: insts_ok_def)
next
  case (Some i)
  then show ?thesis using assms(1,2) by (auto simp: getInstruction_def insts_ok_def)
qed

lemma insts_irrelevant [simp]:
  "lane (tb\<lparr>tb_insts := f\<rparr>) wid i = lane tb wid i"
  "live_lanes (tb\<lparr>tb_insts := f\<rparr>) wid = live_lanes tb wid"
  "lane (tb\<lparr>tb_warp := ws\<rparr>) wid i = lane tb wid i"
  "live_lanes (tb\<lparr>tb_warp := ws\<rparr>) wid = live_lanes tb wid"
  "stack_inv (tb\<lparr>tb_insts := f\<rparr>) wid = stack_inv tb wid"
  "count_inv (tb\<lparr>tb_insts := f\<rparr>) wid = count_inv tb wid"
  "count_inv (tb\<lparr>tb_warp := ws\<rparr>) wid = count_inv tb wid"
  "warp_wf (tb\<lparr>tb_insts := f\<rparr>) wid = warp_wf tb wid"
  "block_wf (tb\<lparr>tb_insts := f\<rparr>) = block_wf tb"
  by (simp_all add: lane_def live_lanes_def stack_inv_def count_inv_def warp_wf_def block_wf_def)

lemma getExecuteWarp_ok:
  assumes "getExecuteWarp ops mk wid tb = Inr (inst, tb')" "insts_ok tb" "make_ok mk"
  obtains e es where "w_stack (tb_warp tb ! wid) = e # es" "wid < length (tb_warp tb)" "inst_ok inst"
    "ins_pc (in_base inst) = ucast (ucast (se_PC e) :: u32)" "tb' = tb\<lparr>tb_insts := tb_insts tb'\<rparr>" "insts_ok tb'"
    "tb_insts tb' (ins_pc (in_base inst)) = Some inst"
proof -
  obtain pc rpc tb1 wp where a: "get_pdom_stack_top_info (tb_warp tb ! wid) = Inr (pc, rpc)" "wid < length (tb_warp tb)"
    "getInstruction ops mk (ucast pc) tb = Inr (inst, tb1)"
    "update_simt_active_mask (ins_m_isatomic (in_base inst)) (tb_warp tb ! wid) = Inr wp"
    "tb' = tb1\<lparr>tb_warp := (tb_warp tb1)[wid := wp]\<rparr>"
    using assms(1) by (auto simp: getExecuteWarp_def res_simps)
  note g = getInstruction_ok[OF a(3) assms(2,3)]
  have wp: "wp = tb_warp tb ! wid" using update_same_mask[OF a(4)] by simp
  have "tb_warp tb1 = tb_warp tb" using g by (metis ThreadBlock.select_convs(6) ThreadBlock.surjective ThreadBlock.update_convs(11))
  then have "tb' = tb1" using a(5) wp by simp
  then show thesis
    using that g a(1,2) by (cases "w_stack (tb_warp tb ! wid)")
      (auto simp: get_pdom_stack_top_info_def stack_back_def res_simps)
qed

lemma keep_inst_irrelevant [simp]:
  "live_lanes (keep_inst inst tb) wid = live_lanes tb wid" "lane (keep_inst inst tb) wid i = lane tb wid i"
  "stack_inv (keep_inst inst tb) wid = stack_inv tb wid" "count_inv (keep_inst inst tb) wid = count_inv tb wid"
  "warp_wf (keep_inst inst tb) wid = warp_wf tb wid" "block_wf (keep_inst inst tb) = block_wf tb"
  "tb_warp_count (keep_inst inst tb) = tb_warp_count tb" "tb_warp_size (keep_inst inst tb) = tb_warp_size tb"
  by (simp_all add: keep_inst_def)

lemma block_inv_warp:
  assumes "block_inv tb" "wid < unat (tb_warp_count tb)"
  shows "block_wf tb" "insts_ok tb" "warp_wf tb wid" "stack_inv tb wid" "count_inv tb wid"
  using assms by (simp_all add: block_inv_def)

lemma stack_top:
  assumes "stack_inv tb wid" "w_stack (tb_warp tb ! wid) = e # es"
  shows "flat_entry e" "lanes (se_active_mask e) \<subseteq> {..<unat (tb_warp_size tb)}"
    "bit (se_active_mask e) i \<Longrightarrow> i \<in> live_lanes tb wid \<and> pc_at (lane tb wid i) = se_PC e"
    "\<forall>x \<in> set es. flat_entry x" "\<forall>x \<in> set es. apart e x" "sorted_wrt apart es"
    "\<forall>x \<in> set es. \<forall>i. bit (se_active_mask x) i \<longrightarrow> i \<in> live_lanes tb wid \<and> pc_at (lane tb wid i) = se_PC x"
    "\<forall>i \<in> live_lanes tb wid. bit (se_active_mask e) i \<or> (\<exists>x \<in> set es. bit (se_active_mask x) i)"
  using assms by (auto simp: stack_inv_def Let_def live_lanes_def)

text \<open>The rest of the stack keeps its lanes where they are.\<close>

lemma stepped_stack:
  assumes s: "stepped tb wid (se_active_mask e) X tb1" "block_wf tb" "wid < unat (tb_warp_count tb)"
    and "stack_inv tb wid" "w_stack (tb_warp tb ! wid) = e # es"
    and "w_stack wp = xs @ es" "\<forall>x \<in> set xs. flat_entry x" "sorted_wrt apart xs"
    "\<forall>x \<in> set xs. \<forall>i. bit (se_active_mask x) i \<longrightarrow>
       bit (se_active_mask e) i \<and> i \<in> live_lanes tb1 wid \<and> pc_at (lane tb1 wid i) = se_PC x"
    "\<forall>i \<in> live_lanes tb1 wid. bit (se_active_mask e) i \<longrightarrow> (\<exists>x \<in> set xs. bit (se_active_mask x) i)"
    and "tb2 = tb1\<lparr>tb_warp := (tb_warp tb1)[wid := wp]\<rparr>"
  shows "stack_inv tb2 wid"
proof -
  note t = stack_top[OF assms(4,5)]
  have X: "X \<subseteq> lanes (se_active_mask e)" using stepped_fields(8)[OF s(1)] by auto
  have rest: "i \<in> live_lanes tb1 wid \<and> pc_at (lane tb1 wid i) = se_PC x"
    if x: "x \<in> set es" "bit (se_active_mask x) i" for x i
  proof -
    have ni: "\<not> bit (se_active_mask e) i" using t(5) x unfolding apart_def by (metis IntI empty_iff mem_lanes)
    have li: "i \<in> live_lanes tb wid" "pc_at (lane tb wid i) = se_PC x" using t(7) x by auto
    then have "i < unat (tb_warp_size tb)" by (simp add: live_lanes_def)
    from pc_at_norm[OF stepped_other_lane[OF s this disjI2[OF ni]]] show ?thesis
      using li X ni by (auto simp: stepped_live_lanes(1)[OF s])
  qed
  have "wid < length (tb_warp tb1)"
    using s(2,3) by (simp add: stepped_fields(4)[OF s(1)] block_wf_def)
  then have w: "w_stack (tb_warp tb2 ! wid) = xs @ es" "\<And>i. lane tb2 wid i = lane tb1 wid i"
    "live_lanes tb2 wid = live_lanes tb1 wid" using assms(6,11) by simp_all
  have "sorted_wrt apart (xs @ es)"
  proof -
    have "apart x y" if "x \<in> set xs" "y \<in> set es" for x y
      using that assms(9) t(5) by (fastforce simp: apart_def)
    then show ?thesis using assms(8) t(6) by (simp add: sorted_wrt_append)
  qed
  moreover have "\<exists>x \<in> set (xs @ es). bit (se_active_mask x) i" if i: "i \<in> live_lanes tb1 wid" for i
    using assms(10) t(8) i by (auto simp: stepped_live_lanes(1)[OF s])
  ultimately show ?thesis
    using rest assms(7,9) t(4) unfolding stack_inv_def Let_def w by auto
qed

text \<open>The sizes of a block, its threads and their lane numbers never change.\<close>

definition same_shape :: "'ms ThreadBlock \<Rightarrow> 'ms ThreadBlock \<Rightarrow> bool" where
  "same_shape tb tb' \<longleftrightarrow> tb_warp_size tb' = tb_warp_size tb \<and> tb_warp_count tb' = tb_warp_count tb \<and>
     map (map_option ti_laneId) (tb_thread tb') = map (map_option ti_laneId) (tb_thread tb)"

lemma same_shape_refl [simp]: "same_shape tb tb"
  by (simp add: same_shape_def)

lemma same_shape_trans: "same_shape a b \<Longrightarrow> same_shape b c \<Longrightarrow> same_shape a c"
  by (simp add: same_shape_def)

lemma same_shape_state [simp]: "same_shape tb (tb'\<lparr>tb_block_state := b\<rparr>) = same_shape tb tb'"
  by (simp add: same_shape_def)

lemma same_shape_thread:
  assumes "same_shape tb tb'" "j < length (tb_thread tb)"
  shows "tb_thread tb' ! j = None \<longleftrightarrow> tb_thread tb ! j = None"
proof -
  have m: "map (map_option ti_laneId) (tb_thread tb') = map (map_option ti_laneId) (tb_thread tb)"
    using assms(1) by (simp add: same_shape_def)
  then have "length (tb_thread tb') = length (tb_thread tb)" using map_eq_imp_length_eq by blast
  then have "map_option ti_laneId (tb_thread tb' ! j) = map_option ti_laneId (tb_thread tb ! j)"
    using arg_cong[OF m, of "\<lambda>xs. xs ! j"] assms(2) by simp
  then show ?thesis by (metis map_option_is_None)
qed

lemma executeWarp_step:
  assumes "executeWarp ops mk debug wid tb = Inr tb'" "block_inv tb" "make_ok mk" "wid < unat (tb_warp_count tb)"
  shows "block_inv tb' \<and> same_shape tb tb'"
proof -
  note inv = block_inv_warp[OF assms(2)]
  note inv0 = inv[OF assms(4)]
  obtain inst1 tb1 inst2 tb2 inst3 tb3 where a: "getExecuteWarp ops mk wid tb = Inr (inst1, tb1)"
    "executeInstruction debug inst1 wid tb1 = Inr (inst2, tb2)" "updateSIMTStack wid inst2 tb2 = Inr (inst3, tb3)"
    "tb' = keep_inst inst3 tb3"
    using assms(1) by (auto simp: executeWarp_def res_simps)
  obtain e es where e: "w_stack (tb_warp tb ! wid) = e # es" "inst_ok inst1"
    "tb1 = tb\<lparr>tb_insts := tb_insts tb1\<rparr>" "insts_ok tb1"
    by (rule getExecuteWarp_ok[OF a(1) inv0(2) assms(3)])
  have same1: "tb_warp tb1 = tb_warp tb" "tb_warp_count tb1 = tb_warp_count tb" "tb_warp_size tb1 = tb_warp_size tb"
    "block_wf tb1" "\<And>w. warp_wf tb1 w = warp_wf tb w" "\<And>w. stack_inv tb1 w = stack_inv tb w"
    "\<And>w. count_inv tb1 w = count_inv tb w"
    using inv0(1) by (subst e(3); simp)+
  have k: "wid < unat (tb_warp_count tb1)" "warp_wf tb1 wid" "w_stack (tb_warp tb1 ! wid) = e # es"
    using assms(4) inv0(3) e(1) same1 by simp_all
  obtain X where X: "stepped tb1 wid (se_active_mask e) X tb2" "inst2 = inst1\<lparr>in_base := in_base inst2\<rparr>"
    "inst_frame (in_base inst1) (in_base inst2)"
    by (rule executeInstruction_step[OF a(2) same1(4) k(2,1) e(2) k(3)])
  note f = stepped_fields[OF X(1)]
  have ok2: "inst_ok inst2" using e(2) inst_frame_fields[OF X(3)] by (subst X(2)) (simp add: inst_ok_def)
  have st1: "stack_inv tb1 wid" using inv0(4) same1(6) by simp
  note t = stack_top[OF st1 k(3)]
  obtain wp xs where u: "inst3 = inst2" "tb3 = tb2\<lparr>tb_warp := (tb_warp tb2)[wid := wp]\<rparr>"
    "w_warp_size wp = w_warp_size (tb_warp tb2 ! wid)" "w_stack wp = xs @ es" "\<forall>x \<in> set xs. flat_entry x" "sorted_wrt apart xs"
    "\<forall>x \<in> set xs. \<forall>i. bit (se_active_mask x) i \<longrightarrow>
       bit (se_active_mask e) i \<and> i \<in> live_lanes tb2 wid \<and> pc_at (lane tb2 wid i) = se_PC x"
    "\<forall>i \<in> live_lanes tb2 wid. bit (se_active_mask e) i \<longrightarrow> (\<exists>x \<in> set xs. bit (se_active_mask x) i)"
    by (rule updateSIMTStack_flat[OF a(3), of e es])
      (use stepped_wf[OF X(1) same1(4)] k t ok2 f in \<open>auto simp: inst_ok_def\<close>)
  have sizes: "tb_warp_size tb3 = tb_warp_size tb" "tb_warp_count tb3 = tb_warp_count tb" "tb_insts tb3 = tb_insts tb1"
    using f same1 by (simp_all add: u(2))
  have "block_wf tb3" using stepped_wf[OF X(1) same1(4)] by (simp add: u(2) block_wf_def)
  moreover have "warp_wf tb3 w \<and> stack_inv tb3 w \<and> count_inv tb3 w" if w: "w < unat (tb_warp_count tb)" for w
  proof -
    have w1: "w < unat (tb_warp_count tb1)" "warp_wf tb1 w" "stack_inv tb1 w" "count_inv tb1 w"
      using w inv[OF w] same1 by simp_all
    note wf2 = stepped_warp_wf[OF X(1) same1(4) k(1) w1(1,2)]
    have "w_warp_size (tb_warp tb3 ! w) = w_warp_size (tb_warp tb2 ! w)"
      using u(3) by (cases "wid < length (tb_warp tb2)") (auto simp: u(2) nth_list_update list_update_beyond)
    then have "warp_wf tb3 w" using wf2 by (simp add: u(2) warp_wf_def)
    moreover have "count_inv tb3 w" using stepped_count[OF X(1) same1(4) k(1) w1(1,4)] by (simp add: u(2))
    moreover have "stack_inv tb3 w"
    proof (cases "w = wid")
      case True
      then show ?thesis using stepped_stack[OF X(1) same1(4) k(1) st1 k(3) u(4-8,2)] by simp
    next
      case False
      then show ?thesis
        using stepped_stack_other[OF X(1) same1(4) k(1) w1(1,3)] by (simp add: u(2) stack_inv_def)
    qed
    ultimately show ?thesis by simp
  qed
  moreover have "insts_ok (keep_inst inst3 tb3)"
    using e(4) ok2 sizes(3) by (simp add: insts_ok_def keep_inst_def u(1))
  moreover have "same_shape tb tb3"
  proof -
    have "tb_thread tb1 = tb_thread tb" by (subst e(3)) simp
    then have "map (map_option ti_laneId) (tb_thread tb3) = map (map_option ti_laneId) (tb_thread tb)"
      using f(5,11) by (intro nth_equalityI) (simp_all add: u(2))
    then show ?thesis using sizes by (simp add: same_shape_def)
  qed
  ultimately show ?thesis using sizes by (simp add: a(4) block_inv_def same_shape_def keep_inst_def)
qed

section \<open>Rounds\<close>

text \<open>The block state and the memories are not part of the invariant.\<close>

lemma block_state_irrelevant [simp]: "block_inv (tb\<lparr>tb_block_state := b\<rparr>) = block_inv tb"
  by (simp add: block_inv_def block_wf_def insts_ok_def warp_wf_def stack_inv_def count_inv_def live_lanes_def lane_def Let_def)

lemma visit_warp_cases:
  assumes "visit_warp ops mk debug wid (tb, d) = Inr (tb', d')"
  obtains "tb' = tb" "d' = (if tb_warp_live_thread tb ! wid > 0 then False else d)"
  | tb1 b where "executeWarp ops mk debug wid tb = Inr tb1" "tb' = tb1\<lparr>tb_block_state := b\<rparr>"
      "tb_warp_live_thread tb ! wid > 0" "\<not> d'"
proof -
  obtain blocking skip where b: "(if blocking then Inr True else warp_waiting_at_barrier wid tb) = Inr skip"
    and r: "(if skip then Inr (tb, if tb_warp_live_thread tb ! wid > 0 then False else d)
      else bindR (executeWarp ops mk debug wid tb) (\<lambda>tb1. bindR (vec_get (tb_warp_live_thread tb1) wid) (\<lambda>n.
        if n = 0 then bindR (removeWarp (of_nat wid) (tb_block_state tb1))
          (\<lambda>b. Inr (tb1\<lparr>tb_block_state := b\<rparr>, if tb_warp_live_thread tb ! wid > 0 then False else d))
        else Inr (tb1, if tb_warp_live_thread tb ! wid > 0 then False else d)))) = Inr (tb', d')"
    using assms unfolding visit_warp_def prod.case bindR_eq_Inr vec_get_Inr Let_def by blast
  show thesis
  proof (cases skip)
    case True
    then have "tb' = tb" "d' = (if tb_warp_live_thread tb ! wid > 0 then False else d)" using r by auto
    then show thesis by (rule that(1))
  next
    case False
    then have n: "tb_warp_live_thread tb ! wid > 0"
      using b by (auto simp: warp_waiting_at_barrier_def res_simps split: if_splits)
    obtain tb1 and m :: u32 where 1: "executeWarp ops mk debug wid tb = Inr tb1"
      "(if m = 0 then bindR (removeWarp (of_nat wid) (tb_block_state tb1))
          (\<lambda>b. Inr (tb1\<lparr>tb_block_state := b\<rparr>, False)) else Inr (tb1, False)) = Inr (tb', d')"
      using r unfolding if_not_P[OF False] if_P[OF n] bindR_eq_Inr by blast
    have "\<exists>b. tb' = tb1\<lparr>tb_block_state := b\<rparr> \<and> \<not> d'"
    proof (cases "m = 0")
      case True
      then show ?thesis using 1(2) by (auto simp: res_simps)
    next
      case False
      then show ?thesis using 1(2) by (intro exI[of _ "tb_block_state tb1"]) simp
    qed
    then show thesis using that(2) 1(1) n by blast
  qed
qed

lemma visit_warp_step:
  assumes "visit_warp ops mk debug wid (tb, d) = Inr (tb', d')" "block_inv tb" "make_ok mk" "wid < unat (tb_warp_count tb)"
  shows "block_inv tb' \<and> same_shape tb tb' \<and>
    (d' \<longrightarrow> d \<and> tb' = tb \<and> tb_warp_live_thread tb ! wid = 0)"
  using assms(1)
proof (cases rule: visit_warp_cases)
  case 1
  then show ?thesis using assms(2) by (auto simp: word_gt_0 split: if_splits)
next
  case (2 tb1 b)
  then show ?thesis using executeWarp_step[OF 2(1) assms(2-4)] by simp
qed

lemma execute_round_step:
  assumes "execute_round ops mk debug tb = Inr (tb', d)" "block_inv tb" "make_ok mk"
  shows "block_inv tb' \<and> same_shape tb tb' \<and>
    (d \<longrightarrow> tb' = tb \<and> (\<forall>wid < unat (tb_warp_count tb). tb_warp_live_thread tb ! wid = 0))"
proof -
  have "block_inv tb' \<and> same_shape tb tb' \<and>
      (d \<longrightarrow> d0 \<and> tb' = tb0 \<and> (\<forall>wid \<in> set ws. tb_warp_live_thread tb0 ! wid = 0))"
    if "foldR (visit_warp ops mk debug) ws (tb0, d0) = Inr (tb', d)" "block_inv tb0"
      "same_shape tb tb0" "set ws \<subseteq> {..<unat (tb_warp_count tb)}"
    for ws tb0 d0
    using that
  proof (induction ws arbitrary: tb0 d0)
    case Nil
    then show ?case by simp
  next
    case (Cons w ws)
    obtain tb1 d1 where 1: "visit_warp ops mk debug w (tb0, d0) = Inr (tb1, d1)"
      "foldR (visit_warp ops mk debug) ws (tb1, d1) = Inr (tb', d)"
      using Cons.prems(1) by (auto simp: res_simps)
    have s: "block_inv tb1 \<and> same_shape tb0 tb1 \<and>
      (d1 \<longrightarrow> d0 \<and> tb1 = tb0 \<and> tb_warp_live_thread tb0 ! w = 0)"
      using visit_warp_step[OF 1(1) Cons.prems(2) assms(3)] Cons.prems(3,4) by (simp add: same_shape_def)
    then show ?case using Cons.IH[OF 1(2)] Cons.prems(3,4) same_shape_trans by auto
  qed
  moreover have "set [0..<unat (tb_warp_count tb)] \<subseteq> {..<unat (tb_warp_count tb)}" by auto
  ultimately have "block_inv tb' \<and> same_shape tb tb' \<and>
      (d \<longrightarrow> True \<and> tb' = tb \<and> (\<forall>wid \<in> set [0..<unat (tb_warp_count tb)]. tb_warp_live_thread tb ! wid = 0))"
    using assms(1,2) unfolding execute_round_def GetWarpExecuteOrder_def
    using same_shape_refl by blast
  then show ?thesis by simp
qed

lemma execute_loop_run:
  fixes tb :: "'a ThreadBlock"
  assumes "execute_loop ops mk debug tb = Some (Inr tb')" "block_inv tb" "make_ok mk"
  shows "block_inv tb' \<and> same_shape tb tb' \<and>
    (\<forall>wid < unat (tb_warp_count tb'). tb_warp_live_thread tb' ! wid = 0)"
proof -
  let ?P = "\<lambda>(tb :: 'a ThreadBlock) (r :: 'a ThreadBlock res). \<forall>tb'. r = Inr tb' \<longrightarrow> block_inv tb \<longrightarrow>
      block_inv tb' \<and> same_shape tb tb' \<and>
      (\<forall>wid < unat (tb_warp_count tb'). tb_warp_live_thread tb' ! wid = 0)"
  have "make_ok mk \<longrightarrow> ?P tb (Inr tb')"
  proof (rule execute_loop.raw_induct[OF _ assms(1), where P = "\<lambda>ops mk debug tb r. make_ok mk \<longrightarrow> ?P tb r"], intro impI allI, goal_cases)
    case (1 f ops mk debug tb r tb')
    note IH = 1(1) and eq = 1(2) and mk = 1(3) and r = 1(4) and inv = 1(5)
    obtain tb1 d where 1: "execute_round ops mk debug tb = Inr (tb1, d)"
      using eq r by (auto split: sum.splits)
    note s = execute_round_step[OF 1 inv mk]
    show "block_inv tb' \<and> same_shape tb tb' \<and>
      (\<forall>wid < unat (tb_warp_count tb'). tb_warp_live_thread tb' ! wid = 0)"
    proof (cases d)
      case True
      then show ?thesis using s eq 1 r inv by auto
    next
      case False
      then have "f ops mk debug tb1 = Some r" using eq 1 by simp
      then show ?thesis using IH[of ops mk debug tb1 r] mk r s same_shape_trans by blast
    qed
  qed
  then show ?thesis using assms(2,3) by simp
qed

end
