(* ===== verification/Handler_Frames.thy ===== *)
theory Handler_Frames
  imports Thread_Block_Facts VOP3_ISA
begin

text \<open>
  The handlers of the instruction theories meet the contract \<open>handler\<close> of the thread block: they
  move registers, operands, memories, next program counters and the status of their own lane, and
  nothing else that the block relies on. The one exception is \<open>S_SWAPPC_B64\<close>, which writes
  program counters.
\<close>

named_theorems frames

section \<open>Handlers as the block calls them\<close>

text \<open>Most handlers use the warp alone or the operands of the instruction alone.\<close>

definition warp_exec ::
  "(u32 \<Rightarrow> 'm WarpState \<Rightarrow> 'm WarpState res) \<Rightarrow> u32 \<Rightarrow> Instruction \<times> 'm WarpState \<Rightarrow> (Instruction \<times> 'm WarpState) res" where
  "warp_exec f lane_id st = (case st of (ins, w) \<Rightarrow> bindR (f lane_id w) (\<lambda>w. Inr (ins, w)))"

definition operand_exec ::
  "('m WarpState \<Rightarrow> u32 \<Rightarrow> Instruction \<Rightarrow> Instruction res) \<Rightarrow> u32 \<Rightarrow> Instruction \<times> 'm WarpState \<Rightarrow> (Instruction \<times> 'm WarpState) res" where
  "operand_exec f lane_id st = (case st of (ins, w) \<Rightarrow> bindR (f w lane_id ins) (\<lambda>ins. Inr (ins, w)))"

lemma warp_exec_handler: "(\<And>l w w'. f l w = Inr w' \<Longrightarrow> warp_frame l w w') \<Longrightarrow> handler (warp_exec f)"
  by unfold_locales (auto simp: warp_exec_def res_simps)

lemma operand_exec_handler: "(\<And>l w ins ins'. f w l ins = Inr ins' \<Longrightarrow> inst_frame ins ins') \<Longrightarrow> handler (operand_exec f)"
  by unfold_locales (auto simp: operand_exec_def res_simps)

section \<open>What the parts of handlers keep\<close>

text \<open>Registers, memories and flags are not part of what a handler has to keep.\<close>

lemma warp_frame_fields [frames]:
  "warp_frame l w (w\<lparr>wst_sreg := s\<rparr>)" "warp_frame l w (w\<lparr>wst_vreg := s\<rparr>)" "warp_frame l w (w\<lparr>wst_memory := m\<rparr>)"
  "warp_frame l w (w\<lparr>wst_memory_wait := f\<rparr>)" "warp_frame l w (w\<lparr>wst_smem_read_counter := n\<rparr>)"
  "warp_frame l w (w\<lparr>wst_global_memory_access_address := a, wst_global_memory_access_size := n'\<rparr>)"
  by (simp_all add: warp_frame_def)

lemma setSreg_keeps [frames]: "setSreg cfg r v w = Inr w' \<Longrightarrow> warp_frame l w w'"
  using setSreg_frame warp_frame_fields(1) by fast

lemma setVreg_keeps [frames]: "setVreg r v lane w = Inr w' \<Longrightarrow> warp_frame l w w'"
  using setVreg_frame warp_frame_fields(2) by fast

lemma setBitmaskSreg_keeps [frames]: "setBitmaskSreg cfg r v lane w = Inr w' \<Longrightarrow> warp_frame l w w'"
  by (auto simp: setBitmaskSreg_def res_simps intro: frames)

lemma two_writes_keep [frames]:
  "bindR (setSreg cfg r v w) (setSreg cfg r' v') = Inr w' \<Longrightarrow> warp_frame l w w'"
  by (auto simp: res_simps intro: warp_frame_trans frames)

lemma write_lane_pair_keeps [frames]: "write_lane_pair vdst v lane w = Inr w' \<Longrightarrow> warp_frame l w w'"
  by (auto simp: write_lane_pair_def res_simps intro: warp_frame_trans frames)

lemma setSreg_then_keeps:
  "bindR (setSreg cfg r v w) k = Inr w' \<Longrightarrow> (\<And>u. k u = Inr w' \<Longrightarrow> warp_frame l u w') \<Longrightarrow> warp_frame l w w'"
  by (auto simp: res_simps intro: warp_frame_trans setSreg_keeps)

text \<open>After other writes.\<close>

lemma warp_frame_after: "warp_frame l b c \<Longrightarrow> warp_frame l a b \<Longrightarrow> warp_frame l a c"
  by (rule warp_frame_trans)

lemmas frames_after = setSreg_keeps[THEN warp_frame_after] setVreg_keeps[THEN warp_frame_after]
  setBitmaskSreg_keeps[THEN warp_frame_after] warp_frame_fields[THEN warp_frame_after]

lemma setFinished_keeps [frames]: "setFinished l w = Inr w' \<Longrightarrow> warp_frame l w w'"
  by (auto simp: setFinished_def res_simps warp_frame_def)

lemma writeMem_keeps [frames]: "warp_frame l w (setDmem a v w)" "warp_frame l w (write_mem a' v sp w)"
  by (simp_all add: setDmem_def write_mem_def setupAddrSpace_def frames)

lemma sls_load_keeps [frames]:
  assumes "sls_load n sz cfg b w = Inr w'"
  shows "warp_frame l w w'"
proof -
  obtain f :: "nat \<Rightarrow> 'a WarpState \<Rightarrow> u32" and r and a w1 where
    1: "forR n (\<lambda>i w. setSreg cfg (r i) (f i w) w) (w\<lparr>wst_smem_read_counter := wst_smem_read_counter w + 1\<rparr>) = Inr w1"
    and 2: "w' = w1\<lparr>wst_global_memory_access_address := a, wst_global_memory_access_size := sz\<rparr>"
    using assms by (auto simp: sls_load_def res_simps Let_def)
  have "warp_frame l w w1"
    by (rule forR_invariant[OF 1, where P = "warp_frame l w"]) (auto intro: frames_after frames)
  then show ?thesis unfolding 2 by (rule warp_frame_after[OF warp_frame_fields(6)])
qed

lemma modify_operand_keeps [frames]: "modify_operand name f ins = Inr ins' \<Longrightarrow> inst_frame ins ins'"
  by (auto simp: modify_operand_def set_operand_def inst_frame_def res_simps)

lemma set_dst_keeps [frames]:
  "set_dst v lane ins = Inr ins' \<Longrightarrow> inst_frame ins ins'" "set_dst_pair v' lane ins = Inr ins' \<Longrightarrow> inst_frame ins ins'"
  by (auto simp: set_dst_def set_dst_pair_def intro: frames)

section \<open>Scalar instructions\<close>

lemma sop2_handler:
  "f \<in> {S_ADD_U32 cfg b, S_ADD_I32 cfg b, S_SUB_I32 cfg b, S_MIN_U32 cfg b, S_MAX_I32 cfg b, S_MAX_U32 cfg b,
     S_CSELECT_B32 cfg b, S_MUL_I32 cfg b, S_BFE_I32 cfg b} \<Longrightarrow> handler (warp_exec (\<lambda>_. f))"
  by (rule warp_exec_handler)
    (auto simp: S_ADD_U32_def S_ADD_I32_def S_SUB_I32_def S_MIN_U32_def S_MAX_I32_def S_MAX_U32_def
      S_CSELECT_B32_def S_MUL_I32_def S_BFE_I32_def Let_def bindR_eq_Inr[of "getSreg _ _ _"] assertR_eq_Inr
      intro: frames split: prod.splits if_splits)

lemma bitwise_keeps [frames]:
  "bitwise_B32 chk f cfg b w = Inr w' \<Longrightarrow> warp_frame l w w'" "bitwise_B64 f' cfg b w = Inr w' \<Longrightarrow> warp_frame l w w'"
  by (auto simp: bitwise_B32_def bitwise_B64_def Let_def bindR_eq_Inr[of "getSreg _ _ _"] assertR_eq_Inr
      intro: setSreg_then_keeps frames)

interpretation bitwise32: handler "warp_exec (\<lambda>_. bitwise_B32 chk f cfg b)"
  by (rule warp_exec_handler) (rule frames)

interpretation bitwise64: handler "warp_exec (\<lambda>_. bitwise_B64 f cfg b)"
  by (rule warp_exec_handler) (rule frames)

interpretation scmp: handler "warp_exec (\<lambda>_. S_CMP rel cfg b)"
  by (rule warp_exec_handler) (auto simp: S_CMP_def res_simps intro: frames)

interpretation smovk: handler "warp_exec (\<lambda>_. S_MOVK_I32 cfg b)"
  by (rule warp_exec_handler) (simp add: S_MOVK_I32_def frames)

interpretation saddk: handler "warp_exec (\<lambda>_. S_ADDK_I32 cfg b)"
  by (rule warp_exec_handler) (auto simp: S_ADDK_I32_def Let_def bindR_eq_Inr[of "getSreg _ _ _"] intro: frames)

interpretation smulk: handler "warp_exec (\<lambda>_. S_MULK_I32 cfg b)"
  by (rule warp_exec_handler) (auto simp: S_MULK_I32_def Let_def bindR_eq_Inr[of "getSreg _ _ _"] intro: frames)

interpretation ssaveexec: handler "warp_exec (\<lambda>_. S_AND_SAVEEXEC_B64 cfg b)"
  by (rule warp_exec_handler) (clarsimp simp: S_AND_SAVEEXEC_B64_def Let_def bindR_eq_Inr[of "getSreg _ _ _"] assertR_eq_Inr,
      (erule setSreg_then_keeps)+, erule setSreg_keeps)

interpretation smov32: handler "operand_exec (\<lambda>_ _. S_MOV_B32)"
  by (rule operand_exec_handler) (auto simp: S_MOV_B32_def res_simps intro: frames)

interpretation smov64: handler "operand_exec (\<lambda>_ _. S_MOV_B64)"
  by (rule operand_exec_handler) (auto simp: S_MOV_B64_def res_simps intro: frames)

interpretation snot: handler "operand_exec (\<lambda>_ _. S_NOT_B32)"
  by (rule operand_exec_handler) (auto simp: S_NOT_B32_def res_simps intro: frames)

interpretation sload: handler "warp_exec (\<lambda>_. sls_load n sz cfg b)"
  by (rule warp_exec_handler) (rule frames)

section \<open>Control\<close>

interpretation texit: handler "warp_exec T_EXIT"
  by (rule warp_exec_handler) (simp add: T_EXIT_def frames)

interpretation swait: handler "warp_exec (\<lambda>_. S_WAITCNT)"
  by (rule warp_exec_handler) (auto simp: S_WAITCNT_def SetMemoryWait_def intro: frames)

interpretation tnop: handler "warp_exec (\<lambda>_. T_NOP)"
  by (rule warp_exec_handler) (simp add: T_NOP_def)

text \<open>The branches read an operand of the instruction and change the warp.\<close>

definition branch_exec ::
  "(Instruction \<Rightarrow> u32 \<Rightarrow> 'm WarpState \<Rightarrow> 'm WarpState res) \<Rightarrow> u32 \<Rightarrow> Instruction \<times> 'm WarpState \<Rightarrow> (Instruction \<times> 'm WarpState) res" where
  "branch_exec f lane_id st = (case st of (ins, w) \<Rightarrow> bindR (f ins lane_id w) (\<lambda>w. Inr (ins, w)))"

interpretation sbranch: handler "branch_exec S_BRANCH"
  by unfold_locales (auto simp: branch_exec_def S_BRANCH_def res_simps intro: incWarpPC_frame)

interpretation cbranch: handler "branch_exec (cbranch taken_if)"
  by unfold_locales (auto simp: branch_exec_def cbranch_def res_simps intro: incThreadPC_frame split: if_splits)

section \<open>Vector instructions\<close>

interpretation vunary: handler "operand_exec (\<lambda>_. vunary f)"
  by (rule operand_exec_handler) (auto simp: vunary_def res_simps intro: frames)

interpretation vbinary: handler "operand_exec (\<lambda>_. vbinary f)"
  by (rule operand_exec_handler) (auto simp: vbinary_def res_simps intro: frames)

interpretation vcarry: handler "vcarry f cfg"
  by unfold_locales (auto simp: vcarry_def res_simps intro: frames)

interpretation vcndmask: handler "operand_exec (V_CNDMASK_B32 cfg)"
  by (rule operand_exec_handler) (auto simp: V_CNDMASK_B32_def res_simps intro: frames)

interpretation vadd64: handler "V_ADD_I64 cfg"
  by unfold_locales (auto simp: V_ADD_I64_def Let_def res_simps intro: frames)

interpretation vcmp: handler "operand_exec (\<lambda>_. V_CMP rel)"
  by (rule operand_exec_handler) (auto simp: V_CMP_def res_simps intro: frames)

interpretation vconvert: handler "operand_exec (\<lambda>_. vconvert f)"
  by (rule operand_exec_handler) (auto simp: vconvert_def res_simps intro: frames)

interpretation vcompare3: handler "warp_exec (write_compare rel sources cfg b)"
  by (rule warp_exec_handler) (auto simp: write_compare_def res_simps intro: frames)

interpretation vmulf64: handler "warp_exec (V_MUL_F64 fp cfg b)"
  by (rule warp_exec_handler) (auto simp: V_MUL_F64_def no_modifier_def no_output_modifier_def res_simps intro: frames)

interpretation vaddc: handler "warp_exec (V_ADDC_U32 cfg b)"
  by (rule warp_exec_handler) (auto simp: V_ADDC_U32_def addc_u32_def res_simps intro: frames_after frames)

section \<open>Collection and write-back\<close>

lemma OperandCollect_keeps [frames]:
  assumes "OperandCollect cfg w ins = Inr ins'"
  shows "inst_frame ins ins'"
proof -
  obtain ins1 where
    1: "forR (unat (ins_num_src_operands ins)) (\<lambda>i ins. bindR (GetSrcOperand i) (\<lambda>name. modify_operand name (readReg cfg w) ins)) ins = Inr ins1"
    and 2: "forR (unat (ins_num_dst_operands ins1)) (\<lambda>i ins. bindR (GetDstOperand i) (\<lambda>name. bindR (getOperand name ins) (\<lambda>opd.
        if rg_reg_type (opd_reg opd) = TCC then modify_operand name (readReg cfg w) ins else Inr ins))) ins1 = Inr ins'"
    using assms by (auto simp: OperandCollect_def res_simps)
  have "inst_frame ins ins1"
    by (rule forR_invariant[OF 1, where P = "inst_frame ins"])
      (auto simp: res_simps intro: inst_frame_trans frames)
  moreover have "inst_frame ins1 ins'"
    by (rule forR_invariant[OF 2, where P = "inst_frame ins1"])
      (auto simp: res_simps intro: inst_frame_trans frames split: if_splits)
  ultimately show ?thesis by (rule inst_frame_trans)
qed

lemma writeReg_invariant:
  assumes "writeReg cfg opd w = Inr w'" "P w"
    and s: "\<And>r v u u'. setSreg cfg r v u = Inr u' \<Longrightarrow> P u \<Longrightarrow> P u'"
    and v: "\<And>r v l u u'. setVreg r v l u = Inr u' \<Longrightarrow> P u \<Longrightarrow> P u'"
    and d: "\<And>a v u. P u \<Longrightarrow> P (setDmem a v u)"
  shows "P w'"
proof -
  have lane: "P u'"
    if "write_lane opd i put j u = Inr u'" "P u" "\<And>x y u u'. put x y u = Inr u' \<Longrightarrow> P u \<Longrightarrow> P u'" for i j put u u'
    using that by (auto simp: write_lane_def res_simps split: if_splits)
  have vec: "P u'" if f: "forR n (write_lane opd i put) u = Inr u'" and "P u"
    and put: "\<And>x y u u'. put x y u = Inr u' \<Longrightarrow> P u \<Longrightarrow> P u'" for n i put u u'
    by (rule forR_invariant[OF f, where P = P]) (use \<open>P u\<close> lane[OF _ _ put] in auto)
  show ?thesis
    using assms(1) unfolding writeReg_def Let_def
  proof (rule forR_invariant[where P = P], goal_cases)
    case (2 i u u')
    have put: "(if rg_reg_type (opd_reg opd) = Vector then setVreg (rg_reg_idx (opd_reg opd) + of_nat i) y x a
        else Inr (setDmem (data_addr (opd_reg opd) a (of_nat i) x) (u32_bytes y) a)) = Inr b \<Longrightarrow> P a \<Longrightarrow> P b" for x y a b
      using v d by (auto split: if_splits)
    show ?case
    proof (cases "scalar_reg (rg_reg_type (opd_reg opd))")
      case True
      then show ?thesis using 2 s by (auto simp: res_simps)
    next
      case False
      then have f: "forR (unat (wst_warp_size u)) (write_lane opd i (\<lambda>j v w.
          if rg_reg_type (opd_reg opd) = Vector then setVreg (rg_reg_idx (opd_reg opd) + of_nat i) v j w
          else Inr (setDmem (data_addr (opd_reg opd) w (of_nat i) j) (u32_bytes v) w))) u = Inr u'" using 2 by simp
      show ?thesis by (rule vec[OF f \<open>P u\<close>]) (rule put)
    qed
  qed (rule assms(2))
qed

text \<open>What the write-back keeps: the threads, the statuses and the fixed part of the warp state.\<close>

lemma WriteBack_keeps:
  assumes "WriteBack cfg ins w = Inr w'"
  shows "wst_thread w' = wst_thread w \<and> fixed_part w' = fixed_part w \<and> wst_status w' = wst_status w"
proof -
  let ?P = "\<lambda>u. wst_thread u = wst_thread w \<and> fixed_part u = fixed_part w \<and> wst_status u = wst_status w"
  have op: "?P u'" if "writeReg cfg opd u = Inr u'" "?P u" for opd u u'
  proof (rule writeReg_invariant[OF that(1), where P = ?P])
    show "?P b" if "setSreg cfg r v a = Inr b" "?P a" for r v a b
      using setSreg_frame[OF that(1)] that(2) by (auto simp: fixed_part_def)
    show "?P b" if "setVreg r v l a = Inr b" "?P a" for r v l a b
      using setVreg_frame[OF that(1)] that(2) by (auto simp: fixed_part_def)
  qed (use that(2) in \<open>auto simp: setDmem_def fixed_part_def\<close>)
  show ?thesis
    using assms unfolding WriteBack_def
  proof (rule forR_invariant[where P = ?P], goal_cases)
    case (2 i u u')
    then show ?case using op by (auto simp: res_simps)
  qed simp
qed

end
