(* ===== verification/Block_Launch.thy ===== *)
theory Block_Launch
  imports Block_Run
begin

text \<open>
  Setting up a thread block: \<open>initializeCTA\<close> gives every thread its indices, every warp its state
  and its first stack entry, and establishes the invariant of the block. This holds for the warp
  size 32 only: the initial mask has all 32 bits, and only the bits of missing threads of the warp are
  taken from it.
\<close>

section \<open>Creating the threads\<close>

text \<open>A thread before its first instruction.\<close>

definition fresh :: "ThreadItem \<Rightarrow> bool" where
  "fresh t \<longleftrightarrow> \<not> is_done t \<and> ti_PC t = 0"

lemma createThread_fresh: "createThread raw sid tid hw_cta_id hw_warp_id k = (t, k') \<Longrightarrow> fresh t"
  by (auto simp: createThread_def Let_def fresh_def set_tid_def set_ctaid_def set_ntid_def set_nctaid_def set_pc_def
      set_valid_def ThreadItem_init_def is_done_def)

lemma createThreads_fresh:
  assumes "createThreads raw ws n (replicate c None, k) = Inr (ts, k')"
  shows "length ts = c" "\<forall>i < c. case ts ! i of None \<Rightarrow> True | Some t \<Rightarrow> fresh t" "n \<le> c" "\<forall>i < n. ts ! i \<noteq> None"
proof -
  have "length ts = c \<and> (\<forall>i < c. case ts ! i of None \<Rightarrow> True | Some t \<Rightarrow> fresh t) \<and> n \<le> c \<and> (\<forall>i < n. ts ! i \<noteq> None)"
    using assms
  proof (induction n arbitrary: ts k')
    case 0
    then show ?case by (auto simp: createThreads_def)
  next
    case (Suc n)
    obtain us q where 1: "createThreads raw ws n (replicate c None, k) = Inr (us, q)"
      "(case createThread raw 0 (of_nat n) 0 (of_nat n div ws) q of (thd, k) \<Rightarrow>
        bindR (vec_set us n (Some thd)) (\<lambda>ts. Inr (ts, k))) = Inr (ts, k')"
      using Suc.prems by (auto simp: createThreads_def forR_Suc res_simps)
    obtain t q' where t: "createThread raw 0 (of_nat n) 0 (of_nat n div ws) q = (t, q')" by (meson surj_pair)
    have ts: "ts = us[n := Some t]" "n < length us" using 1(2) by (auto simp: t res_simps)
    note IH = Suc.IH[OF 1(1)]
    have "case ts ! j of None \<Rightarrow> True | Some t \<Rightarrow> fresh t" if "j < c" for j
      using IH that createThread_fresh[OF t] by (cases "j = n") (auto simp: ts(1))
    then show ?case using IH ts by (auto simp: nth_list_update less_Suc_eq)
  qed
  then show "length ts = c" "\<forall>i < c. case ts ! i of None \<Rightarrow> True | Some t \<Rightarrow> fresh t" "n \<le> c" "\<forall>i < n. ts ! i \<noteq> None"
    by simp_all
qed

section \<open>Creating a warp\<close>

text \<open>Setting up the lanes keeps the warp's number, size and statuses.\<close>

definition setup_frame :: "'m WarpState \<Rightarrow> 'm WarpState \<Rightarrow> bool" where
  "setup_frame w w' \<longleftrightarrow> fixed_part w' = fixed_part w \<and> wst_status w' = wst_status w \<and>
     length (wst_thread w') = length (wst_thread w)"

lemma setup_frame_refl [simp]: "setup_frame w w"
  by (simp add: setup_frame_def)

lemma setup_frame_trans: "setup_frame a b \<Longrightarrow> setup_frame b c \<Longrightarrow> setup_frame a c"
  by (simp add: setup_frame_def)

lemma set_index_frame: "set_index cfg r v l w = Inr w' \<Longrightarrow> setup_frame w w' \<and> wst_thread w' = wst_thread w"
  using setVreg_frame[of "of_int r + THREAD_REG_BASE cfg" v l w w']
  by (auto simp: set_index_def setup_frame_def fixed_part_def split: if_splits)

lemma init_lane_thread:
  assumes "init_lane cfg ctrl ws wid i (mk, n, w) = Inr (mk', n', w')"
  defines "tid \<equiv> unat (wid * ws + of_nat i)"
  shows "tid < length (wst_thread w) \<and> setup_frame w w' \<and>
    (case wst_thread w ! tid of
       None \<Rightarrow> i < 32 \<and> mk' = unset_bit i mk \<and> n' = n \<and> w' = w
     | Some t \<Rightarrow> mk' = mk \<and> n' = n + 1 \<and> wst_thread w' = (wst_thread w)[tid := Some (set_laneid (of_nat i) t)])"
proof (cases "wst_thread w ! tid")
  case None
  then show ?thesis using assms(1)
    by (auto simp: init_lane_def Let_def res_simps tid_def split: prod.splits)
next
  case (Some t)
  obtain x y z where xyz: "index_regs (bit ctrl (KERNEL_CTRL_BIT_THREAD_IDX_X cfg)) (bit ctrl (KERNEL_CTRL_BIT_THREAD_IDX_Y cfg)) = (x, y, z)"
    by (metis prod_cases3)
  obtain w1 w2 w3 where
    1: "modify_at (wid * ws + of_nat i) (set_laneid (of_nat i)) w = Inr w1" "tid < length (wst_thread w)"
    and 2: "set_index cfg x (dx (ti_tid t)) (of_nat i) w1 = Inr w2" "set_index cfg y (dy (ti_tid t)) (of_nat i) w2 = Inr w3"
      "set_index cfg z (dz (ti_tid t)) (of_nat i) w3 = Inr w'" "mk' = mk" "n' = n + 1"
    using assms(1) Some by (auto simp: init_lane_def Let_def res_simps(1-3) xyz tid_def vec_get_Inr bindR_eq_Inr)
  have "w1 = w\<lparr>wst_thread := (wst_thread w)[tid := Some (set_laneid (of_nat i) t)]\<rparr>"
    using 1 Some by (auto simp: res_simps tid_def)
  then show ?thesis
    using Some 1(2) 2 set_index_frame[OF 2(1)] set_index_frame[OF 2(2)] set_index_frame[OF 2(3)]
    by (auto simp: setup_frame_def fixed_part_def)
qed

lemma init_lanes:
  assumes "forR m (init_lane cfg ctrl ws (of_nat wid)) (-1, 0, w) = Inr (msk, n, w')"
    and "m \<le> unat ws" "unat ws \<le> 32" "unat ws * wid + unat ws \<le> length (wst_thread w)" "length (wst_thread w) < 2 ^ 32"
  shows "setup_frame w w' \<and>
    (\<forall>j < length (wst_thread w). wst_thread w' ! j = (if unat ws * wid \<le> j \<and> j < unat ws * wid + m
       then map_option (set_laneid (of_nat (j - unat ws * wid))) (wst_thread w ! j) else wst_thread w ! j)) \<and>
    (\<forall>i. bit msk i \<longleftrightarrow> i < 32 \<and> (i < m \<longrightarrow> wst_thread w ! (unat ws * wid + i) \<noteq> None)) \<and>
    n = of_nat (card {i. i < m \<and> wst_thread w ! (unat ws * wid + i) \<noteq> None})"
  using assms(1,2)
proof (induction m arbitrary: msk n w')
  case 0
  then show ?case by auto
next
  case (Suc m)
  let ?b = "unat ws * wid"
  obtain mk1 n1 w1 where 1: "forR m (init_lane cfg ctrl ws (of_nat wid)) (-1, 0, w) = Inr (mk1, n1, w1)"
    "init_lane cfg ctrl ws (of_nat wid) m (mk1, n1, w1) = Inr (msk, n, w')"
    using Suc.prems(1) by (auto simp: forR_Suc res_simps)
  have IH: "setup_frame w w1"
    "\<forall>j < length (wst_thread w). wst_thread w1 ! j = (if ?b \<le> j \<and> j < ?b + m
       then map_option (set_laneid (of_nat (j - ?b))) (wst_thread w ! j) else wst_thread w ! j)"
    "\<forall>i. bit mk1 i \<longleftrightarrow> i < 32 \<and> (i < m \<longrightarrow> wst_thread w ! (?b + i) \<noteq> None)"
    "n1 = of_nat (card {i. i < m \<and> wst_thread w ! (?b + i) \<noteq> None})"
    using Suc.IH[OF 1(1)] Suc.prems(2) by auto
  have ix: "unat (of_nat wid * ws + of_nat m) = ?b + m"
    using lane_index(1)[of m ws wid] Suc.prems(2) assms(4,5) by (simp add: mult.commute)
  have m: "m < 32" "?b + m < length (wst_thread w)" "length (wst_thread w1) = length (wst_thread w)"
    using Suc.prems(2) assms(3,4) IH(1) by (auto simp: setup_frame_def)
  have at: "wst_thread w1 ! (?b + m) = wst_thread w ! (?b + m)" using IH(2) m(2) by simp
  note s = init_lane_thread[OF 1(2), unfolded ix at]
  have sf: "setup_frame w w'" using IH(1) s setup_frame_trans by blast
  show ?case
  proof (cases "wst_thread w ! (?b + m)")
    case None
    then have e: "msk = unset_bit m mk1" "n = n1" "w' = w1" using s by auto
    have "{i. i < Suc m \<and> wst_thread w ! (?b + i) \<noteq> None} = {i. i < m \<and> wst_thread w ! (?b + i) \<noteq> None}"
      using None by (auto simp: less_Suc_eq)
    moreover have "\<forall>i. bit msk i \<longleftrightarrow> i < 32 \<and> (i < Suc m \<longrightarrow> wst_thread w ! (?b + i) \<noteq> None)"
      using IH(3) None by (auto simp: e bit_lanes less_Suc_eq)
    moreover have "wst_thread w' ! j = (if ?b \<le> j \<and> j < ?b + Suc m
       then map_option (set_laneid (of_nat (j - ?b))) (wst_thread w ! j) else wst_thread w ! j)"
      if j: "j < length (wst_thread w)" for j
      using IH(2) j None by (cases "j = ?b + m") (auto simp: e)
    ultimately show ?thesis using sf IH(4) by (simp add: e)
  next
    case (Some t)
    then have e: "msk = mk1" "n = n1 + 1" "wst_thread w' = (wst_thread w1)[?b + m := Some (set_laneid (of_nat m) t)]"
      using s by auto
    have "{i. i < Suc m \<and> wst_thread w ! (?b + i) \<noteq> None} = insert m {i. i < m \<and> wst_thread w ! (?b + i) \<noteq> None}"
      using Some by (auto simp: less_Suc_eq)
    then have "card {i. i < Suc m \<and> wst_thread w ! (?b + i) \<noteq> None} = Suc (card {i. i < m \<and> wst_thread w ! (?b + i) \<noteq> None})"
      by simp
    moreover have "\<forall>i. bit msk i \<longleftrightarrow> i < 32 \<and> (i < Suc m \<longrightarrow> wst_thread w ! (?b + i) \<noteq> None)"
      using IH(3) Some by (auto simp: e less_Suc_eq)
    moreover have "wst_thread w' ! j = (if ?b \<le> j \<and> j < ?b + Suc m
       then map_option (set_laneid (of_nat (j - ?b))) (wst_thread w ! j) else wst_thread w ! j)"
      if j: "j < length (wst_thread w)" for j
    proof (cases "j = ?b + m")
      case True
      then show ?thesis using Some m by (simp add: e(3))
    next
      case False
      then show ?thesis using IH(2) j by (auto simp: e(3))
    qed
    ultimately show ?thesis using sf IH(4) by (simp add: e)
  qed
qed

definition fresh_threads :: "'ms ThreadBlock \<Rightarrow> bool" where
  "fresh_threads tb \<longleftrightarrow> (\<forall>j < length (tb_thread tb). case tb_thread tb ! j of None \<Rightarrow> True | Some t \<Rightarrow> fresh t)"

definition warps_sized :: "'ms ThreadBlock \<Rightarrow> bool" where
  "warps_sized tb \<longleftrightarrow> (\<forall>wid < unat (tb_warp_count tb). w_warp_size (tb_warp tb ! wid) = unat (tb_warp_size tb))"

lemma setStackPointer_frame:
  assumes "setStackPointer cfg sp w = Inr w'"
  shows "setup_frame w w' \<and> wst_thread w' = wst_thread w"
proof -
  obtain w1 where 1: "setSreg cfg 0 (ucast sp) (w\<lparr>wst_local_mem_stack_pointer := sp\<rparr>) = Inr w1"
    "setSreg cfg 1 (ucast (drop_bit 32 sp)) w1 = Inr w'"
    using assms by (auto simp: setStackPointer_def res_simps)
  show ?thesis using setSreg_frame[OF 1(1)] setSreg_frame[OF 1(2)] by (auto simp: setup_frame_def fixed_part_def)
qed

text \<open>What \<open>createWarp\<close> leaves: the lanes of the warp are numbered and its stack has one entry.\<close>

lemma createWarp_result:
  assumes "createWarp cfg ops k raw junk junk_status wid tb = Inr tb'"
    and "block_wf tb" "tb_warp_size tb = 32" "wid < unat (tb_warp_count tb)"
  obtains w msk thd where
    "tb' = tb\<lparr>tb_warp := (tb_warp tb)[wid := Warp_launch (get_pc thd) msk (tb_warp tb ! wid)],
       tb_warp_state := (tb_warp_state tb)[wid := Some w], tb_thread := tb_thread tb',
       tb_warp_live_thread := (tb_warp_live_thread tb)[wid := of_nat (card {i. i < 32 \<and> lane tb wid i \<noteq> None})]\<rparr>"
    "length (tb_thread tb') = length (tb_thread tb)"
    "\<And>j. j < length (tb_thread tb) \<Longrightarrow> tb_thread tb' ! j = (if 32 * wid \<le> j \<and> j < 32 * wid + 32
       then map_option (set_laneid (of_nat (j - 32 * wid))) (tb_thread tb ! j) else tb_thread tb ! j)"
    "\<And>i. bit msk i \<longleftrightarrow> i < 32 \<and> lane tb wid i \<noteq> None" "lane tb' wid 0 = Some thd"
    "wst_warp_id w = of_nat wid" "wst_warp_size w = 32" "length (wst_status w) = 32"
proof -
  let ?w0 = "WarpState_init (of_nat wid) (tb_block_state tb) (tb_thread tb) junk junk_status
     (new_WarpState 256 265 (tb_warp_size tb) (tb_kernel_const_num tb) (dsm_read_func ops)
            (dsm_write_func ops) (mem_read_func ops) (mem_write_func ops) raw)"
  note ix = warp_index[OF assms(2,4), unfolded assms(3)]
  have len: "length (tb_thread tb) < 2 ^ 32" using assms(2) by (simp add: block_wf_def)
  obtain w1 msk n w thd ls where
    1: "setStackPointer cfg (getLocalAddr (ki_state k) + getLocalSize (ki_state k) * of_nat wid) ?w0 = Inr w1"
    and 2: "forR 32 (init_lane cfg (ki_kernel_ctrl k) 32 (of_nat wid)) (-1, 0, setConstBuffer (getConstBuffer (ki_state k)) w1)
      = Inr (msk, n, w)"
    and 3: "thread_at (of_nat wid * 32) w = Inr thd"
    and 4: "tb' = tb\<lparr>tb_warp := (tb_warp tb)[wid := Warp_launch (get_pc thd) msk (tb_warp tb ! wid)],
             tb_warp_state := (tb_warp_state tb)[wid := Some w],
             tb_thread := wst_thread w, tb_warp_live_thread := (tb_warp_live_thread tb)[wid := n]\<rparr>"
    using assms(1,3) by (auto simp: createWarp_def Let_def res_simps)
  let ?w1 = "setConstBuffer (getConstBuffer (ki_state k)) w1"
  have w0: "wst_thread ?w0 = tb_thread tb" "wst_warp_id ?w0 = of_nat wid" "wst_warp_size ?w0 = 32" "length (wst_status ?w0) = 32"
    using assms(3) by (simp_all add: WarpState_init_def new_WarpState_def)
  have w1: "wst_thread ?w1 = tb_thread tb" "wst_warp_id ?w1 = of_nat wid" "wst_warp_size ?w1 = 32" "length (wst_status ?w1) = 32"
    using setStackPointer_frame[OF 1] w0 by (auto simp: setConstBuffer_def setup_frame_def fixed_part_def)
  have at: "lane tb wid i = tb_thread tb ! (32 * wid + i)" for i by (simp add: lane_def assms(3))
  have r: "setup_frame ?w1 w"
    "\<forall>j < length (tb_thread tb). wst_thread w ! j = (if 32 * wid \<le> j \<and> j < 32 * wid + 32
       then map_option (set_laneid (of_nat (j - 32 * wid))) (tb_thread tb ! j) else tb_thread tb ! j)"
    "\<forall>i. bit msk i \<longleftrightarrow> i < 32 \<and> lane tb wid i \<noteq> None" "n = of_nat (card {i. i < 32 \<and> lane tb wid i \<noteq> None})"
    using init_lanes[OF 2] ix len w1(1) unfolding at by auto
  have "unat (of_nat wid * 32 :: u32) = 32 * wid"
    using lane_index(1)[of 0 32 wid] ix len by (simp add: mult.commute)
  then have "wst_thread w ! (32 * wid) = Some thd" using 3 by (simp add: res_simps)
  then show thesis
    using that[where w = w and msk = msk and thd = thd] 4 r w1 by (auto simp: setup_frame_def fixed_part_def lane_def assms(3))
qed

lemma fresh_laneid: "fresh (set_laneid l t) = fresh t"
  by (simp add: fresh_def set_laneid_def is_done_def)

lemma fresh_lane:
  assumes "fresh_threads tb" "unat (tb_warp_size tb) * wid + i < length (tb_thread tb)"
  shows "live_at (lane tb wid i) \<longleftrightarrow> lane tb wid i \<noteq> None" "lane tb wid i = Some t \<Longrightarrow> get_pc t = 0"
  using assms(1)[unfolded fresh_threads_def, rule_format, OF assms(2)]
  by (auto simp: lane_def live_at_def fresh_def get_pc_def split: option.splits)

text \<open>The invariant of the loop that creates the warps.\<close>

definition launch_inv :: "nat \<Rightarrow> 'ms ThreadBlock \<Rightarrow> bool" where
  "launch_inv n tb \<longleftrightarrow> block_wf tb \<and> tb_warp_size tb = 32 \<and> insts_ok tb \<and> warps_sized tb \<and> fresh_threads tb \<and>
     (\<forall>wid < unat (tb_warp_count tb). wid < n \<longrightarrow> warp_wf tb wid \<and> stack_inv tb wid \<and> count_inv tb wid)"

text \<open>No thread is made or lost.\<close>

definition same_threads :: "'ms ThreadBlock \<Rightarrow> 'ms ThreadBlock \<Rightarrow> bool" where
  "same_threads tb tb' \<longleftrightarrow> tb_warp_count tb' = tb_warp_count tb \<and> length (tb_thread tb') = length (tb_thread tb) \<and>
     (\<forall>j < length (tb_thread tb). tb_thread tb' ! j = None \<longleftrightarrow> tb_thread tb ! j = None)"

lemma createWarp_launch:
  assumes "createWarp cfg ops k raw junk junk_status wid tb = Inr tb'" "launch_inv wid tb" "wid < unat (tb_warp_count tb)"
  shows "launch_inv (Suc wid) tb' \<and> same_threads tb tb'"
proof -
  have inv: "block_wf tb" "tb_warp_size tb = 32" "insts_ok tb" "warps_sized tb" "fresh_threads tb"
    using assms(2) by (simp_all add: launch_inv_def)
  have wf: "unat (tb_warp_count tb) = length (tb_warp tb)" "length (tb_warp_state tb) = length (tb_warp tb)"
    "length (tb_warp_live_thread tb) = length (tb_warp tb)" "length (tb_thread tb) = length (tb_warp tb) * 32"
    using inv(1,2) by (simp_all add: block_wf_def)
  have wid: "wid < length (tb_warp tb)" using assms(3) wf(1) by simp
  obtain w msk thd where r:
    "tb' = tb\<lparr>tb_warp := (tb_warp tb)[wid := Warp_launch (get_pc thd) msk (tb_warp tb ! wid)],
       tb_warp_state := (tb_warp_state tb)[wid := Some w], tb_thread := tb_thread tb',
       tb_warp_live_thread := (tb_warp_live_thread tb)[wid := of_nat (card {i. i < 32 \<and> lane tb wid i \<noteq> None})]\<rparr>"
    "length (tb_thread tb') = length (tb_thread tb)"
    "\<And>j. j < length (tb_thread tb) \<Longrightarrow> tb_thread tb' ! j = (if 32 * wid \<le> j \<and> j < 32 * wid + 32
       then map_option (set_laneid (of_nat (j - 32 * wid))) (tb_thread tb ! j) else tb_thread tb ! j)"
    "\<And>i. bit msk i \<longleftrightarrow> i < 32 \<and> lane tb wid i \<noteq> None" "lane tb' wid 0 = Some thd"
    "wst_warp_id w = of_nat wid" "wst_warp_size w = 32" "length (wst_status w) = 32"
    by (rule createWarp_result[OF assms(1) inv(1,2) assms(3)]) (rule that; assumption)
  have f: "tb_warp tb' = (tb_warp tb)[wid := Warp_launch (get_pc thd) msk (tb_warp tb ! wid)]"
    "tb_warp_state tb' = (tb_warp_state tb)[wid := Some w]" "tb_warp_size tb' = 32" "tb_warp_count tb' = tb_warp_count tb"
    "tb_warp_live_thread tb' = (tb_warp_live_thread tb)[wid := of_nat (card {i. i < 32 \<and> lane tb wid i \<noteq> None})]"
    "tb_insts tb' = tb_insts tb"
    using inv(2) by (subst r(1); simp)+
  have bound: "32 * v + i < length (tb_thread tb)" if "v < length (tb_warp tb)" "i < 32" for v i
    using that wf(4) by linarith
  have lane: "lane tb' v i = (if v = wid then map_option (set_laneid (of_nat i)) (lane tb v i) else lane tb v i)"
    if "v < length (tb_warp tb)" "i < 32" for v i
  proof -
    have "(32 * wid \<le> 32 * v + i \<and> 32 * v + i < 32 * wid + 32) = (v = wid)" using that(2) by auto
    then show ?thesis using r(3)[OF bound[OF that]] by (auto simp: lane_def f(3) inv(2))
  qed
  have fresh: "fresh_threads tb'"
    unfolding fresh_threads_def r(2)
  proof (intro allI impI)
    fix j assume j: "j < length (tb_thread tb)"
    then show "case tb_thread tb' ! j of None \<Rightarrow> True | Some t \<Rightarrow> fresh t"
      using inv(5) r(3)[OF j] by (auto simp: fresh_threads_def fresh_laneid split: option.splits)
  qed
  have bwf: "block_wf tb'" using inv(1,2) wf by (simp add: block_wf_def f r(2))
  have sized: "warps_sized tb'"
    unfolding warps_sized_def f
  proof (intro allI impI)
    fix v assume "v < unat (tb_warp_count tb)"
    then show "w_warp_size ((tb_warp tb)[wid := Warp_launch (get_pc thd) msk (tb_warp tb ! wid)] ! v) = unat (32 :: u32)"
      using inv(2,4) wid by (cases "v = wid") (simp_all add: warps_sized_def Warp_launch_def Warp_reset_def)
  qed
  have live: "live_at (lane tb' v i) \<longleftrightarrow> lane tb v i \<noteq> None" if "v < length (tb_warp tb)" "i < 32" for v i
    using fresh_lane(1)[OF fresh, of v i] bound[OF that] lane[OF that] by (simp add: f(3) r(2))
  have ll: "live_lanes tb' wid = {i. i < 32 \<and> lane tb wid i \<noteq> None}"
    using live[OF wid] by (auto simp: live_lanes_def f(3))
  have new: "warp_wf tb' wid \<and> stack_inv tb' wid \<and> count_inv tb' wid"
  proof (intro conjI)
    have "ti_laneId t = of_nat i" if "i < 32" "lane tb' wid i = Some t" for i t
      using lane[OF wid that(1)] that(2) by (cases "lane tb wid i") (auto simp: set_laneid_def)
    then show "warp_wf tb' wid"
      using inv(2,4) wf wid r(6-8) by (auto simp: warp_wf_def f warps_sized_def Warp_launch_def Warp_reset_def)
    show "count_inv tb' wid" using wid wf by (simp add: count_inv_def ll f)
    have pc: "pc_at (lane tb' wid i) = 0" if "i \<in> live_lanes tb' wid" for i
    proof -
      have i: "i < 32" "live_at (lane tb' wid i)" using that by (simp_all add: live_lanes_def f(3))
      then obtain t where t: "lane tb' wid i = Some t" by (auto simp: live_at_def split: option.splits)
      have "get_pc t = 0" using fresh_lane(2)[OF fresh _ t] bound[OF wid i(1)] by (simp add: f(3) r(2))
      then show ?thesis by (simp add: pc_at_def t)
    qed
    have m0: "bit msk 0" using r(4)[of 0] r(5) lane[OF wid, of 0] by (auto split: option.splits)
    then have nz: "msk \<noteq> 0" by auto
    have "get_pc thd = 0" using fresh_lane(2)[OF fresh _ r(5)] bound[OF wid, of 0] by (simp add: f(3) r(2))
    then show "stack_inv tb' wid"
      using wid nz pc r(4)
      by (auto simp: stack_inv_def Let_def f Warp_launch_def Warp_reset_def flat_entry_def new_SimtStack_entry_def null_pc_def ll)
  qed
  have old: "warp_wf tb' v \<and> stack_inv tb' v \<and> count_inv tb' v" if v: "v < wid" for v
  proof -
    have vl: "v < length (tb_warp tb)" using v wid by simp
    have inv_v: "warp_wf tb v" "stack_inv tb v" "count_inv tb v" using assms(2) v vl wf(1) by (auto simp: launch_inv_def)
    have same: "lane tb' v i = lane tb v i" if "i < 32" for i using lane[OF vl that] v by simp
    then have "live_lanes tb' v = live_lanes tb v" by (auto simp: live_lanes_def f(3) inv(2))
    moreover have "pc_at (lane tb' v i) = pc_at (lane tb v i)" if "i \<in> live_lanes tb v" for i
      using same that by (simp add: live_lanes_def inv(2))
    ultimately show ?thesis
      using inv_v v same by (auto simp: warp_wf_def stack_inv_def count_inv_def f inv(2) Let_def)
  qed
  have "same_threads tb tb'" using r(2,3) by (auto simp: same_threads_def f(4))
  then show ?thesis
    using bwf sized fresh new old inv(3) f wf(1) by (auto simp: launch_inv_def less_Suc_eq insts_ok_def)
qed

lemma initializeCTA_invariant:
  assumes "initializeCTA cfg ops raw_thread raw junk junk_status (tb, k) = Inr (tb', k')"
    and "block_wf tb" "tb_warp_size tb = 32" "insts_ok tb" "warps_sized tb"
  shows "block_inv tb' \<and> unat (threads_per_cta k) \<le> length (tb_thread tb') \<and>
    (\<forall>j < unat (threads_per_cta k). tb_thread tb' ! j \<noteq> None)"
proof -
  let ?n = "unat (tb_warp_count tb)"
  obtain ts k1 tb1 where 1: "createThreads raw_thread 32 (unat (threads_per_cta k))
      (replicate (unat (tb_warp_count tb * 32)) None, k) = Inr (ts, k1)"
    and tb1: "tb1 = tb\<lparr>tb_warp_live_thread := replicate ?n 0, tb_thread := ts, tb_mem :=
       (write_block_index cfg ops (ki_kernel_ctrl k1) (bs_cta_id (tb_block_state tb)) (ms_new ops), snd (tb_mem tb))\<rparr>"
    and 2: "forR ?n (createWarp cfg ops k1 raw junk junk_status) tb1 = Inr tb'"
    using assms(1,3) by (auto simp: initializeCTA_def res_simps Let_def)
  have "unat (tb_warp_count tb * 32) = ?n * 32"
    using assms(2,3) by (subst unat_mult_lem[THEN iffD1]) (auto simp: block_wf_def)
  then have ts: "length ts = ?n * 32" "\<forall>i < ?n * 32. case ts ! i of None \<Rightarrow> True | Some t \<Rightarrow> fresh t"
    using createThreads_fresh[OF 1] by simp_all
  have 0: "launch_inv 0 tb1" "tb_warp_count tb1 = tb_warp_count tb"
    using assms(2-5) ts by (auto simp: launch_inv_def tb1 block_wf_def insts_ok_def warps_sized_def fresh_threads_def)
  have "launch_inv m tb2 \<and> same_threads tb1 tb2"
    if "forR m (createWarp cfg ops k1 raw junk junk_status) tb1 = Inr tb2" "m \<le> ?n" for m tb2
    using that
  proof (induction m arbitrary: tb2)
    case 0
    then show ?case using \<open>launch_inv 0 tb1\<close> by (simp add: same_threads_def)
  next
    case (Suc m)
    obtain tb3 where 3: "forR m (createWarp cfg ops k1 raw junk junk_status) tb1 = Inr tb3"
      "createWarp cfg ops k1 raw junk junk_status m tb3 = Inr tb2"
      using Suc.prems(1) by (auto simp: forR_Suc res_simps)
    have IH: "launch_inv m tb3" "same_threads tb1 tb3" using Suc.IH[OF 3(1)] Suc.prems(2) by simp_all
    have "m < unat (tb_warp_count tb3)" using IH(2) 0(2) Suc.prems(2) by (simp add: same_threads_def)
    from createWarp_launch[OF 3(2) IH(1) this] IH(2) show ?case by (auto simp: same_threads_def)
  qed
  from this[OF 2] have "launch_inv ?n tb'" "same_threads tb1 tb'" by simp_all
  then show ?thesis
    using 0(2) ts createThreads_fresh(3,4)[OF 1]
    by (auto simp: launch_inv_def block_inv_def same_threads_def tb1 \<open>unat (tb_warp_count tb * 32) = ?n * 32\<close>)
qed

text \<open>What the constructor establishes.\<close>

lemma new_ThreadBlock_wf:
  assumes "new_ThreadBlock k bst 32 n cn junk mem = Inr tb"
  shows "block_wf tb \<and> tb_warp_size tb = 32 \<and> insts_ok tb \<and> warps_sized tb"
proof -
  let ?c = "n div 32 + (if n mod 32 \<noteq> 0 then 1 else 0)"
  have a: "?c * 32 > 0" and tb: "tb = initilizeSIMTStack ?c 32
          \<lparr>tb_warp_size = 32, tb_warp_count = ?c,
           tb_kernel_addr = getProgAddr (ki_state k), tb_kernel_args = getParamAddr (ki_state k),
           tb_kernel_const_num = cn, tb_warp = [], tb_warp_state = [],
           tb_warp_live_thread = map junk [0..<unat ?c],
           tb_thread = replicate (unat (?c * 32)) None,
           tb_block_state = bst, tb_insts = (\<lambda>_. None), tb_mem = mem\<rparr>"
    using assms by (auto simp: new_ThreadBlock_def res_simps Let_def split: if_splits)
  have "unat (n div 32) \<le> 2 ^ 27 - 1"
  proof -
    have "unat n < 2 ^ 32" using unsigned_less[of n] by simp
    then have "unat n div 32 < 2 ^ 27" by (intro less_mult_imp_div_less) simp
    then show ?thesis by (simp add: unat_div)
  qed
  then have c: "unat ?c \<le> 2 ^ 27" by (auto simp: unat_word_ariths)
  have c32: "unat (?c * 32) = unat ?c * 32 mod 2 ^ 32" by (subst unat_word_ariths(2)) simp
  have "unat ?c \<noteq> 2 ^ 27"
  proof
    assume "unat ?c = 2 ^ 27"
    then have "unat (?c * 32) = 0" unfolding c32 by simp
    then show False using a by (simp add: word_less_nat_alt)
  qed
  then have "unat ?c * 32 < 2 ^ 32" using c by simp
  then have "unat (?c * 32) = unat ?c * 32" unfolding c32 by simp
  then show ?thesis
    using \<open>unat ?c * 32 < 2 ^ 32\<close>
    by (simp add: tb initilizeSIMTStack_def block_wf_def insts_ok_def warps_sized_def new_Warp_def Warp_reset_def)
qed

lemma ThreadBlock_execute_run:
  assumes "new_ThreadBlock k0 bst 32 n cn junk0 mem = Inr tb" "make_ok mk"
    and "ThreadBlock_execute cfg ops mk debug raw_thread raw junk junk_status (tb, k) = Some (Inr (tb', k'))"
  obtains tb1 where "initializeCTA cfg ops raw_thread raw junk junk_status (tb, k) = Inr (tb1, k')" "block_inv tb1"
    "execute_loop ops mk debug tb1 = Some (Inr tb')" "block_inv tb'" "same_shape tb1 tb'"
    "unat (threads_per_cta k) \<le> length (tb_thread tb1)" "\<forall>j < unat (threads_per_cta k). tb_thread tb1 ! j \<noteq> None"
    "\<forall>wid < unat (tb_warp_count tb'). tb_warp_live_thread tb' ! wid = 0"
proof -
  obtain tb1 where 1: "initializeCTA cfg ops raw_thread raw junk junk_status (tb, k) = Inr (tb1, k')"
    "execute_loop ops mk debug tb1 = Some (Inr tb')"
    using assms(3) by (auto simp: ThreadBlock_execute_def res_simps split: sum.splits option.splits)
  note wf = new_ThreadBlock_wf[OF assms(1)]
  have i: "block_inv tb1 \<and> unat (threads_per_cta k) \<le> length (tb_thread tb1) \<and>
    (\<forall>j < unat (threads_per_cta k). tb_thread tb1 ! j \<noteq> None)"
    by (rule initializeCTA_invariant[OF 1(1)]) (use wf in simp_all)
  show thesis using that[OF 1(1) _ 1(2)] i execute_loop_run[OF 1(2) _ assms(2)] by blast
qed

section \<open>The indices of the threads\<close>

lemma createThread_k: "snd (createThread raw sid tid c h k) = increment_thread_id k"
  by (simp add: createThread_def Let_def)

lemma increment_dims [simp]:
  "ki_block_dim (increment_thread_id k) = ki_block_dim k" "ki_grid_dim (increment_thread_id k) = ki_grid_dim k"
  "ki_next_cta (increment_thread_id k) = ki_next_cta k"
  by (simp_all add: increment_thread_id_def)

lemma createThread_index:
  "ti_tid (fst (createThread raw sid tid c h k)) = ki_next_tid k" "ti_ctaid (fst (createThread raw sid tid c h k)) = ki_next_cta k"
  "ti_ntid (fst (createThread raw sid tid c h k)) = ki_block_dim k" "ti_nctaid (fst (createThread raw sid tid c h k)) = ki_grid_dim k"
  by (simp_all add: createThread_def Let_def set_tid_def set_ctaid_def set_ntid_def set_nctaid_def set_pc_def set_valid_def)

lemma iterated_dims:
  "ki_block_dim ((increment_thread_id ^^ n) k) = ki_block_dim k" "ki_grid_dim ((increment_thread_id ^^ n) k) = ki_grid_dim k"
  "ki_next_cta ((increment_thread_id ^^ n) k) = ki_next_cta k"
  by (induction n) simp_all

lemma createThreads_walk:
  assumes "createThreads raw ws n (ts0, k) = Inr (ts, k')"
  shows "k' = (increment_thread_id ^^ n) k \<and> length ts = length ts0 \<and>
    (\<forall>i < n. \<exists>t. ts ! i = Some t \<and> ti_tid t = ki_next_tid ((increment_thread_id ^^ i) k) \<and>
       ti_ctaid t = ki_next_cta k \<and> ti_ntid t = ki_block_dim k \<and> ti_nctaid t = ki_grid_dim k)"
  using assms
proof (induction n arbitrary: ts k')
  case 0
  then show ?case by (simp add: createThreads_def)
next
  case (Suc n)
  obtain us q where 1: "createThreads raw ws n (ts0, k) = Inr (us, q)"
    "(case createThread raw 0 (of_nat n) 0 (of_nat n div ws) q of (thd, k) \<Rightarrow>
      bindR (vec_set us n (Some thd)) (\<lambda>ts. Inr (ts, k))) = Inr (ts, k')"
    using Suc.prems by (auto simp: createThreads_def forR_Suc res_simps)
  note IH = Suc.IH[OF 1(1)]
  obtain t q' where t: "createThread raw 0 (of_nat n) 0 (of_nat n div ws) q = (t, q')" by (meson surj_pair)
  have k': "k' = increment_thread_id q" "ts = us[n := Some (fst (createThread raw 0 (of_nat n) 0 (of_nat n div ws) q))]"
    "n < length us"
    using 1(2) createThread_k[of raw 0 "of_nat n" 0 "of_nat n div ws" q] by (auto simp: res_simps t)
  then show ?case
    using IH by (auto simp: less_Suc_eq createThread_index iterated_dims nth_list_update)
qed

section \<open>Narrow warps\<close>

lemma init_mask_high:
  assumes "forR m (init_lane cfg ctrl ws wid) (mk0, n0, w0) = Inr (msk, n, w)" "m \<le> i"
  shows "bit msk i = bit mk0 i"
  using assms
proof (induction m arbitrary: msk n w)
  case 0
  then show ?case by simp
next
  case (Suc m)
  obtain mk1 n1 w1 where 1: "forR m (init_lane cfg ctrl ws wid) (mk0, n0, w0) = Inr (mk1, n1, w1)"
    "init_lane cfg ctrl ws wid m (mk1, n1, w1) = Inr (msk, n, w)"
    using Suc.prems(1) by (auto simp: forR_Suc res_simps)
  have "msk = mk1 \<or> msk = unset_bit m mk1" using init_lane_thread[OF 1(2)] by (auto split: option.splits)
  then show ?case using Suc.IH[OF 1(1)] Suc.prems(2) by (auto simp: bit_lanes)
qed

text \<open>A warp of a block whose mask names a lane that the warp size does not reach.\<close>

definition overfull :: "'ms ThreadBlock \<Rightarrow> nat \<Rightarrow> bool" where
  "overfull tb wid \<longleftrightarrow> wid < length (tb_warp tb) \<and> w_warp_size (tb_warp tb ! wid) < 32 \<and>
     (\<exists>e es. w_stack (tb_warp tb ! wid) = e # es \<and> bit (se_active_mask e) 31)"

lemma createWarp_overfull:
  assumes "createWarp cfg ops k raw junk junk_status wid tb = Inr tb'" "unat (tb_warp_size tb) < 32"
    and "\<forall>v < length (tb_warp tb). w_warp_size (tb_warp tb ! v) < 32" "\<forall>v < wid. overfull tb v"
  shows "(\<forall>v < Suc wid. overfull tb' v) \<and> tb_warp_size tb' = tb_warp_size tb \<and>
    (\<forall>v < length (tb_warp tb'). w_warp_size (tb_warp tb' ! v) < 32)"
proof -
  obtain w0 mk n w thd where
    1: "forR (unat (tb_warp_size tb)) (init_lane cfg (ki_kernel_ctrl k) (tb_warp_size tb) (of_nat wid)) (-1, 0, w0) = Inr (mk, n, w)"
    and r: "wid < length (tb_warp tb)" "tb' = tb\<lparr>tb_warp := (tb_warp tb)[wid := Warp_launch (get_pc thd) mk (tb_warp tb ! wid)],
       tb_warp_state := (tb_warp_state tb)[wid := Some w], tb_thread := wst_thread w,
       tb_warp_live_thread := (tb_warp_live_thread tb)[wid := n]\<rparr>"
    using assms(1) by (auto simp: createWarp_def Let_def res_simps)
  have 2: "wid < length (tb_warp tb)" "tb_warp tb' = (tb_warp tb)[wid := Warp_launch (get_pc thd) mk (tb_warp tb ! wid)]"
    "tb_warp_size tb' = tb_warp_size tb" using r by simp_all
  have "bit mk 31" using init_mask_high[OF 1, of 31] assms(2) by simp
  then have new: "overfull tb' wid"
    using 2 assms(3) by (simp add: overfull_def Warp_launch_def Warp_reset_def)
  have "overfull tb' v" if "v < wid" for v
    using assms(4)[rule_format, OF that] that by (simp add: overfull_def 2(2))
  moreover have "w_warp_size (tb_warp tb' ! v) < 32" if "v < length (tb_warp tb')" for v
    using assms(3) that 2(1) by (cases "v = wid") (simp_all add: 2(2) Warp_launch_def Warp_reset_def)
  ultimately show ?thesis using new 2(3) by (auto simp: less_Suc_eq)
qed

lemma extract_group_high: "n \<le> i \<Longrightarrow> bit (fst (extract_group dn npc n (act, pc, grp))) i = bit act i"
proof (induction n arbitrary: act pc grp)
  case 0
  then show ?case by simp
next
  case (Suc n)
  obtain a p g where e: "extract_lane dn npc n (act, pc, grp) = (a, p, g)" by (metis prod_cases3)
  then have "bit a i = bit act i" using Suc.prems by (auto simp: extract_lane_def bit_lanes split: if_splits)
  then show ?case using Suc by (simp add: e)
qed

lemma collect_paths_overfull:
  assumes "bit act i" "ws \<le> i"
  shows "collect_paths dn npc ws act ps num = Inl Assert_Failed"
  using assms
proof (induction dn npc ws act ps num rule: collect_paths.induct)
  case (1 dn npc ws act ps num)
  let ?g = "extract_group dn npc ws (act, null_pc, 0)"
  have nz: "act \<noteq> 0" using 1(3) by auto
  have hi: "bit (fst ?g) i" using extract_group_high[OF 1(4)] 1(3) by blast
  then have "fst ?g \<noteq> 0" by auto
  then show ?case
    using 1(2)[OF nz refl refl refl refl _ hi 1(4)] nz
    by (subst collect_paths.simps) (auto simp: Let_def)
qed

lemma overfull_stuck:
  assumes "executeWarp ops mk debug wid tb = Inr tb'"
  shows "\<not> overfull tb wid"
proof
  assume o: "overfull tb wid"
  obtain inst1 tb1 inst2 tb2 inst3 tb3 where a: "getExecuteWarp ops mk wid tb = Inr (inst1, tb1)"
    "executeInstruction debug inst1 wid tb1 = Inr (inst2, tb2)" "updateSIMTStack wid inst2 tb2 = Inr (inst3, tb3)"
    using assms by (auto simp: executeWarp_def res_simps)
  obtain pc tb0 wp where g: "getInstruction ops mk pc tb = Inr (inst1, tb0)"
    "update_simt_active_mask (ins_m_isatomic (in_base inst1)) (tb_warp tb ! wid) = Inr wp"
    "tb1 = tb0\<lparr>tb_warp := (tb_warp tb0)[wid := wp]\<rparr>"
    using a(1) by (auto simp: getExecuteWarp_def bindR_eq_Inr vec_get_Inr split: prod.splits)
  have "tb_warp tb0 = tb_warp tb"
    using g(1) by (auto simp: getInstruction_def res_simps Let_def split: option.splits)
  then have "tb_warp tb1 = tb_warp tb" using g(3) update_same_mask[OF g(2)] by simp
  moreover have "tb_warp tb2 = tb_warp tb1"
    using a(2) by (auto simp: executeInstruction_def put_warp_state_def bindR_eq_Inr split: prod.splits)
  ultimately have w: "overfull tb2 wid" using o by (simp add: overfull_def)
  then obtain dn npc r wp' where "Warp_update dn npc r (ins_op_type (in_base inst2)) (ins_m_size (in_base inst2))
      (ins_pc (in_base inst2)) (tb_warp tb2 ! wid) = Inr wp'"
    using a(3) by (auto simp: updateSIMTStack_def Let_def res_simps)
  then obtain e ps n where "stack_back (w_stack (tb_warp tb2 ! wid)) = Inr e"
    "collect_paths dn npc (w_warp_size (tb_warp tb2 ! wid)) (se_active_mask e) [] 0 = Inr (ps, n)"
    by (auto simp: Warp_update_def res_simps)
  then show False
    using w collect_paths_overfull[of _ 31 "w_warp_size (tb_warp tb2 ! wid)" dn npc "[]" 0]
    by (auto simp: overfull_def stack_back_def)
qed

lemma initializeCTA_overfull:
  assumes "initializeCTA cfg ops raw_thread raw junk junk_status (tb, k) = Inr (tb1, k1)"
    and "unat (tb_warp_size tb) < 32" "\<forall>v < length (tb_warp tb). w_warp_size (tb_warp tb ! v) < 32"
    and "wid < unat (tb_warp_count tb)"
  shows "overfull tb1 wid"
proof -
  obtain k' tb0 where tb0: "tb_warp tb0 = tb_warp tb" "tb_warp_size tb0 = tb_warp_size tb"
    and f: "forR (unat (tb_warp_count tb)) (createWarp cfg ops k' raw junk junk_status) tb0 = Inr tb1"
  proof -
    obtain ts k' where f: "forR (unat (tb_warp_count tb)) (createWarp cfg ops k' raw junk junk_status)
      (tb\<lparr>tb_warp_live_thread := replicate (unat (tb_warp_count tb)) 0, tb_thread := ts, tb_mem :=
        (write_block_index cfg ops (ki_kernel_ctrl k') (bs_cta_id (tb_block_state tb)) (ms_new ops), snd (tb_mem tb))\<rparr>) = Inr tb1"
      using assms(1) by (auto simp: initializeCTA_def res_simps Let_def)
    show thesis by (rule that[OF _ _ f]) simp_all
  qed
  have "(\<forall>v < m. overfull tb2 v) \<and> tb_warp_size tb2 = tb_warp_size tb \<and>
      (\<forall>v < length (tb_warp tb2). w_warp_size (tb_warp tb2 ! v) < 32)"
    if "forR m (createWarp cfg ops k' raw junk junk_status) tb0 = Inr tb2" for m tb2
    using that
  proof (induction m arbitrary: tb2)
    case 0
    then show ?case using tb0 assms(3) by simp
  next
    case (Suc m)
    obtain tb3 where 3: "forR m (createWarp cfg ops k' raw junk junk_status) tb0 = Inr tb3"
      "createWarp cfg ops k' raw junk junk_status m tb3 = Inr tb2"
      using Suc.prems by (auto simp: forR_Suc res_simps)
    show ?case using createWarp_overfull[OF 3(2)] Suc.IH[OF 3(1)] assms(2) by simp
  qed
  from this[OF f] show ?thesis using assms(4) by simp
qed

end
