(* ===== verification/Block_Theorems.thy ===== *)
theory Block_Theorems
  imports Block_Launch Handler_Frames Sample_State
begin

text \<open>
  The properties of a thread block, stated over the code's steps: every warp step keeps the
  invariant, and a block that \<open>ThreadBlock::execute\<close> returns from has no live thread. The example
  is a block of one warp with two lanes whose program is the exit instruction.
\<close>

section \<open>An example\<close>

definition exit_inst :: "'ms block_mem Inst" where
  "exit_inst = \<lparr>in_base = (new_Instruction (OTHER_OP 0))\<lparr>ins_m_size := 4, ins_m_decoded := True\<rparr>,
     in_execute = warp_exec T_EXIT, in_collect = (\<lambda>w. OperandCollect sample_cfg w),
     in_write_back = WriteBack sample_cfg\<rparr>"

lemma exit_inst_ok: "inst_ok exit_inst"
  using texit.handler_axioms WriteBack_keeps
  by (auto simp: inst_ok_def exit_inst_def new_Instruction_def null_pc_def intro: frames)

definition sample_ops :: "(u64 \<Rightarrow> u8) mem_ops" where
  "sample_ops = \<lparr>ms_read = bytes_read, ms_write = bytes_write, ms_new = (\<lambda>_. 0)\<rparr>"

definition sample_wst :: "(u64 \<Rightarrow> u8) block_mem WarpState" where
  "sample_wst = \<lparr>wst_sreg_num = 4, wst_vreg_num = 0, wst_kernel_const_reg_num = 0, wst_warp_size = 2,
     wst_sreg = [0, 0, 0, 0], wst_vreg = [], wst_const_buffer = [], wst_status = [W_READY, W_READY], wst_is_blocking = False,
     wst_warp_id = 0, wst_active_mask = 0, wst_tb_state = sample_block, wst_thread = [],
     wst_local_mem_stack_pointer = 0, wst_global_memory_access_address = 0,
     wst_global_memory_access_size = 0, wst_smem_read_counter = 0,
     wst_vector_memory_global_coherency = False, wst_scalar_memory_read = False,
     wst_vector_memory_read = False, wst_vector_memory_write = False, wst_memory_wait = False,
     wst_memory = (ucast, ucast), wst_dsm_read = dsm_read_func sample_ops, wst_dsm_write = dsm_write_func sample_ops,
     wst_mem_read = mem_read_func sample_ops, wst_mem_write = mem_write_func sample_ops\<rparr>"

definition sample_tb :: "(u64 \<Rightarrow> u8) ThreadBlock" where
  "sample_tb = \<lparr>tb_warp_size = 2, tb_warp_count = 1, tb_kernel_addr = 0, tb_kernel_args = 0, tb_kernel_const_num = 0,
     tb_warp = [Warp_launch 100 3 (new_Warp 0 2)], tb_warp_state = [Some sample_wst],
     tb_warp_live_thread = [2], tb_thread = [Some (sample_thread 0), Some (sample_thread 1)],
     tb_block_state = sample_block\<lparr>bs_warp_at_bar := [False]\<rparr>, tb_insts = (\<lambda>_. None), tb_mem = (ucast, ucast)\<rparr>"

lemma sample_block_inv: "block_inv sample_tb"
proof -
  have l: "live_lanes sample_tb 0 = {0, 1}"
    by (auto simp: live_lanes_def lane_def sample_tb_def live_at_def is_done_def sample_thread_def less_2_cases_iff)
  have "bit (3 :: u32) i \<longleftrightarrow> i = 0 \<or> i = 1" for i
    by (cases i; cases "i - 1") (auto simp: bit_Suc)
  then have "stack_inv sample_tb 0"
    unfolding stack_inv_def l
    by (auto simp: sample_tb_def Warp_launch_def Warp_reset_def new_Warp_def new_SimtStack_entry_def flat_entry_def
        null_pc_def pc_at_def lane_def get_pc_def sample_thread_def less_Suc_eq)
  moreover have "warp_wf sample_tb 0"
    unfolding warp_wf_def l
    by (auto simp: sample_tb_def sample_wst_def Warp_launch_def Warp_reset_def new_Warp_def lane_def sample_thread_def less_2_cases_iff)
  moreover have "count_inv sample_tb 0" unfolding count_inv_def l by (simp add: sample_tb_def)
  ultimately show ?thesis
    by (auto simp: block_inv_def block_wf_def insts_ok_def sample_tb_def less_Suc_eq)
qed

definition sample_make :: "u64 \<Rightarrow> (u64 \<Rightarrow> u8) block_mem Inst res" where
  "sample_make opcode = Inr exit_inst"

lemma sample_make_ok: "make_ok sample_make"
  by (simp add: make_ok_def sample_make_def exit_inst_ok)

lemma sample_executeWarp: "\<exists>tb. executeWarp sample_ops sample_make False 0 sample_tb = Inr tb"
proof -
  have "case executeWarp sample_ops sample_make False 0 sample_tb of Inl e \<Rightarrow> False | Inr tb \<Rightarrow> tb_warp_live_thread tb = [0]"
    by code_simp
  then show ?thesis by (auto split: sum.splits)
qed

section \<open>The invariant over a run\<close>

text \<open>
  C8. A warp's turn in \<open>ThreadBlock::execute\<close> (fetch, execution by the active lanes, update of the
  stack) keeps the invariant of the block: in every warp the stack entries partition the
  live lanes, each live lane stands at the program counter of its entry, and the count of live
  threads is exact.
\<close>

theorem executeWarp_invariant:
  assumes "block_inv tb" "make_ok mk" "wid < unat (tb_warp_count tb)"
    and "executeWarp ops mk debug wid tb = Inr tb'"
  shows "block_inv tb'"
  using executeWarp_step[OF assms(4,1,2,3)] by simp

theorem executeWarp_invariant_witness:
  "\<exists>tb. executeWarp sample_ops sample_make False 0 sample_tb = Inr tb \<and> block_inv tb"
proof -
  obtain tb where "executeWarp sample_ops sample_make False 0 sample_tb = Inr tb" using sample_executeWarp by blast
  moreover from this have "block_inv tb"
    by (rule executeWarp_invariant[OF sample_block_inv sample_make_ok, rotated]) (simp add: sample_tb_def)
  ultimately show ?thesis by blast
qed

lemma no_live_lanes:
  assumes "block_inv tb" "wid < unat (tb_warp_count tb)" "tb_warp_live_thread tb ! wid = 0"
  shows "live_lanes tb wid = {}"
proof -
  have "card (live_lanes tb wid) \<le> card {..<unat (tb_warp_size tb)}"
    by (rule card_mono) (auto simp: live_lanes_def)
  then have "card (live_lanes tb wid) < 2 ^ 32" using assms(1) by (simp add: block_inv_def block_wf_def)
  moreover have "(of_nat (card (live_lanes tb wid)) :: u32) = 0"
    using assms by (simp add: block_inv_def count_inv_def)
  ultimately have "card (live_lanes tb wid) = 0" by (auto simp: word_of_nat_eq_0_iff dest: dvd_imp_le)
  then show ?thesis by simp
qed

text \<open>A count of 0 means that no thread of the warp is live, because a warp has at most 32 lanes.\<close>

lemma loop_completes:
  assumes "block_inv tb" "make_ok mk" "execute_loop ops mk debug tb = Some (Inr tb')"
  shows "(\<forall>j < length (tb_thread tb'). \<not> live_at (tb_thread tb' ! j)) \<and> length (tb_thread tb') = length (tb_thread tb) \<and>
    (\<forall>wid < unat (tb_warp_count tb'). tb_warp_live_thread tb' ! wid = 0)"
proof -
  have r: "block_inv tb'" "tb_warp_size tb' = tb_warp_size tb" "tb_warp_count tb' = tb_warp_count tb"
    "\<forall>wid < unat (tb_warp_count tb'). tb_warp_live_thread tb' ! wid = 0"
    using execute_loop_run[OF assms(3,1,2)] by (auto simp: same_shape_def)
  have len: "length (tb_thread tb') = unat (tb_warp_count tb') * unat (tb_warp_size tb')"
    "length (tb_thread tb) = unat (tb_warp_count tb) * unat (tb_warp_size tb)"
    using r(1) assms(1) by (simp_all add: block_inv_def block_wf_def)
  have "\<not> live_at (tb_thread tb' ! j)" if j: "j < length (tb_thread tb')" for j
  proof -
    let ?n = "unat (tb_warp_size tb')"
    have n: "?n > 0" "j div ?n < unat (tb_warp_count tb')"
      using j len(1) by (auto simp: less_mult_imp_div_less intro: gr0I)
    have "live_lanes tb' (j div ?n) = {}" using no_live_lanes[OF r(1) n(2)] r(4) n(2) by simp
    then have "\<not> live_at (lane tb' (j div ?n) (j mod ?n))" using n(1) by (auto simp: live_lanes_def)
    then show ?thesis by (simp add: lane_def)
  qed
  then show ?thesis using len r by simp
qed


text \<open>
  The example: a block of one warp with one thread. The register arrays of the new warp stay
  symbolic, as they are long.
\<close>

definition one_thread_kernel :: KernelInfo where
  "one_thread_kernel = sample_kernel\<lparr>ki_block_dim := mk_dim3 1 1 1\<rparr>"

definition first_thread :: ThreadItem where
  "first_thread = set_laneid 0 (fst (createThread (sample_thread 0) 0 0 0 0 one_thread_kernel))"

definition sample_w32 :: "u32 list \<Rightarrow> u32 list \<Rightarrow> (u64 \<Rightarrow> u8) block_mem WarpState" where
  "sample_w32 S V = sample_wst\<lparr>wst_sreg_num := 256, wst_vreg_num := 265, wst_warp_size := 32, wst_sreg := S[0 := 0, 1 := 0], wst_vreg := V,
     wst_status := replicate 32 W_READY, wst_tb_state := sample_block\<lparr>bs_warp_at_bar := [False]\<rparr>,
     wst_thread := Some first_thread # replicate 31 None\<rparr>"

definition sample_new :: "(u64 \<Rightarrow> u8) ThreadBlock" where
  "sample_new = initilizeSIMTStack 1 32
     \<lparr>tb_warp_size = 32, tb_warp_count = 1, tb_kernel_addr = 0, tb_kernel_args = 0, tb_kernel_const_num = 0,
      tb_warp = [], tb_warp_state = [], tb_warp_live_thread = [0], tb_thread = replicate 32 None,
      tb_block_state = sample_block\<lparr>bs_warp_at_bar := [False]\<rparr>, tb_insts = (\<lambda>_. None), tb_mem = (ucast, ucast)\<rparr>"

lemma sample_new: "new_ThreadBlock one_thread_kernel (sample_block\<lparr>bs_warp_at_bar := [False]\<rparr>) 32 1 0 (\<lambda>_. 0) (ucast, ucast) = Inr sample_new"
  by (simp add: new_ThreadBlock_def sample_new_def getProgAddr_def getParamAddr_def one_thread_kernel_def sample_kernel_def sample_state_def)

definition sample_launched :: "u32 list \<Rightarrow> u32 list \<Rightarrow> (u64 \<Rightarrow> u8) ThreadBlock" where
  "sample_launched S V = sample_new\<lparr>tb_warp := [Warp_launch 0 1 (new_Warp 0 32)], tb_warp_state := [Some (sample_w32 S V)],
     tb_warp_live_thread := [1], tb_thread := Some first_thread # replicate 31 None, tb_mem := (\<lambda>_. 0, ucast)\<rparr>"

lemma sample_createThreads:
  "\<exists>k. createThreads (sample_thread 0) 32 1 (replicate 32 None, one_thread_kernel) =
    Inr (Some (fst (createThread (sample_thread 0) 0 0 0 0 one_thread_kernel)) # replicate 31 None, k) \<and>
    ki_state k = sample_state \<and> ki_kernel_ctrl k = 0"
  by (simp add: createThreads_def forR_def vec_set_def numeral_eq_Suc createThread_def Let_def increment_thread_id_def
      one_thread_kernel_def sample_kernel_def)

lemma sample_initializeCTA:
  "\<exists>S V k'. initializeCTA sample_cfg sample_ops (sample_thread 0) sample_wst (\<lambda>_. 0) (\<lambda>_. W_READY) (sample_new, one_thread_kernel) =
    Inr (sample_launched S V, k')"
proof -
  let ?t = "fst (createThread (sample_thread 0) 0 0 0 0 one_thread_kernel)"
  obtain k1 where 1: "createThreads (sample_thread 0) 32 1 (replicate 32 None, one_thread_kernel) =
    Inr (Some ?t # replicate 31 None, k1)" "ki_state k1 = sample_state" "ki_kernel_ctrl k1 = 0"
    using sample_createThreads by blast
  define S :: "u32 list" where "S = map (\<lambda>_. 0) [0..<256]"
  define V :: "u32 list" where "V = map (\<lambda>_. 0) [0..<unat (265 * 32 :: u32)]"
  have len: "length S = 256" by (simp add: S_def del: upt_rec_numeral)
  let ?ts = "Some ?t # replicate 31 None"
  let ?tb = "sample_new\<lparr>tb_warp_live_thread := [0], tb_thread := ?ts, tb_mem := (\<lambda>_. 0, ucast)\<rparr>"
  let ?w0 = "sample_wst\<lparr>wst_sreg_num := 256, wst_vreg_num := 265, wst_warp_size := 32, wst_sreg := S, wst_vreg := V,
     wst_status := replicate 32 W_READY, wst_tb_state := sample_block\<lparr>bs_warp_at_bar := [False]\<rparr>, wst_thread := ?ts\<rparr>"
  have w0: "WarpState_init (of_nat 0) (tb_block_state ?tb) (tb_thread ?tb) (\<lambda>_. 0) (\<lambda>_. W_READY)
     (new_WarpState 256 265 (tb_warp_size ?tb) (tb_kernel_const_num ?tb) (dsm_read_func sample_ops)
            (dsm_write_func sample_ops) (mem_read_func sample_ops) (mem_write_func sample_ops) sample_wst) = ?w0"
    by (simp add: WarpState_init_def new_WarpState_def S_def V_def sample_wst_def sample_new_def initilizeSIMTStack_def
        map_replicate_const del: upt_rec_numeral)
  have sp: "setStackPointer sample_cfg (getLocalAddr (ki_state k1) + getLocalSize (ki_state k1) * of_nat 0) ?w0 =
    Inr (?w0\<lparr>wst_sreg := S[0 := 0, 1 := 0]\<rparr>)"
    using len by (auto simp add: setStackPointer_def setSreg_def vec_set_def sample_cfg_def sample_wst_def 1(2) sample_state_def
        getLocalAddr_def getLocalSize_def)
  let ?w1 = "setConstBuffer (getConstBuffer (ki_state k1)) (?w0\<lparr>wst_sreg := S[0 := 0, 1 := 0]\<rparr>)"
  have w32: "?w1\<lparr>wst_thread := Some first_thread # replicate 31 None\<rparr> = sample_w32 S V"
    by (simp add: sample_w32_def setConstBuffer_def 1(2) getConstBuffer_def sample_state_def sample_wst_def)
  have "\<exists>msk. forR (Suc m) (init_lane sample_cfg 0 32 0) (-1, 0, ?w1) = Inr (msk, 1, sample_w32 S V) \<and>
      (\<forall>i. bit msk i \<longleftrightarrow> i < 32 \<and> (i = 0 \<or> i > m))" if "m < 32" for m
    using that
  proof (induction m)
    case 0
    have "init_lane sample_cfg 0 32 0 0 (-1, 0, ?w1) = Inr (-1, 1, ?w1\<lparr>wst_thread := Some first_thread # replicate 31 None\<rparr>)"
      by (simp add: init_lane_def index_regs_def set_index_def vec_get_def modify_at_def thread_at_def vec_set_def
          setConstBuffer_def first_thread_def)
    then have "forR (Suc 0) (init_lane sample_cfg 0 32 0) (-1, 0, ?w1) = Inr (-1, 1, sample_w32 S V)"
      unfolding forR_Suc forR_0 bindR.simps w32 .
    then show ?case by (intro exI[of _ "-1"]) auto
  next
    case (Suc m)
    then obtain msk where IH: "forR (Suc m) (init_lane sample_cfg 0 32 0) (-1, 0, ?w1) = Inr (msk, 1, sample_w32 S V)"
      "\<forall>i. bit msk i \<longleftrightarrow> i < 32 \<and> (i = 0 \<or> i > m)" by auto
    have "unat (of_nat (Suc m) :: u32) = Suc m" using Suc.prems by (simp add: unat_of_nat del: of_nat_Suc)
    then have "init_lane sample_cfg 0 32 0 (Suc m) (msk, 1, sample_w32 S V) = Inr (unset_bit (Suc m) msk, 1, sample_w32 S V)"
      using Suc.prems by (simp add: init_lane_def vec_get_def sample_w32_def index_regs_def del: of_nat_Suc)
    then have "forR (Suc (Suc m)) (init_lane sample_cfg 0 32 0) (-1, 0, ?w1) = Inr (unset_bit (Suc m) msk, 1, sample_w32 S V)"
      unfolding forR_Suc[of "Suc m"] IH(1) bindR.simps .
    moreover have "\<forall>i. bit (unset_bit (Suc m) msk) i \<longleftrightarrow> i < 32 \<and> (i = 0 \<or> i > Suc m)"
      unfolding bit_unset_lane IH(2)[rule_format] by arith
    ultimately show ?case by blast
  qed
  note run = this
  obtain msk where m: "forR (Suc 31) (init_lane sample_cfg 0 32 0) (-1, 0, ?w1) = Inr (msk, 1, sample_w32 S V)"
    "\<forall>i. bit msk i \<longleftrightarrow> i < 32 \<and> (i = 0 \<or> i > 31)"
    using run[of 31] by (elim meta_impE) (simp, blast)
  have S31: "Suc 31 = 32" by simp
  have m1: "msk = 1" by (rule bit_eqI) (auto simp: m(2) bit_1_iff)
  have lanes: "forR 32 (init_lane sample_cfg (ki_kernel_ctrl k1) 32 (of_nat 0)) (-1, 0, ?w1) = Inr (1, 1, sample_w32 S V)"
    using m(1) unfolding S31 1(3) m1 by (simp only: semiring_1_class.of_nat_0)
  have pc: "get_pc (set_laneid 0 ?t) = 0"
    by (simp add: createThread_def Let_def get_pc_def set_pc_def set_laneid_def set_valid_def)
  have "createWarp sample_cfg sample_ops k1 sample_wst (\<lambda>_. 0) (\<lambda>_. W_READY) 0 ?tb = Inr (sample_launched S V)"
    unfolding createWarp_def w0 Let_def sp bindR.simps
    using lanes
    by (simp add: sample_new_def initilizeSIMTStack_def sample_launched_def thread_at_def vec_get_def vec_set_def
      sample_w32_def first_thread_def pc)
  moreover have "unat (threads_per_cta one_thread_kernel) = 1"
    by (simp add: threads_per_cta_def one_thread_kernel_def)
  moreover have "write_block_index sample_cfg sample_ops 0 c (ms_new sample_ops) = (\<lambda>_. 0)" for c
    by (simp add: write_block_index_def index_regs_def sample_ops_def)
  ultimately have "initializeCTA sample_cfg sample_ops (sample_thread 0) sample_wst (\<lambda>_. 0) (\<lambda>_. W_READY) (sample_new, one_thread_kernel) =
    Inr (sample_launched S V, k1)"
    using 1
    by (simp add: initializeCTA_def sample_new_def initilizeSIMTStack_def forR_def)
  then show ?thesis by blast
qed

lemma sample_launched_runs: "\<exists>tb. execute_loop sample_ops sample_make False (sample_launched S V) = Some (Inr tb)"
proof -
  have "case execute_round sample_ops sample_make False (sample_launched S V) of Inl e \<Rightarrow> False | Inr (tb, d) \<Rightarrow>
      \<not> d \<and> (case execute_round sample_ops sample_make False tb of Inl e \<Rightarrow> False | Inr (tb, d) \<Rightarrow> d)"
    by code_simp
  then show ?thesis
    by (subst execute_loop.simps, subst execute_loop.simps) (auto split: sum.splits)
qed


section \<open>Thread indices\<close>



section \<open>Narrow warps\<close>


text \<open>The example: one warp of one lane.\<close>

definition narrow_new :: "(u64 \<Rightarrow> u8) ThreadBlock" where
  "narrow_new = initilizeSIMTStack 1 1
     \<lparr>tb_warp_size = 1, tb_warp_count = 1, tb_kernel_addr = 0, tb_kernel_args = 0, tb_kernel_const_num = 0,
      tb_warp = [], tb_warp_state = [], tb_warp_live_thread = [0], tb_thread = [None],
      tb_block_state = sample_block, tb_insts = (\<lambda>_. None), tb_mem = (ucast, ucast)\<rparr>"

lemma narrow_new: "new_ThreadBlock one_thread_kernel sample_block 1 1 0 (\<lambda>_. 0) (ucast, ucast) = Inr narrow_new"
  by (simp add: new_ThreadBlock_def narrow_new_def getProgAddr_def getParamAddr_def one_thread_kernel_def sample_kernel_def sample_state_def)

lemma WarpState_init_thread: "wst_thread (WarpState_init i b ts junk st w) = ts"
  by (simp add: WarpState_init_def)

lemma sample_setStackPointer:
  assumes "1 < length (wst_sreg w)"
  shows "\<exists>w'. setStackPointer sample_cfg sp w = Inr w' \<and> wst_thread w' = wst_thread w"
  using assms by (auto simp: setStackPointer_def setSreg_def vec_set_def sample_cfg_def Let_def)

lemma narrow_initializeCTA:
  "\<exists>tb k. initializeCTA sample_cfg sample_ops (sample_thread 0) sample_wst (\<lambda>_. 0) (\<lambda>_. W_READY) (narrow_new, one_thread_kernel) = Inr (tb, k)"
proof -
  let ?t = "fst (createThread (sample_thread 0) 0 0 0 0 one_thread_kernel)"
  obtain k1 where k1: "createThreads (sample_thread 0) 1 1 ([None], one_thread_kernel) = Inr ([Some ?t], k1)" "ki_kernel_ctrl k1 = 0"
    by (simp add: createThreads_def forR_def vec_set_def createThread_def Let_def increment_thread_id_def
        one_thread_kernel_def sample_kernel_def)
  have warp: "\<exists>tb'. createWarp sample_cfg sample_ops k1 sample_wst (\<lambda>_. 0) (\<lambda>_. W_READY) 0 tb = Inr tb'"
    if tb: "tb_warp_size tb = 1" "tb_thread tb = [Some ?t]" "0 < length (tb_warp tb)" "0 < length (tb_warp_live_thread tb)" for tb
  proof -
    let ?w0 = "WarpState_init (of_nat 0) (tb_block_state tb) (tb_thread tb) (\<lambda>_. 0) (\<lambda>_. W_READY)
      (new_WarpState 256 265 (tb_warp_size tb) (tb_kernel_const_num tb) (dsm_read_func sample_ops)
            (dsm_write_func sample_ops) (mem_read_func sample_ops) (mem_write_func sample_ops) sample_wst)"
    have "1 < length (wst_sreg ?w0)" by (simp add: WarpState_init_def new_WarpState_def del: upt_rec_numeral)
    then obtain w1 where 1: "setStackPointer sample_cfg (getLocalAddr (ki_state k1) + getLocalSize (ki_state k1) * of_nat 0) ?w0 = Inr w1"
      "wst_thread w1 = [Some ?t]"
      using sample_setStackPointer by (metis (no_types, lifting) WarpState.select_convs(13) tb(2) WarpState_init_thread)
    let ?w1 = "setConstBuffer (getConstBuffer (ki_state k1)) w1"
    have 2: "forR 1 (init_lane sample_cfg (ki_kernel_ctrl k1) 1 (of_nat 0)) (-1, 0, ?w1) =
      Inr (-1, 1, ?w1\<lparr>wst_thread := [Some (set_laneid 0 ?t)]\<rparr>)"
      by (simp add: forR_def init_lane_def index_regs_def set_index_def vec_get_def modify_at_def thread_at_def vec_set_def
          setConstBuffer_def 1(2) k1(2))
    show ?thesis
      using tb(3,4) 2 unfolding createWarp_def Let_def 1(1) bindR.simps
      by (simp add: tb(1) thread_at_def vec_get_def vec_set_def)
  qed
  have "unat (threads_per_cta one_thread_kernel) = 1" by (simp add: threads_per_cta_def one_thread_kernel_def)
  moreover obtain tb where "createWarp sample_cfg sample_ops k1 sample_wst (\<lambda>_. 0) (\<lambda>_. W_READY) 0
     (narrow_new\<lparr>tb_warp_live_thread := [0], tb_thread := [Some ?t], tb_mem :=
        (write_block_index sample_cfg sample_ops 0 (bs_cta_id sample_block) (ms_new sample_ops), ucast)\<rparr>) = Inr tb"
    using warp[of "narrow_new\<lparr>tb_warp_live_thread := [0], tb_thread := [Some ?t], tb_mem :=
        (write_block_index sample_cfg sample_ops 0 (bs_cta_id sample_block) (ms_new sample_ops), ucast)\<rparr>"]
    by (auto simp: narrow_new_def initilizeSIMTStack_def)
  ultimately show ?thesis
    using k1 by (simp add: initializeCTA_def narrow_new_def initilizeSIMTStack_def forR_def)
qed


end
