(* ===== verification/Executor.thy ===== *)
theory Executor
  imports Thread_Block Block_State Thread_Pool Sample_State
begin

text \<open>
  The launch of a kernel (model/Executor.cpp, \<open>BlockState::GetBlockState\<close>): the constant
  registers of the kernel, and the loop that makes the blocks and hands them to the worker pool. The
  lemmas show what the kernel finds in its constant registers; what every interleaving of the
  launching thread and the workers guarantees is in Launch_Theorems.
\<close>

section \<open>The constant registers of a kernel\<close>

definition put_const :: "bool \<Rightarrow> u32 \<Rightarrow> u32 \<times> KernelState \<Rightarrow> (u32 \<times> KernelState) res" where
  "put_const used v st = (case st of (const_reg_num, ks) \<Rightarrow>
     if used then bindR (setConstReg32 const_reg_num v ks) (\<lambda>ks. Inr (const_reg_num + 1, ks)) else Inr st)"

definition launch_consts :: "coasm \<Rightarrow> KernelInfo \<Rightarrow> (u32 \<times> KernelInfo) res" where
  "launch_consts cfg k =
     (let kernel_ctrl = ki_kernel_ctrl k; ks = ki_state k in
      bindR (if bit kernel_ctrl (KERNEL_CTRL_BIT_PARAM_BASE cfg)
             then bindR (setConstReg64 0 (getParamAddr ks) ks) (\<lambda>ks. Inr (2, ks)) else Inr (0, ks)) (\<lambda>st.
      bindR (put_const (bit kernel_ctrl (KERNEL_CTRL_BIT_GRID_DIM_X cfg)) (dx (ki_grid_dim k)) st) (\<lambda>st.
      bindR (put_const (bit kernel_ctrl (KERNEL_CTRL_BIT_GRID_DIM_Y cfg)) (dy (ki_grid_dim k)) st) (\<lambda>st.
      bindR (put_const (bit kernel_ctrl (KERNEL_CTRL_BIT_GRID_DIM_Z cfg)) (dz (ki_grid_dim k)) st) (\<lambda>st.
      bindR (put_const (bit kernel_ctrl (KERNEL_CTRL_BIT_BLOCK_DIM_X cfg)) (dx (ki_block_dim k)) st) (\<lambda>st.
      bindR (put_const (bit kernel_ctrl (KERNEL_CTRL_BIT_BLOCK_DIM_Y cfg)) (dy (ki_block_dim k)) st) (\<lambda>st.
      bindR (put_const (bit kernel_ctrl (KERNEL_CTRL_BIT_BLOCK_DIM_Z cfg)) (dz (ki_block_dim k)) st)
        (\<lambda>(const_reg_num, ks). Inr (const_reg_num, k\<lparr>ki_state := ks\<rparr>)))))))))"

text \<open>The words that the control word asks for, in their order.\<close>

definition const_words :: "coasm \<Rightarrow> KernelInfo \<Rightarrow> u32 list" where
  "const_words cfg k =
     (let kernel_ctrl = ki_kernel_ctrl k; p = getParamAddr (ki_state k) in
      (if bit kernel_ctrl (KERNEL_CTRL_BIT_PARAM_BASE cfg) then [ucast p, ucast (drop_bit 32 p)] else []) @
      concat (map (\<lambda>(b, v). if bit kernel_ctrl b then [v] else [])
        [(KERNEL_CTRL_BIT_GRID_DIM_X cfg, dx (ki_grid_dim k)), (KERNEL_CTRL_BIT_GRID_DIM_Y cfg, dy (ki_grid_dim k)),
         (KERNEL_CTRL_BIT_GRID_DIM_Z cfg, dz (ki_grid_dim k)), (KERNEL_CTRL_BIT_BLOCK_DIM_X cfg, dx (ki_block_dim k)),
         (KERNEL_CTRL_BIT_BLOCK_DIM_Y cfg, dy (ki_block_dim k)), (KERNEL_CTRL_BIT_BLOCK_DIM_Z cfg, dz (ki_block_dim k))]))"

text \<open>The constants written so far are a prefix of the buffer, the rest is as it was.\<close>

definition prefix_consts :: "KernelState \<Rightarrow> u32 list \<Rightarrow> u32 \<times> KernelState" where
  "prefix_consts ks ws = (of_nat (length ws), ks\<lparr>ks_const_buffer := ws @ drop (length ws) (ks_const_buffer ks)\<rparr>)"

lemma put_const_prefix:
  assumes "length ws < length (ks_const_buffer ks)" "length (ks_const_buffer ks) \<le> 1024"
  shows "put_const used v (prefix_consts ks ws) = Inr (prefix_consts ks (if used then ws @ [v] else ws))"
proof -
  have u: "unat (of_nat (length ws) :: u32) = length ws" using assms by (simp add: unat_of_nat)
  have d: "drop (length ws) b = b ! length ws # drop (Suc (length ws)) b" if "length ws < length b" for b :: "u32 list"
    using that by (simp add: Cons_nth_drop_Suc)
  show ?thesis using assms d[of "ks_const_buffer ks"]
    by (simp add: put_const_def prefix_consts_def setConstReg32_def vec_set_def u del: drop_append) linarith
qed

definition optional_words :: "(bool \<times> u32) list \<Rightarrow> u32 list" where
  "optional_words uvs = concat (map (\<lambda>(used, v). if used then [v] else []) uvs)"

lemma put_consts_prefix:
  "length ws + length uvs \<le> length (ks_const_buffer ks) \<Longrightarrow> length (ks_const_buffer ks) \<le> 1024 \<Longrightarrow>
     foldR (\<lambda>(used, v). put_const used v) uvs (prefix_consts ks ws) = Inr (prefix_consts ks (ws @ optional_words uvs))"
proof (induction uvs arbitrary: ws)
  case (Cons uv uvs)
  then show ?case using put_const_prefix[of ws ks "fst uv" "snd uv"]
    by (cases uv) (simp add: optional_words_def)
qed (simp add: optional_words_def)

lemma launch_consts_prefix:
  assumes "8 \<le> length (ks_const_buffer (ki_state k))" "length (ks_const_buffer (ki_state k)) \<le> 1024"
  shows "launch_consts cfg k = Inr (of_nat (length (const_words cfg k)),
    k\<lparr>ki_state := snd (prefix_consts (ki_state k) (const_words cfg k))\<rparr>)"
proof -
  let ?b = "ks_const_buffer (ki_state k)"
  have two: "b[0 := x, Suc 0 := y] = x # y # drop 2 b" if "8 \<le> length b" for b :: "u32 list" and x y
    using that by (cases b; cases "tl b") auto
  have start: "(if u then bindR (setConstReg64 0 (getParamAddr (ki_state k)) (ki_state k)) (\<lambda>ks. Inr (2, ks)) else Inr (0, ki_state k))
      = Inr (prefix_consts (ki_state k) (if u then [ucast (getParamAddr (ki_state k)), ucast (drop_bit 32 (getParamAddr (ki_state k)))] else []))"
    for u
    using assms(1) two[OF assms(1)] by (auto simp: prefix_consts_def setConstReg64_def store_u64_at_def vec_set_def numeral_2_eq_2)
  let ?ctrl = "ki_kernel_ctrl k"
  let ?l = "[(bit ?ctrl (KERNEL_CTRL_BIT_GRID_DIM_X cfg), dx (ki_grid_dim k)), (bit ?ctrl (KERNEL_CTRL_BIT_GRID_DIM_Y cfg), dy (ki_grid_dim k)),
    (bit ?ctrl (KERNEL_CTRL_BIT_GRID_DIM_Z cfg), dz (ki_grid_dim k)), (bit ?ctrl (KERNEL_CTRL_BIT_BLOCK_DIM_X cfg), dx (ki_block_dim k)),
    (bit ?ctrl (KERNEL_CTRL_BIT_BLOCK_DIM_Y cfg), dy (ki_block_dim k)), (bit ?ctrl (KERNEL_CTRL_BIT_BLOCK_DIM_Z cfg), dz (ki_block_dim k))]"
  have "launch_consts cfg k = bindR (foldR (\<lambda>(used, v). put_const used v) ?l (prefix_consts (ki_state k)
      (if bit ?ctrl (KERNEL_CTRL_BIT_PARAM_BASE cfg) then [ucast (getParamAddr (ki_state k)), ucast (drop_bit 32 (getParamAddr (ki_state k)))] else [])))
      (\<lambda>(n, ks). Inr (n, k\<lparr>ki_state := ks\<rparr>))"
    unfolding launch_consts_def Let_def start by (simp add: bindR_assoc del: bindR_Inr_right)
  also have "\<dots> = Inr (of_nat (length (const_words cfg k)), k\<lparr>ki_state := snd (prefix_consts (ki_state k) (const_words cfg k))\<rparr>)"
  proof (subst put_consts_prefix)
    show "bindR (Inr (prefix_consts (ki_state k) ((if bit ?ctrl (KERNEL_CTRL_BIT_PARAM_BASE cfg) then [ucast (getParamAddr (ki_state k)), ucast (drop_bit 32 (getParamAddr (ki_state k)))] else []) @ optional_words ?l)))
      (\<lambda>(n, ks). Inr (n, k\<lparr>ki_state := ks\<rparr>)) = Inr (of_nat (length (const_words cfg k)), k\<lparr>ki_state := snd (prefix_consts (ki_state k) (const_words cfg k))\<rparr>)"
      by (simp add: prefix_consts_def const_words_def optional_words_def Let_def)
  qed (use assms in auto)
  finally show ?thesis .
qed

lemma vec_set_length: "vec_set xs i x = Inr ys \<Longrightarrow> length ys = length xs"
  by (auto simp: vec_set_def split: if_splits)

lemma new_KernelInfo_consts:
  "new_KernelInfo d raw rs mem = Inr k \<Longrightarrow> length (ks_const_buffer (ki_state k)) = 1024"
  by (auto simp: new_KernelInfo_def Let_def setLocalAddr_def store_u64_at_def res_simps set_inst_base_vaddr_def
      setSRegUsed_def setVRegUsed_def setSharedSize_def setLocalSize_def setProgAddr_def setParamSize_def setParamAddr_def
      new_KernelState_def KernelState_init_def dest!: vec_set_length)

lemma mem_ptr_of_halves: "mem_ptr_of (ucast p) (ucast (drop_bit 32 p)) = p"
  by (rule bit_word_eqI) (auto simp: mem_ptr_of_def bit_simps)

text \<open>
  C13. What the launch puts into the constant registers is what the kernel reads in any of its warps:
  the scalar registers from \<open>MAX_RESERVED_SREG_NUM\<close> on are the parameter address and the dimensions
  that the control word asks for, in their order and without gaps, and the first two form the
  pointer to the parameters.
\<close>

theorem kernel_constants_readable:
  assumes "new_KernelInfo d raw rs mem = Inr k" "launch_consts cfg k = Inr (const_reg_num, k')"
    and "wst_kernel_const_reg_num w = const_reg_num" "unat (MAX_RESERVED_SREG_NUM cfg) + 8 < 2 ^ 32"
    and "i < length (const_words cfg k)"
  defines "w' \<equiv> setConstBuffer (getConstBuffer (ki_state k')) w"
  shows "getSreg cfg (MAX_RESERVED_SREG_NUM cfg + of_nat i) w' = Inr (const_words cfg k ! i) \<and>
    (bit (ki_kernel_ctrl k) (KERNEL_CTRL_BIT_PARAM_BASE cfg) \<longrightarrow>
      getSregMemPtr cfg (MAX_RESERVED_SREG_NUM cfg) w' = Inr (getParamAddr (ki_state k)))"
proof -
  let ?ws = "const_words cfg k" and ?m = "MAX_RESERVED_SREG_NUM cfg"
  note len = new_KernelInfo_consts[OF assms(1)]
  have l: "length ?ws \<le> 8" by (simp add: const_words_def Let_def)
  have n: "const_reg_num = of_nat (length ?ws)" and k': "ks_const_buffer (ki_state k') = ?ws @ drop (length ?ws) (ks_const_buffer (ki_state k))"
    using assms(2) launch_consts_prefix[of k cfg] len by (auto simp: prefix_consts_def)
  have rd: "getSreg cfg (?m + of_nat j) w' = Inr (?ws ! j)" if j: "j < length ?ws" for j
  proof -
    have u: "unat (?m + of_nat j) = unat ?m + j" "unat (const_reg_num + ?m) = unat ?m + length ?ws" "unat (of_nat j :: u32) = j"
      using j l assms(4) by (simp_all add: n unat_word_ariths unat_of_nat)
    then show ?thesis using j len l
      by (simp add: w'_def setConstBuffer_def getConstBuffer_def getSreg_def getConst_def assms(3) word_less_nat_alt vec_get_def k' nth_append)
  qed
  have "getSregMemPtr cfg ?m w' = Inr (getParamAddr (ki_state k))"
    if "bit (ki_kernel_ctrl k) (KERNEL_CTRL_BIT_PARAM_BASE cfg)"
  proof -
    have "?ws = ucast (getParamAddr (ki_state k)) # ucast (drop_bit 32 (getParamAddr (ki_state k))) # drop 2 ?ws"
      using that by (simp add: const_words_def Let_def)
    then have "0 < length ?ws" "1 < length ?ws" "?ws ! 0 = ucast (getParamAddr (ki_state k))" "?ws ! 1 = ucast (drop_bit 32 (getParamAddr (ki_state k)))"
      by (metis length_greater_0_conv list.distinct(1), metis length_Cons One_nat_def Suc_less_eq zero_less_Suc, metis nth_Cons_0, metis One_nat_def nth_Cons_0 nth_Cons_Suc)
    then show ?thesis using rd[of 0] rd[of 1] by (simp add: getSregMemPtr_def mem_ptr_of_halves)
  qed
  then show ?thesis using rd assms(5) by blast
qed

text \<open>A kernel that asks for its parameters and for the x and z dimensions of its grid.\<close>

definition const_dispatch :: DispatchInfo where
  "const_dispatch = \<lparr>di_grid_dim = mk_dim3 2 1 2, di_block_dim = mk_dim3 32 1 1, di_kernel_param_addr = 0x900000010,
     di_kernel_param_size = 8, di_kernel_prog_addr = 0, di_private_mem_addr = 0, di_private_memsize = 0,
     di_shared_memsize = 0, di_vreg_used = 8, di_sreg_used = 8, di_kernel_ctrl = 0xB, di_bar_used = 0\<rparr>"

definition const_kernel :: KernelInfo where
  "const_kernel = (case new_KernelInfo const_dispatch sample_kernel sample_state (\<lambda>_. 0) of Inr k \<Rightarrow> k)"

lemma const_kernel_new: "new_KernelInfo const_dispatch sample_kernel sample_state (\<lambda>_. 0) = Inr const_kernel"
proof -
  have "\<exists>k. new_KernelInfo const_dispatch sample_kernel sample_state (\<lambda>_. 0) = Inr k"
    by (simp add: new_KernelInfo_def Let_def setLocalAddr_def store_u64_at_def vec_set_def setProgAddr_def
        setParamSize_def setParamAddr_def new_KernelState_def KernelState_init_def)
  then show ?thesis by (auto simp: const_kernel_def)
qed

lemma new_KernelInfo_fields:
  "new_KernelInfo d raw rs mem = Inr k \<Longrightarrow> ki_kernel_ctrl k = di_kernel_ctrl d \<and> ki_grid_dim k = di_grid_dim d \<and>
     ki_block_dim k = di_block_dim d \<and> getParamAddr (ki_state k) = di_kernel_param_addr d \<and>
     ki_next_cta k = mk_dim3 0 0 0 \<and> ki_bar_used k = di_bar_used d"
  by (auto simp: new_KernelInfo_def Let_def setLocalAddr_def res_simps setProgAddr_def set_inst_base_vaddr_def
      setSRegUsed_def setVRegUsed_def setSharedSize_def setLocalSize_def
      setParamSize_def setParamAddr_def new_KernelState_def KernelState_init_def getParamAddr_def)

lemma const_kernel_fields:
  "ki_kernel_ctrl const_kernel = 0xB" "ki_grid_dim const_kernel = mk_dim3 2 1 2" "ki_block_dim const_kernel = mk_dim3 32 1 1"
  "getParamAddr (ki_state const_kernel) = 0x900000010" "ki_next_cta const_kernel = mk_dim3 0 0 0" "ki_bar_used const_kernel = 0"
  using new_KernelInfo_fields[OF const_kernel_new] by (simp_all add: const_dispatch_def)

theorem kernel_constants_readable_witness:
  "\<exists>k'. launch_consts sample_cfg const_kernel = Inr (4, k') \<and>
     getSreg sample_cfg 67 (setConstBuffer (getConstBuffer (ki_state k')) sample_warp) = Inr 2 \<and>
     getSregMemPtr sample_cfg 64 (setConstBuffer (getConstBuffer (ki_state k')) sample_warp) = Inr 0x900000010"
proof -
  have b: "bit (0xB :: u32) 0" "bit (0xB :: u32) 1" "\<not> bit (0xB :: u32) 2" "bit (0xB :: u32) 3"
    "\<not> bit (0xB :: u32) 4" "\<not> bit (0xB :: u32) 5" "\<not> bit (0xB :: u32) 6"
    by (simp_all add: bit_numeral_rec(2))
  have ws: "const_words sample_cfg const_kernel = [0x10, 0x9, 2, 2]"
    unfolding const_words_def const_kernel_fields sample_cfg_def by (simp add: b Let_def)
  obtain k' where k': "launch_consts sample_cfg const_kernel = Inr (4, k')"
    using launch_consts_prefix[of const_kernel sample_cfg] new_KernelInfo_consts[OF const_kernel_new] by (simp add: ws)
  have c: "wst_kernel_const_reg_num sample_warp = 4" "MAX_RESERVED_SREG_NUM sample_cfg = 64"
    "KERNEL_CTRL_BIT_PARAM_BASE sample_cfg = 0" by (simp_all add: sample_warp_def sample_cfg_def)
  from kernel_constants_readable[OF const_kernel_new k' c(1), of 3] show ?thesis
    using k' by (simp add: ws b c const_kernel_fields)
qed

section \<open>Making the blocks and executing them\<close>

text \<open>
  \<open>allocRunningBlock\<close> has no return statement: \<open>ret\<close> is what its caller finds. There is no result while it
  waits.
\<close>

definition GetBlockState :: "bool \<Rightarrow> u32 \<Rightarrow> BlockState \<Rightarrow> CUResource \<Rightarrow> (BlockState \<times> CUResource) res option" where
  "GetBlockState ret bar_count raw r = (case allocRunningBlock bar_count r of
     None \<Rightarrow> None
   | Some r \<Rightarrow> Some (assertR ret (bindR (new_BlockState bar_count raw) (\<lambda>b. Inr (b, r)))))"

text \<open>
  The launch as the launching thread and the workers see it. A task is a block and its number in the
  grid. \<open>la_finished\<close> is whether the kernel has been registered as finished.
\<close>

type_synonym 'ms block_task = "'ms ThreadBlock \<times> u32"

record 'ms Launch =
  la_kernel :: KernelInfo
  la_pool :: "'ms block_task ThreadPool"
  la_cu :: CUResource
  la_cta_uid :: u64
  la_cta_launched :: u32
  la_finished :: bool

text \<open>What the launch is given: the options of the checkpoints, the size of a warp, what uninitialised
  storage holds and the memory that the blocks share.\<close>

record 'ms launch_env =
  le_cp_op :: u32
  le_cp_kernel :: u32
  le_cp_cta_resume :: u32
  le_warp_size :: u32
  le_const_reg_num :: u32
  le_ret :: bool
  le_raw_state :: BlockState
  le_junk :: "nat \<Rightarrow> u32"
  le_mem :: "'ms block_mem"

definition to_launch :: "'ms launch_env \<Rightarrow> 'ms Launch \<Rightarrow> bool" where
  "to_launch e s \<longleftrightarrow> le_cp_op e = 0 \<or>
     (le_cp_op e = 1 \<and> la_cta_launched s <s le_cp_cta_resume e \<and> ki_uid (la_kernel s) = le_cp_kernel e) \<or>
     ki_uid (la_kernel s) < le_cp_kernel e"

text \<open>A round of the launch loop that makes a block and adds its task; no result while it waits.\<close>

definition launch_block :: "'ms launch_env \<Rightarrow> 'ms Launch \<Rightarrow> 'ms Launch res option" where
  "launch_block e s =
     (let k = la_kernel s; global_ctaid = get_next_cta_id_single k; cta_id = ki_next_cta k in
      case GetBlockState (le_ret e) (ki_bar_used k) (le_raw_state e) (la_cu s) of
        None \<Rightarrow> None
      | Some r \<Rightarrow> Some (bindR r (\<lambda>(block_state, cu).
          failR (le_warp_size e = 0) Division_By_Zero
         (let block_state = BlockState_init (la_cta_uid s) cta_id (ucast (threads_per_cta k div ucast (le_warp_size e))) block_state
          in bindR (new_ThreadBlock k block_state (le_warp_size e) (ucast (threads_per_cta k)) (le_const_reg_num e) (le_junk e) (le_mem e))
            (\<lambda>cta. Inr (s\<lparr>la_cu := cu, la_cta_uid := la_cta_uid s + 1, la_pool := addTask (cta, global_ctaid) (la_pool s)\<rparr>))))))"

text \<open>
  A step of the launching thread: a round of its loop, after the loop the registration of the
  kernel as finished, and last the destructor of the pool.
\<close>

definition launch_step :: "'ms launch_env \<Rightarrow> 'ms Launch \<Rightarrow> 'ms Launch res option" where
  "launch_step e s =
     (if \<not> no_more_ctas_to_run (la_kernel s) then
        (case (if to_launch e s then launch_block e s else Some (Inr s)) of
           None \<Rightarrow> None
         | Some r \<Rightarrow> Some (bindR r (\<lambda>s.
             Inr (s\<lparr>la_kernel := increment_cta_id (la_kernel s), la_cta_launched := la_cta_launched s + 1\<rparr>))))
      else if \<not> la_finished s then Some (Inr (s\<lparr>la_finished := True\<rparr>))
      else if \<not> tp_stop (la_pool s) then Some (Inr (s\<lparr>la_pool := stop_pool (la_pool s)\<rparr>))
      else None)"

text \<open>\<open>ThreadBlock::execute\<close> always reports that the block is finished, so a task never adds itself again.\<close>

definition BlockTask :: "'ms block_task \<Rightarrow> CUResource \<Rightarrow> CUResource" where
  "BlockTask t cu = destroy (tb_block_state (fst t)) cu"

definition execute_task :: "nat \<Rightarrow> 'ms Launch \<Rightarrow> 'ms Launch option" where
  "execute_task i s = (case worker_step i (la_pool s) of
     None \<Rightarrow> None
   | Some p \<Rightarrow> Some (s\<lparr>la_pool := p, la_cu := (case tp_workers (la_pool s) ! i of
       Running t \<Rightarrow> BlockTask t (la_cu s) | _ \<Rightarrow> la_cu s)\<rparr>))"

text \<open>The start of the loop: the pool has a worker per block, but no more than twice the processors.\<close>

definition new_launch :: "u32 \<Rightarrow> u64 \<Rightarrow> CUResource \<Rightarrow> KernelInfo \<Rightarrow> 'ms Launch" where
  "new_launch cpu_count uid cu k = \<lparr>la_kernel = k, la_pool = new_ThreadPool cpu_count (ucast (num_blocks k)), la_cu = cu,
     la_cta_uid = uid, la_cta_launched = 0, la_finished = False\<rparr>"

text \<open>
  The runs of a launch, with the number of steps of the launching thread and of the workers. A block in
  execution takes its thread indices from the kernel, at any time.
\<close>

inductive launch_run :: "'ms launch_env \<Rightarrow> 'ms Launch \<Rightarrow> nat \<Rightarrow> 'ms Launch \<Rightarrow> bool" for e s0 where
  start: "launch_run e s0 0 s0"
| launching: "launch_run e s0 n s \<Longrightarrow> launch_step e s = Some (Inr s') \<Longrightarrow> launch_run e s0 (Suc n) s'"
| executing: "launch_run e s0 n s \<Longrightarrow> i < length (tp_workers (la_pool s)) \<Longrightarrow> execute_task i s = Some s' \<Longrightarrow>
    launch_run e s0 (Suc n) s'"
| threads: "launch_run e s0 n s \<Longrightarrow> i < length (tp_workers (la_pool s)) \<Longrightarrow> tp_workers (la_pool s) ! i = Running t \<Longrightarrow>
    launch_run e s0 n (s\<lparr>la_kernel := increment_thread_id (la_kernel s)\<rparr>)"

end
