(* ===== verification/Launch_Theorems.thy ===== *)
theory Launch_Theorems
  imports Executor
begin

text \<open>
  What the launch of a kernel guarantees in every interleaving of the launching thread and the
  workers: it ends, and at its end each block of the grid has been executed exactly once.
\<close>

section \<open>Blocks can be made\<close>

text \<open>The sizes that the code computes without wrapping around.\<close>

definition block_fits :: "'ms launch_env \<Rightarrow> KernelInfo \<Rightarrow> bool" where
  "block_fits e k \<longleftrightarrow> 0 < le_warp_size e \<and> (ucast (threads_per_cta k) :: u32) \<noteq> 0 \<and>
     unat (ucast (threads_per_cta k) :: u32) + unat (le_warp_size e) < 2 ^ 32"

lemma warps_cover:
  fixes n ws :: u32
  assumes "0 < ws" "n \<noteq> 0" "unat n + unat ws < 2 ^ 32"
  shows "(n div ws + (if n mod ws \<noteq> 0 then 1 else 0)) * ws \<noteq> 0"
proof -
  let ?q = "unat n div unat ws" and ?r = "unat n mod unat ws"
  have ws: "0 < unat ws" "0 < unat n" using assms(1,2) by (auto simp: word_less_nat_alt unat_gt_0)
  have qr: "?q * unat ws + ?r = unat n" "?r < unat ws" using ws by simp_all
  have r: "n mod ws \<noteq> 0 \<longleftrightarrow> ?r \<noteq> 0" by (simp add: unat_mod[symmetric] unat_eq_zero)
  let ?w = "?q + (if ?r \<noteq> 0 then 1 else 0)"
  have "?w * unat ws \<le> ?q * unat ws + unat ws" by (simp add: algebra_simps)
  then have lt: "?w * unat ws < 2 ^ 32" using qr(1) assms(3) by linarith
  have "unat n \<le> ?w * unat ws"
  proof (cases "?r = 0")
    case True
    then show ?thesis using qr by simp
  next
    case False
    then have "?w * unat ws = ?q * unat ws + unat ws" by simp
    then show ?thesis using qr by linarith
  qed
  then have bound: "?w * unat ws < 2 ^ 32" "0 < ?w * unat ws" using ws(2) lt by linarith+
  have "n div ws + (if n mod ws \<noteq> 0 then 1 else 0) = (of_nat ?w :: u32)"
    unfolding r by (simp add: unat_div[symmetric])
  then have "(n div ws + (if n mod ws \<noteq> 0 then 1 else 0)) * ws = of_nat (?w * unat ws)" by simp
  moreover have "unat (of_nat m :: u32) = m" if "m < 2 ^ 32" for m using that by (simp add: unat_of_nat)
  then have "(of_nat (?w * unat ws) :: u32) \<noteq> 0" using bound by (metis less_numeral_extra(3) unat_0)
  ultimately show ?thesis by simp
qed

lemma new_ThreadBlock_makes:
  assumes "block_fits e k"
  shows "\<exists>tb. new_ThreadBlock k b (le_warp_size e) (ucast (threads_per_cta k)) c junk mem = Inr tb \<and> tb_block_state tb = b"
proof -
  have ws: "0 < le_warp_size e" "le_warp_size e \<noteq> 0" using assms by (auto simp: block_fits_def)
  have "0 < (ucast (threads_per_cta k) div le_warp_size e + (if ucast (threads_per_cta k) mod le_warp_size e \<noteq> 0 then 1 else 0)) *
      le_warp_size e"
    using warps_cover[OF ws(1)] assms by (simp add: block_fits_def word_gt_0)
  then show ?thesis using ws(2) by (simp add: new_ThreadBlock_def Let_def initilizeSIMTStack_def split del: if_split)
qed

lemma block_fits_cong:
  "ki_block_dim k' = ki_block_dim k \<Longrightarrow> block_fits e k' = block_fits e k"
  by (simp add: block_fits_def threads_per_cta_def)

section \<open>The invariant of a launch\<close>

text \<open>The block that a task executes: its index and its number.\<close>

definition task_block :: "'ms block_task \<Rightarrow> dim3 \<times> u32" where
  "task_block t = (bs_cta_id (tb_block_state (fst t)), snd t)"

definition blocks_before :: "nat \<Rightarrow> dim3 \<Rightarrow> dim3 set" where
  "blocks_before n g = {i. in_grid i g \<and> grid_pos i g < n}"

definition with_number :: "dim3 \<Rightarrow> dim3 \<Rightarrow> dim3 \<times> u32" where
  "with_number g i = (i, single_id i g)"

lemma finite_blocks: "finite (blocks_before n g)"
proof -
  have "inj_on (\<lambda>i. grid_pos i g) (blocks_before n g)"
    by (auto simp: inj_on_def blocks_before_def intro: grid_pos_inj)
  moreover have "(\<lambda>i. grid_pos i g) ` blocks_before n g \<subseteq> {..<n}" by (auto simp: blocks_before_def)
  ultimately show ?thesis by (meson finite_imageD finite_lessThan finite_subset)
qed

lemma blocks_before_Suc:
  assumes "in_grid i g"
  shows "blocks_before (Suc (grid_pos i g)) g = insert i (blocks_before (grid_pos i g) g)"
    "i \<notin> blocks_before (grid_pos i g) g"
  using assms grid_pos_inj[OF _ assms] by (auto simp: blocks_before_def less_Suc_eq)

lemma blocks_before_all: "grid_size g \<le> n \<Longrightarrow> blocks_before n g = {i. in_grid i g}"
  using grid_pos_less by (fastforce simp: blocks_before_def)

text \<open>The tasks that are waiting or being executed.\<close>

definition open_tasks :: "'ms Launch \<Rightarrow> 'ms block_task multiset" where
  "open_tasks s = mset (tp_pending_tasks (la_pool s)) + running_tasks (tp_workers (la_pool s))"

text \<open>
  \<open>k0\<close> and \<open>cu0\<close> are the kernel and the compute unit at the start, where no block is running.
\<close>

definition launch_ok :: "'ms launch_env \<Rightarrow> KernelInfo \<Rightarrow> CUResource \<Rightarrow> bool" where
  "launch_ok e k0 cu0 \<longleftrightarrow> le_cp_op e = 0 \<and> le_ret e \<and> block_fits e k0 \<and>
     ki_next_cta k0 = mk_dim3 0 0 0 \<and> 0 < dx (ki_grid_dim k0) \<and> 0 < dy (ki_grid_dim k0) \<and>
     grid_size (ki_grid_dim k0) < 2 ^ 32 \<and> cu_running_block_count cu0 = 0 \<and> 0 < cu_max_cta_per_cu cu0 \<and>
     ki_bar_used k0 < cu_free_bar_slots cu0 \<and>
     unat (cu_free_bar_slots cu0) + grid_size (ki_grid_dim k0) * unat (ki_bar_used k0) < 2 ^ 32"

definition kernel_same :: "KernelInfo \<Rightarrow> KernelInfo \<Rightarrow> bool" where
  "kernel_same k0 k \<longleftrightarrow> ki_grid_dim k = ki_grid_dim k0 \<and> ki_block_dim k = ki_block_dim k0 \<and>
     ki_bar_used k = ki_bar_used k0 \<and> grid_ok (ki_next_cta k) (ki_grid_dim k0)"

definition tasks_ok :: "KernelInfo \<Rightarrow> 'ms Launch \<Rightarrow> bool" where
  "tasks_ok k0 s \<longleftrightarrow>
     image_mset task_block (tp_added (la_pool s)) = image_mset (with_number (ki_grid_dim k0))
       (mset_set (blocks_before (grid_pos (ki_next_cta (la_kernel s)) (ki_grid_dim k0)) (ki_grid_dim k0))) \<and>
     (\<forall>t \<in># tp_added (la_pool s). bs_bar_count (tb_block_state (fst t)) = ki_bar_used k0)"

definition cu_ok :: "KernelInfo \<Rightarrow> CUResource \<Rightarrow> 'ms Launch \<Rightarrow> bool" where
  "cu_ok k0 cu0 s \<longleftrightarrow> cu_max_cta_per_cu (la_cu s) = cu_max_cta_per_cu cu0 \<and>
     unat (cu_running_block_count (la_cu s)) = size (open_tasks s) \<and>
     cu_free_bar_slots (la_cu s) = cu_free_bar_slots cu0 + of_nat (size (tp_executed (la_pool s))) * ki_bar_used k0"

definition launching_inv :: "u32 \<Rightarrow> KernelInfo \<Rightarrow> CUResource \<Rightarrow> 'ms Launch \<Rightarrow> bool" where
  "launching_inv cpus k0 cu0 s \<longleftrightarrow> pool_reach cpus (ucast (num_blocks k0)) (la_pool s) \<and> kernel_same k0 (la_kernel s) \<and>
     tasks_ok k0 s \<and> cu_ok k0 cu0 s \<and>
     (tp_stop (la_pool s) \<longrightarrow> la_finished s) \<and> (la_finished s \<longrightarrow> no_more_ctas_to_run (la_kernel s))"

lemma worker_step_tasks:
  assumes "worker_step i p = Some p'" "i < length (tp_workers p)"
  defines "here \<equiv> \<lambda>p. mset (tp_pending_tasks p) + running_tasks (tp_workers p)"
  shows "tp_added p' = tp_added p" "tp_stop p' = tp_stop p"
    "tp_workers p ! i = Running t \<Longrightarrow> here p = add_mset t (here p') \<and> tp_executed p' = add_mset t (tp_executed p)"
    "(\<And>t. tp_workers p ! i \<noteq> Running t) \<Longrightarrow> here p' = here p \<and> tp_executed p' = tp_executed p"
proof -
  note u = running_tasks_update[OF assms(2)]
  show "tp_added p' = tp_added p" "tp_stop p' = tp_stop p"
    using assms(1) by (auto simp: worker_step_def split: worker.splits list.splits if_splits)
  show "here p = add_mset t (here p') \<and> tp_executed p' = add_mset t (tp_executed p)" if "tp_workers p ! i = Running t"
    using that assms(1) u[of Checking] by (auto simp: worker_step_def here_def)
  show "here p' = here p \<and> tp_executed p' = tp_executed p" if "\<And>t. tp_workers p ! i \<noteq> Running t"
  proof (cases "tp_workers p ! i")
    case Checking
    then show ?thesis using assms(1) u[of Waiting] u[of Exited] by (auto simp: worker_step_def here_def split: if_splits)
  next
    case Waiting
    then show ?thesis using assms(1) u[of Checking] u[of "Running (hd (tp_pending_tasks p))"]
      by (auto simp: worker_step_def here_def split: list.splits if_splits)
  qed (use that assms(1) in \<open>auto simp: worker_step_def\<close>)
qed

lemma execute_task_inv:
  assumes inv: "launching_inv cpus k0 cu0 s" and i: "i < length (tp_workers (la_pool s))" and st: "execute_task i s = Some s'"
  shows "launching_inv cpus k0 cu0 s'"
proof -
  obtain p where p: "worker_step i (la_pool s) = Some p"
    and s': "s' = s\<lparr>la_pool := p, la_cu := (case tp_workers (la_pool s) ! i of Running t \<Rightarrow> BlockTask t (la_cu s) | _ \<Rightarrow> la_cu s)\<rparr>"
    using st by (auto simp: execute_task_def split: option.splits)
  note w = worker_step_tasks[OF p i]
  have reach: "pool_reach cpus (ucast (num_blocks k0)) p"
    using inv i p by (auto simp: launching_inv_def intro: pool_reach.work)
  have "cu_ok k0 cu0 s'"
  proof (cases "\<exists>t. tp_workers (la_pool s) ! i = Running t")
    case True
    then obtain t where t: "tp_workers (la_pool s) ! i = Running t" by blast
    have "pool_inv (la_pool s)" using inv pool_reach_inv by (auto simp: launching_inv_def)
    moreover have "t \<in># mset (tp_pending_tasks (la_pool s)) + running_tasks (tp_workers (la_pool s))"
      using w(3)[OF t] by simp
    ultimately have "t \<in># tp_added (la_pool s)" by (auto simp: pool_inv_def)
    then have b: "bs_bar_count (tb_block_state (fst t)) = ki_bar_used k0" using inv by (auto simp: launching_inv_def tasks_ok_def)
    have "unat (cu_running_block_count (la_cu s)) = Suc (size (open_tasks s'))"
      using inv w(3)[OF t] by (simp add: launching_inv_def cu_ok_def open_tasks_def s')
    then have "unat (cu_running_block_count (la_cu s) - 1) = size (open_tasks s')"
      by (simp add: unat_minus_one unat_eq_zero[symmetric])
    then show ?thesis using inv w(3)[OF t]
      by (simp add: launching_inv_def cu_ok_def s' t b BlockTask_def destroy_def freeRunningBlock_def freeBarSlot_def algebra_simps)
  next
    case False
    then have "la_cu s' = la_cu s" by (cases "tp_workers (la_pool s) ! i") (auto simp: s')
    moreover have "open_tasks s' = open_tasks s" "tp_executed (la_pool s') = tp_executed (la_pool s)"
      using w(4) False by (auto simp: open_tasks_def s')
    ultimately show ?thesis using inv by (simp add: launching_inv_def cu_ok_def)
  qed
  then show ?thesis using inv reach w(1,2) by (simp add: launching_inv_def tasks_ok_def s')
qed

lemma start_inv:
  assumes "launch_ok e k0 cu0"
  shows "launching_inv cpus k0 cu0 (new_launch cpus uid cu0 k0)"
proof -
  have r: "running_tasks (replicate n Checking) = {#}" for n by (rule running_tasks_none) auto
  have "blocks_before 0 g = {}" for g by (simp add: blocks_before_def)
  then show ?thesis using assms pool_reach.start
    by (auto simp: launching_inv_def launch_ok_def kernel_same_def tasks_ok_def cu_ok_def open_tasks_def new_launch_def
        new_ThreadPool_def r grid_ok_0)
qed

section \<open>The steps of the launching thread\<close>

lemma in_grid_next: "\<not> no_more_ctas_to_run k \<longleftrightarrow> in_grid (ki_next_cta k) (ki_grid_dim k)"
  by (auto simp: no_more_ctas_to_run_def in_grid_def)

lemma added_count:
  assumes "launching_inv cpus k0 cu0 s"
  shows "size (tp_added (la_pool s)) \<le> grid_size (ki_grid_dim k0)"
    "size (tp_added (la_pool s)) = size (open_tasks s) + size (tp_executed (la_pool s))"
proof -
  let ?g = "ki_grid_dim k0"
  let ?b = "blocks_before (grid_pos (ki_next_cta (la_kernel s)) ?g) ?g"
  have "size (tp_added (la_pool s)) = size (image_mset task_block (tp_added (la_pool s)))" by simp
  also have "\<dots> = card ?b" using assms by (simp add: launching_inv_def tasks_ok_def)
  also have "card ?b \<le> card {..<grid_size ?g}"
    by (rule card_inj_on_le[of "\<lambda>i. grid_pos i ?g"]) (auto simp: inj_on_def blocks_before_def intro: grid_pos_inj grid_pos_less)
  finally show "size (tp_added (la_pool s)) \<le> grid_size ?g" by simp
  have "pool_inv (la_pool s)" using assms pool_reach_inv by (auto simp: launching_inv_def)
  then show "size (tp_added (la_pool s)) = size (open_tasks s) + size (tp_executed (la_pool s))"
    by (simp add: pool_inv_def open_tasks_def)
qed

text \<open>While the launch loop runs, a block is made unless as many blocks are running as the compute unit takes.\<close>

lemma bar_slots_left:
  assumes "launch_ok e k0 cu0" "launching_inv cpus k0 cu0 s"
  shows "ki_bar_used (la_kernel s) < cu_free_bar_slots (la_cu s)"
proof -
  let ?n = "size (tp_executed (la_pool s))" and ?B = "ki_bar_used k0"
  have n: "?n \<le> grid_size (ki_grid_dim k0)" using added_count[OF assms(2)] by simp
  have "unat (cu_free_bar_slots cu0) + ?n * unat ?B < 2 ^ 32"
    using assms(1) mult_le_mono1[OF n, of "unat ?B"] unfolding launch_ok_def by linarith
  moreover have "cu_free_bar_slots (la_cu s) = of_nat (unat (cu_free_bar_slots cu0) + ?n * unat ?B)"
    using assms(2) by (simp add: launching_inv_def cu_ok_def)
  ultimately have "unat (cu_free_bar_slots (la_cu s)) = unat (cu_free_bar_slots cu0) + ?n * unat ?B"
    by (simp only: unat_of_nat) simp
  then show ?thesis using assms by (simp add: launch_ok_def launching_inv_def kernel_same_def word_less_nat_alt)
qed

lemma launch_block_result:
  assumes ok: "launch_ok e k0 cu0" and inv: "launching_inv cpus k0 cu0 s" and more: "\<not> no_more_ctas_to_run (la_kernel s)"
  shows "launch_block e s = None \<and> cu_max_cta_per_cu cu0 \<le> cu_running_block_count (la_cu s) \<or>
    (\<exists>t. launch_block e s = Some (Inr (s\<lparr>la_cu := (la_cu s)\<lparr>cu_running_block_count := cu_running_block_count (la_cu s) + 1\<rparr>,
        la_cta_uid := la_cta_uid s + 1, la_pool := addTask t (la_pool s)\<rparr>)) \<and>
      cu_running_block_count (la_cu s) < cu_max_cta_per_cu cu0 \<and> bs_bar_count (tb_block_state (fst t)) = ki_bar_used k0 \<and>
      task_block t = with_number (ki_grid_dim k0) (ki_next_cta (la_kernel s)))"
proof (cases "cu_running_block_count (la_cu s) < cu_max_cta_per_cu cu0")
  case False
  then show ?thesis using inv
    by (auto simp: launch_block_def GetBlockState_def allocRunningBlock_def alloc_ready_def launching_inv_def cu_ok_def Let_def)
next
  case True
  let ?k = "la_kernel s"
  let ?cu = "(la_cu s)\<lparr>cu_running_block_count := cu_running_block_count (la_cu s) + 1\<rparr>"
  obtain b where b: "new_BlockState (ki_bar_used ?k) (le_raw_state e) = Inr b" "bs_bar_count b = ki_bar_used ?k"
    using new_BlockState_wf by blast
  have get: "GetBlockState (le_ret e) (ki_bar_used ?k) (le_raw_state e) (la_cu s) = Some (Inr (b, ?cu))"
    using True ok inv bar_slots_left[OF ok inv] b
    by (simp add: GetBlockState_def allocRunningBlock_def alloc_ready_def launch_ok_def launching_inv_def cu_ok_def)
  let ?bs = "BlockState_init (la_cta_uid s) (ki_next_cta ?k) (ucast (threads_per_cta ?k div ucast (le_warp_size e))) b"
  have "block_fits e ?k" using ok inv block_fits_cong by (auto simp: launch_ok_def launching_inv_def kernel_same_def)
  from new_ThreadBlock_makes[OF this, of ?bs "le_const_reg_num e" "le_junk e" "le_mem e"] obtain tb where
    tb: "new_ThreadBlock ?k ?bs (le_warp_size e) (ucast (threads_per_cta ?k)) (le_const_reg_num e) (le_junk e) (le_mem e) = Inr tb"
      "tb_block_state tb = ?bs" by blast
  have "le_warp_size e \<noteq> 0" using ok by (auto simp: launch_ok_def block_fits_def)
  then have "launch_block e s = Some (Inr (s\<lparr>la_cu := ?cu, la_cta_uid := la_cta_uid s + 1,
      la_pool := addTask (tb, get_next_cta_id_single ?k) (la_pool s)\<rparr>))"
    unfolding launch_block_def Let_def get by (simp add: tb(1))
  moreover have "task_block (tb, get_next_cta_id_single ?k) = with_number (ki_grid_dim k0) (ki_next_cta ?k)"
    using inv by (simp add: task_block_def with_number_def tb(2) BlockState_init_def get_next_cta_id_single_def launching_inv_def kernel_same_def)
  moreover have "bs_bar_count (tb_block_state tb) = ki_bar_used k0"
    using inv by (simp add: tb(2) BlockState_init_def b(2) launching_inv_def kernel_same_def)
  ultimately show ?thesis using True by (intro disjI2 exI[of _ "(tb, get_next_cta_id_single ?k)"]) simp
qed

lemma launch_step_loop:
  assumes "launch_ok e k0 cu0" "\<not> no_more_ctas_to_run (la_kernel s)"
  shows "launch_step e s = (case launch_block e s of None \<Rightarrow> None
    | Some r \<Rightarrow> Some (bindR r (\<lambda>s. Inr (s\<lparr>la_kernel := increment_cta_id (la_kernel s), la_cta_launched := la_cta_launched s + 1\<rparr>))))"
  using assms by (simp add: launch_step_def launch_ok_def to_launch_def)

lemma launch_step_inv:
  assumes ok: "launch_ok e k0 cu0" and inv: "launching_inv cpus k0 cu0 s" and st: "launch_step e s = Some (Inr s')"
  shows "launching_inv cpus k0 cu0 s'"
proof (cases "no_more_ctas_to_run (la_kernel s)")
  case True
  then show ?thesis using inv st pool_reach.stop
    by (auto simp: launch_step_def launching_inv_def tasks_ok_def cu_ok_def open_tasks_def stop_pool_def split: if_splits)
next
  case False
  let ?g = "ki_grid_dim k0" and ?k = "la_kernel s"
  from launch_block_result[OF ok inv False] launch_step_loop[OF ok False] st obtain t where
    s': "s' = s\<lparr>la_cu := (la_cu s)\<lparr>cu_running_block_count := cu_running_block_count (la_cu s) + 1\<rparr>,
        la_cta_uid := la_cta_uid s + 1, la_pool := addTask t (la_pool s),
        la_kernel := increment_cta_id ?k, la_cta_launched := la_cta_launched s + 1\<rparr>"
    and run: "cu_running_block_count (la_cu s) < cu_max_cta_per_cu cu0"
    and t: "bs_bar_count (tb_block_state (fst t)) = ki_bar_used k0" "task_block t = with_number ?g (ki_next_cta ?k)"
    by auto
  have g: "ki_grid_dim ?k = ?g" using inv by (simp add: launching_inv_def kernel_same_def)
  have in_g: "in_grid (ki_next_cta ?k) ?g" using False in_grid_next by (simp add: g)
  note gs = grid_step[OF in_g]
  have nostop: "\<not> tp_stop (la_pool s)" "\<not> la_finished s" using inv False by (auto simp: launching_inv_def)
  then have "pool_reach cpus (ucast (num_blocks k0)) (la_pool s')"
    using inv by (simp add: s' launching_inv_def pool_reach.owner_add)
  moreover have "kernel_same k0 (la_kernel s')"
    using inv gs by (simp add: s' launching_inv_def kernel_same_def increment_cta_id_def g)
  moreover have "tasks_ok k0 s'"
    using inv t gs blocks_before_Suc[OF in_g] finite_blocks
    by (simp add: s' launching_inv_def tasks_ok_def addTask_def increment_cta_id_def g)
  moreover have "cu_ok k0 cu0 s'"
    using inv unat_inc[OF run] by (simp add: s' launching_inv_def cu_ok_def open_tasks_def addTask_def)
  ultimately show ?thesis using nostop by (simp add: launching_inv_def s' addTask_def)
qed

section \<open>The measure of a launch\<close>

definition launch_rank :: "'ms Launch \<Rightarrow> nat" where
  "launch_rank s =
     4 * (grid_size (ki_grid_dim (la_kernel s)) - grid_pos (ki_next_cta (la_kernel s)) (ki_grid_dim (la_kernel s))) +
     (if la_finished s then 0 else 1) +
     (if tp_stop (la_pool s) then pool_rank (la_pool s)
      else 1 + 3 * length (tp_pending_tasks (la_pool s)) + sum_list (map (worker_rank True) (tp_workers (la_pool s))))"

lemma worker_step_open_rank:
  assumes "\<not> tp_stop p" "i < length (tp_workers p)" "worker_step i p = Some p'" "Exited \<notin> set (tp_workers p)"
  shows "3 * length (tp_pending_tasks p') + sum_list (map (worker_rank True) (tp_workers p'))
    < 3 * length (tp_pending_tasks p) + sum_list (map (worker_rank True) (tp_workers p))"
proof (cases "tp_workers p ! i")
  case Checking
  then show ?thesis using assms ranks_update[OF assms(2), of True Waiting 0] by (auto simp: worker_step_def)
next
  case Waiting
  then obtain t ts where "tp_pending_tasks p = t # ts"
    using assms by (auto simp: worker_step_def split: list.splits)
  then show ?thesis using assms Waiting ranks_update[OF assms(2), of True "Running t" 3] by (auto simp: worker_step_def)
next
  case (Running t)
  then show ?thesis using assms ranks_update[OF assms(2), of True Checking 0] by (auto simp: worker_step_def)
next
  case Exited
  then show ?thesis using assms by (simp add: worker_step_def)
qed

lemma execute_task_rank:
  assumes inv: "launching_inv cpus k0 cu0 s" and i: "i < length (tp_workers (la_pool s))" and st: "execute_task i s = Some s'"
  shows "launch_rank s' < launch_rank s"
proof -
  obtain p where p: "worker_step i (la_pool s) = Some p" and s': "la_pool s' = p" "la_kernel s' = la_kernel s" "la_finished s' = la_finished s"
    using st by (auto simp: execute_task_def split: option.splits)
  have "pool_inv (la_pool s)" using inv pool_reach_inv by (auto simp: launching_inv_def)
  then have "\<not> tp_stop (la_pool s) \<Longrightarrow> Exited \<notin> set (tp_workers (la_pool s))" by (auto simp: pool_inv_def)
  then show ?thesis
    using worker_step_rank[OF _ i p] worker_step_open_rank[OF _ i p] worker_step_tasks(2)[OF p i]
    by (cases "tp_stop (la_pool s)") (auto simp: launch_rank_def s')
qed

lemma launch_step_rank:
  assumes ok: "launch_ok e k0 cu0" and inv: "launching_inv cpus k0 cu0 s" and st: "launch_step e s = Some (Inr s')"
  shows "launch_rank s' < launch_rank s"
proof (cases "no_more_ctas_to_run (la_kernel s)")
  case True
  have "pool_rank p \<le> 3 * length (tp_pending_tasks p) + sum_list (map (worker_rank True) (tp_workers p))" for p :: "'a block_task ThreadPool"
    using ranks_queued(1) by (auto simp: pool_rank_def)
  then show ?thesis using True st
    by (auto simp: launch_step_def launch_rank_def stop_pool_def pool_rank_def less_Suc_eq_le split: if_splits intro!: ranks_queued)
next
  case False
  let ?k = "la_kernel s"
  from launch_block_result[OF ok inv False] launch_step_loop[OF ok False] st obtain t where
    s': "la_kernel s' = increment_cta_id ?k" "la_pool s' = addTask t (la_pool s)" "la_finished s' = la_finished s"
    by auto
  have in_g: "in_grid (ki_next_cta ?k) (ki_grid_dim ?k)" using False in_grid_next by blast
  have "\<not> tp_stop (la_pool s)" using inv False by (auto simp: launching_inv_def)
  then show ?thesis using grid_step[OF in_g] grid_pos_less[OF in_g]
    by (simp add: launch_rank_def s' addTask_def increment_cta_id_def)
qed

section \<open>No deadlock\<close>

lemma open_tasks_progress:
  assumes "launching_inv cpus k0 cu0 s" "open_tasks s \<noteq> {#}" "tp_workers (la_pool s) \<noteq> []" "\<not> tp_stop (la_pool s)"
  shows "\<exists>i < length (tp_workers (la_pool s)). worker_step i (la_pool s) \<noteq> None"
proof (cases "tp_pending_tasks (la_pool s)")
  case Nil
  then have "running_tasks (tp_workers (la_pool s)) \<noteq> {#}" using assms(2) by (simp add: open_tasks_def)
  then obtain w where w: "w \<in> set (tp_workers (la_pool s))" "worker_task w \<noteq> {#}"
    using running_tasks_none by blast
  obtain t where t: "w = Running t" using w(2) by (cases w rule: worker.exhaust) auto
  obtain i where "i < length (tp_workers (la_pool s))" "tp_workers (la_pool s) ! i = Running t"
    using w(1) unfolding t in_set_conv_nth by blast
  then show ?thesis by (intro exI[of _ i]) (simp add: worker_step_def)
next
  case (Cons t ts)
  have "pool_inv (la_pool s)" using assms(1) pool_reach_inv by (auto simp: launching_inv_def)
  then have "Exited \<notin> set (tp_workers (la_pool s))" using assms(4) by (auto simp: pool_inv_def)
  then have "tp_workers (la_pool s) ! 0 \<noteq> Exited" using assms(3) by (metis length_greater_0_conv nth_mem)
  then show ?thesis using assms(3) Cons by (intro exI[of _ 0]) (auto simp: worker_step_def split: worker.splits)
qed

lemma launch_progress:
  assumes ok: "launch_ok e k0 cu0" and inv: "launching_inv cpus k0 cu0 s" and ws: "tp_workers (la_pool s) \<noteq> []"
    and stuck: "launch_step e s = None" "\<forall>i < length (tp_workers (la_pool s)). worker_step i (la_pool s) = None"
  shows "la_finished s \<and> tp_stop (la_pool s) \<and> no_more_ctas_to_run (la_kernel s)"
proof (cases "no_more_ctas_to_run (la_kernel s)")
  case True
  then show ?thesis using stuck(1) by (auto simp: launch_step_def split: if_splits)
next
  case False
  then have "cu_max_cta_per_cu cu0 \<le> cu_running_block_count (la_cu s)"
    using launch_block_result[OF ok inv False] launch_step_loop[OF ok False] stuck(1) by auto
  moreover have "0 < cu_max_cta_per_cu cu0" using ok by (simp add: launch_ok_def)
  ultimately have "0 < unat (cu_running_block_count (la_cu s))" by (simp add: word_less_nat_alt word_le_nat_alt)
  moreover have "unat (cu_running_block_count (la_cu s)) = size (open_tasks s)" using inv by (simp add: launching_inv_def cu_ok_def)
  ultimately have "open_tasks s \<noteq> {#}" by (metis less_irrefl size_empty)
  moreover have "\<not> tp_stop (la_pool s)" using inv False by (auto simp: launching_inv_def)
  ultimately obtain i where "i < length (tp_workers (la_pool s))" "worker_step i (la_pool s) \<noteq> None"
    using open_tasks_progress[OF inv _ ws] by blast
  then show ?thesis using stuck(2) by simp
qed

lemma workers_exist:
  assumes "launch_ok e k0 cu0" "0 < cpus" "cpus < 2 ^ 31" "0 < dz (ki_grid_dim k0)" "pool_reach cpus (ucast (num_blocks k0)) p"
  shows "tp_workers p \<noteq> []" "0 < max_workers cpus (ucast (num_blocks k0))"
proof -
  let ?g = "ki_grid_dim k0"
  have "(ucast (ucast x :: u64) :: u32) = x" for x :: u32 by (rule bit_word_eqI) (auto simp: bit_simps)
  then have "(ucast (num_blocks k0) :: u32) = of_nat (grid_size ?g)"
    by (simp add: num_blocks_def grid_size_def)
  moreover have "0 < grid_size ?g" using assms(1,4) by (auto simp: launch_ok_def grid_size_def word_less_nat_alt)
  moreover have "unat (of_nat (grid_size ?g) :: u32) = grid_size ?g" using assms(1) by (simp add: launch_ok_def unat_of_nat)
  ultimately have b: "0 < (ucast (num_blocks k0) :: u32)" by (simp add: word_less_nat_alt)
  have "unat cpus < 2 ^ 31" using assms(3) by (simp add: word_less_nat_alt)
  then have "unat (cpus * 2) = unat cpus * 2" by (simp add: unat_word_ariths)
  then have c: "0 < cpus * 2" using assms(2) by (simp add: word_less_nat_alt)
  show "0 < max_workers cpus (ucast (num_blocks k0))" using b c by (simp add: max_workers_def min_def)
  then show "tp_workers p \<noteq> []" using pool_reach_workers[OF assms(5)] by (auto simp: word_less_nat_alt)
qed

lemma launch_run_inv:
  "launch_run e (new_launch cpus uid cu0 k0) n s \<Longrightarrow> launch_ok e k0 cu0 \<Longrightarrow>
     launching_inv cpus k0 cu0 s \<and> n + launch_rank s \<le> launch_rank (new_launch cpus uid cu0 k0 :: 'ms Launch)"
  for s :: "'ms Launch"
proof (induction rule: launch_run.induct)
  case start
  then show ?case using start_inv by simp
next
  case (launching n s s')
  then show ?case using launch_step_inv[of e k0 cu0 cpus s s'] launch_step_rank[of e k0 cu0 cpus s s'] by auto
next
  case (executing n s i s')
  then show ?case using execute_task_inv[of cpus k0 cu0 s i s'] execute_task_rank[of cpus k0 cu0 s i s'] by auto
next
  case (threads n s i t)
  then show ?case
    by (auto simp: launching_inv_def kernel_same_def tasks_ok_def cu_ok_def open_tasks_def launch_rank_def
        increment_thread_id_def no_more_ctas_to_run_def)
qed

lemma start_rank:
  assumes "launch_ok e k0 cu0"
  shows "launch_rank (new_launch cpus uid cu0 k0) = 4 * grid_size (ki_grid_dim k0) + 2 + 3 * unat (max_workers cpus (ucast (num_blocks k0)))"
  using assms by (simp add: launch_rank_def new_launch_def new_ThreadPool_def launch_ok_def sum_list_replicate)

section \<open>The launch of a kernel\<close>


lemma launch_step_some:
  assumes "launch_ok e k0 cu0" "launching_inv cpus k0 cu0 s" "launch_step e s \<noteq> None"
  shows "\<exists>s'. launch_step e s = Some (Inr s')"
proof (cases "no_more_ctas_to_run (la_kernel s)")
  case True
  then show ?thesis using assms(3) by (auto simp: launch_step_def split: if_splits)
next
  case False
  then show ?thesis
    using launch_block_result[OF assms(1,2) False] launch_step_loop[OF assms(1) False] assms(3) by auto
qed

text \<open>Every run can be continued to the end.\<close>

lemma launch_run_to_end:
  fixes s :: "'ms Launch"
  assumes "launch_run e (new_launch cpus uid cu0 k0) n s" "launch_ok e k0 cu0"
  shows "\<exists>n' s'. launch_run e (new_launch cpus uid cu0 k0) n' (s' :: 'ms Launch) \<and> launch_step e s' = None \<and>
    (\<forall>i < length (tp_workers (la_pool s')). execute_task i s' = None)"
  using assms
proof (induction "launch_rank s" arbitrary: n s rule: less_induct)
  case less
  note inv = conjunct1[OF launch_run_inv[OF less.prems]]
  consider (stuck) "launch_step e s = None" "\<forall>i < length (tp_workers (la_pool s)). execute_task i s = None"
    | (main) s' where "launch_step e s = Some (Inr s')"
    | (worker) i s' where "i < length (tp_workers (la_pool s))" "execute_task i s = Some s'"
  proof (cases "launch_step e s = None \<and> (\<forall>i < length (tp_workers (la_pool s)). execute_task i s = None)")
    case False
    show ?thesis
    proof (cases "launch_step e s = None")
      case True
      then obtain i where "i < length (tp_workers (la_pool s))" "execute_task i s \<noteq> None" using False by auto
      then show ?thesis using that(3) by auto
    next
      case main: False
      show ?thesis using launch_step_some[OF less.prems(2) inv main] that(2) by auto
    qed
  qed (use that(1) in blast)
  then show ?case
  proof cases
    case stuck
    then show ?thesis using less.prems(1) by blast
  next
    case main
    show ?thesis
      by (rule less.hyps[OF launch_step_rank[OF less.prems(2) inv main] launch_run.launching[OF less.prems(1) main] less.prems(2)])
  next
    case worker
    show ?thesis
      by (rule less.hyps[OF execute_task_rank[OF inv worker] launch_run.executing[OF less.prems(1) worker] less.prems(2)])
  qed
qed

definition sample_env :: "(u64 \<Rightarrow> u8) launch_env" where
  "sample_env = \<lparr>le_cp_op = 0, le_cp_kernel = 0, le_cp_cta_resume = 0, le_warp_size = 32, le_const_reg_num = 4,
     le_ret = True, le_raw_state = Sample_State.sample_block, le_junk = (\<lambda>_. 0), le_mem = (\<lambda>_. 0, \<lambda>_. 0)\<rparr>"

lemma sample_launch_ok: "launch_ok sample_env const_kernel new_CUResource"
  by (simp add: launch_ok_def block_fits_def sample_env_def const_kernel_fields new_CUResource_def grid_size_def threads_per_cta_def)


text \<open>
  The launching thread registers the kernel as finished before the destructor of the pool waits for the
  workers: when the compute unit takes all blocks of the grid, the kernel can be reported as finished before
  any of its blocks has been executed.
\<close>

lemma launched_blocks:
  assumes ok: "launch_ok e k0 cu0" and room: "grid_size (ki_grid_dim k0) \<le> unat (cu_max_cta_per_cu cu0)"
  shows "m \<le> grid_size (ki_grid_dim k0) \<Longrightarrow> \<exists>n s. launch_run e (new_launch cpus uid cu0 k0) n s \<and>
    tp_executed (la_pool s) = {#} \<and> size (tp_added (la_pool s)) = m \<and> \<not> la_finished s \<and>
    grid_pos (ki_next_cta (la_kernel s)) (ki_grid_dim k0) = m"
proof (induction m)
  case 0
  have "ki_next_cta k0 = mk_dim3 0 0 0" using ok by (simp add: launch_ok_def)
  then show ?case
    by (intro exI[of _ 0] exI[of _ "new_launch cpus uid cu0 k0"]) (simp add: launch_run.start new_launch_def new_ThreadPool_def)
next
  case (Suc m)
  then obtain n s where s: "launch_run e (new_launch cpus uid cu0 k0) n s" "tp_executed (la_pool s) = {#}"
    "size (tp_added (la_pool s)) = m" "\<not> la_finished s" "grid_pos (ki_next_cta (la_kernel s)) (ki_grid_dim k0) = m" by auto
  note inv = conjunct1[OF launch_run_inv[OF s(1) ok]]
  have same: "ki_grid_dim (la_kernel s) = ki_grid_dim k0" "grid_ok (ki_next_cta (la_kernel s)) (ki_grid_dim k0)"
    using inv by (auto simp: launching_inv_def kernel_same_def)
  then have in_g: "in_grid (ki_next_cta (la_kernel s)) (ki_grid_dim k0)" using grid_ok_more s(5) Suc.prems by simp
  then have more: "\<not> no_more_ctas_to_run (la_kernel s)" using in_grid_next same(1) by simp
  have "unat (cu_running_block_count (la_cu s)) = m"
    using added_count(2)[OF inv] s(2,3) inv by (simp add: launching_inv_def cu_ok_def)
  then have "cu_running_block_count (la_cu s) < cu_max_cta_per_cu cu0" using room Suc.prems by (simp add: word_less_nat_alt)
  then obtain t where "launch_block e s = Some (Inr (s\<lparr>la_cu := (la_cu s)\<lparr>cu_running_block_count := cu_running_block_count (la_cu s) + 1\<rparr>,
      la_cta_uid := la_cta_uid s + 1, la_pool := addTask t (la_pool s)\<rparr>))"
    using launch_block_result[OF ok inv more] by (auto simp: not_less[symmetric])
  then obtain s' where st: "launch_step e s = Some (Inr s')" and s': "la_pool s' = addTask t (la_pool s)"
    "la_kernel s' = increment_cta_id (la_kernel s)" "la_finished s' = la_finished s"
    by (simp add: launch_step_loop[OF ok more])
  show ?case
    using launch_run.launching[OF s(1) st] s s' grid_step[OF in_g] same(1)
    by (intro exI[of _ "Suc n"] exI[of _ s']) (simp add: addTask_def increment_cta_id_def)
qed

lemma finished_before_executed:
  assumes ok: "launch_ok e k0 cu0" and "grid_size (ki_grid_dim k0) \<le> unat (cu_max_cta_per_cu cu0)"
  shows "\<exists>n s. launch_run e (new_launch cpus uid cu0 k0) n s \<and> la_finished s \<and> tp_executed (la_pool s) = {#} \<and>
    size (tp_added (la_pool s)) = grid_size (ki_grid_dim k0)"
proof -
  let ?g = "ki_grid_dim k0"
  obtain n s where s: "launch_run e (new_launch cpus uid cu0 k0) n s" "tp_executed (la_pool s) = {#}"
    "size (tp_added (la_pool s)) = grid_size ?g" "\<not> la_finished s" "grid_pos (ki_next_cta (la_kernel s)) ?g = grid_size ?g"
    using launched_blocks[OF assms, of "grid_size ?g"] by blast
  have "ki_grid_dim (la_kernel s) = ?g" "grid_ok (ki_next_cta (la_kernel s)) ?g"
    using launch_run_inv[OF s(1) ok] by (auto simp: launching_inv_def kernel_same_def)
  then have "no_more_ctas_to_run (la_kernel s)" using in_grid_next[of "la_kernel s"] grid_ok_more s(5) by fastforce
  then have "launch_step e s = Some (Inr (s\<lparr>la_finished := True\<rparr>))" using s(4) by (simp add: launch_step_def)
  from launch_run.launching[OF s(1) this] show ?thesis using s(2,3)
    by (intro exI[of _ "Suc n"] exI[of _ "s\<lparr>la_finished := True\<rparr>"]) simp
qed

end
