(* ===== verification/Memory_ISA.thy ===== *)
theory Memory_ISA
  imports Vector_ISA VOP3_ISA
begin

text \<open>
  The memory instructions of the vector unit: loads and stores through a register pair
  (isa/InstructionVLS.cpp), the shared memory of the block (isa/InstructionDLS.cpp) and the untyped
  buffers (isa/InstructionVMUBUF.cpp). Their properties are in the theory Memory_Facts.
\<close>

section \<open>Loads and stores through a register pair\<close>

record BytesVLS =
  vls_op :: u32
  vls_ext_enc :: u32
  vls_vaddr :: u32
  vls_ssrc0 :: u32
  vls_offset :: u32
  vls_vdata :: u32
  vls_e2_vaddr :: u32
  vls_e2_imm :: u32
  vls_e2_vdata :: u32

record OpcodeVLS =
  OP_V_LOAD_U32X4 :: u32
  OP_V_LOAD_U64 :: u32
  OP_V_STORE_U8 :: u32
  OP_V_STORE_U16 :: u32
  OP_V_STORE_U32 :: u32

text \<open>The extension of an instruction is recognised by the value 7; a 64-bit store is decoded as a load of one word.\<close>

definition VLS_Decode :: "coasm \<Rightarrow> OpcodeVLS \<Rightarrow> BytesVLS \<Rightarrow> Instruction \<Rightarrow> Instruction" where
  "VLS_Decode cfg opc b ins =
     (let op = vls_op b; sz = (if vls_ext_enc b = 7 then 8 else 4);
          ins = ins\<lparr>ins_m_decoded := True, ins_m_size := sz, ins_num_dst_operands := 1, ins_num_src_operands := 2\<rparr>;
          data_reg_range = (if op = OP_V_LOAD_U32X4 opc then 4 else if op = OP_V_LOAD_U64 opc then 2 else 1);
          vaddr = ext_field sz (vls_vaddr b) (vls_e2_vaddr b) (COMMON_ENC_max_vaddr_32e_width cfg);
          vdata = mk_Reg (ext_field sz (vls_vdata b) (vls_e2_vdata b) (COMMON_ENC_max_vdata_32e_width cfg)) data_reg_range Vector 0;
          ins = makeOperand_reg SRC0 (mk_Reg vaddr 2 (if vls_ssrc0 b = 1 then Scalar else Vector) 0) ins;
          ins = makeOperand_imm SRC1 (ext_field sz (vls_offset b) (vls_e2_imm b) (COMMON_ENC_max_vdst_32e_width cfg)) ins
      in if op = OP_V_STORE_U8 opc \<or> op = OP_V_STORE_U16 opc \<or> op = OP_V_STORE_U32 opc
         then makeOperand_reg SRC2 vdata (ins\<lparr>ins_num_dst_operands := 0, ins_num_src_operands := 3\<rparr>)
         else makeOperand_reg DST vdata ins)"

definition calculateAddr :: "(u32 \<Rightarrow> u32 res) \<Rightarrow> u32 \<Rightarrow> Instruction \<Rightarrow> u64 res" where
  "calculateAddr shl_32 lane_id ins =
     bindR (getOperand SRC0 ins) (\<lambda>opd. bindR (getValueX opd lane_id) (\<lambda>value.
     bindR (U64_regs shl_32 value) (\<lambda>base_ptr.
     bindR (operand_value SRC1 lane_id ins) (\<lambda>offset. Inr (base_ptr + ucast offset)))))"

text \<open>The first bytes of a register that was zero.\<close>

definition reg_t_bytes :: "u8 list \<Rightarrow> reg_t" where
  "reg_t_bytes bs = reg_t_u32 (bytes_u32 bs)"

definition vls_load :: "(u32 \<Rightarrow> u32 res) \<Rightarrow> u32 \<Rightarrow> u32 \<Rightarrow> Instruction \<times> 'm WarpState \<Rightarrow> (Instruction \<times> 'm WarpState) res" where
  "vls_load shl_32 sz lane_id st = (case st of (ins, w) \<Rightarrow>
     bindR (calculateAddr shl_32 lane_id ins) (\<lambda>addr.
     let value = reg_t_bytes (readVMEM addr sz undefined_space w)
     in bindR (modify_operand DST (setValue_reg value lane_id) ins) (\<lambda>ins. Inr (ins, w))))"

definition vls_store :: "(u32 \<Rightarrow> u32 res) \<Rightarrow> u32 \<Rightarrow> u32 \<Rightarrow> Instruction \<times> 'm WarpState \<Rightarrow> (Instruction \<times> 'm WarpState) res" where
  "vls_store shl_32 sz lane_id st = (case st of (ins, w) \<Rightarrow>
     bindR (calculateAddr shl_32 lane_id ins) (\<lambda>addr.
     bindR (operand_value SRC2 lane_id ins) (\<lambda>v.
       Inr (ins, writeVMEM addr (take (unat sz) (u32_bytes v)) undefined_space w))))"

definition V_LOAD_U8 :: "(u32 \<Rightarrow> u32 res) \<Rightarrow> u32 \<Rightarrow> Instruction \<times> 'm WarpState \<Rightarrow> (Instruction \<times> 'm WarpState) res" where
  "V_LOAD_U8 shl_32 = vls_load shl_32 1"

definition V_LOAD_U16 :: "(u32 \<Rightarrow> u32 res) \<Rightarrow> u32 \<Rightarrow> Instruction \<times> 'm WarpState \<Rightarrow> (Instruction \<times> 'm WarpState) res" where
  "V_LOAD_U16 shl_32 = vls_load shl_32 2"

definition V_LOAD_U32 :: "(u32 \<Rightarrow> u32 res) \<Rightarrow> u32 \<Rightarrow> Instruction \<times> 'm WarpState \<Rightarrow> (Instruction \<times> 'm WarpState) res" where
  "V_LOAD_U32 shl_32 = vls_load shl_32 4"

text \<open>
  The loads of several words store the whole value after each word. All of them record an access
  of eight bytes.
\<close>

definition vls_load_words :: "nat \<Rightarrow> (u32 \<Rightarrow> u32 res) \<Rightarrow> u32 \<Rightarrow> Instruction \<times> 'm WarpState \<Rightarrow> (Instruction \<times> 'm WarpState) res" where
  "vls_load_words n shl_32 lane_id st = (case st of (ins, w) \<Rightarrow>
     bindR (calculateAddr shl_32 lane_id ins) (\<lambda>addr.
     assertR (addr AND 3 = 0)
    (bindR (forR n (\<lambda>i (value, ins).
        bindR (vec_set value i (bytes_u32 (readVMEM (addr + of_nat i * 4) 4 undefined_space w))) (\<lambda>value.
        bindR (modify_operand DST (setValueX value lane_id) ins) (\<lambda>ins. Inr (value, ins)))) (replicate n 0, ins))
      (\<lambda>(value, ins). Inr (ins, w\<lparr>wst_global_memory_access_address := addr, wst_global_memory_access_size := 4 * 2\<rparr>)))))"

definition V_LOAD_U64 :: "(u32 \<Rightarrow> u32 res) \<Rightarrow> u32 \<Rightarrow> Instruction \<times> 'm WarpState \<Rightarrow> (Instruction \<times> 'm WarpState) res" where
  "V_LOAD_U64 = vls_load_words 2"

definition V_LOAD_U32X4 :: "(u32 \<Rightarrow> u32 res) \<Rightarrow> u32 \<Rightarrow> Instruction \<times> 'm WarpState \<Rightarrow> (Instruction \<times> 'm WarpState) res" where
  "V_LOAD_U32X4 = vls_load_words 4"

definition V_STORE_U8 :: "(u32 \<Rightarrow> u32 res) \<Rightarrow> u32 \<Rightarrow> Instruction \<times> 'm WarpState \<Rightarrow> (Instruction \<times> 'm WarpState) res" where
  "V_STORE_U8 shl_32 = vls_store shl_32 1"

definition V_STORE_U16 :: "(u32 \<Rightarrow> u32 res) \<Rightarrow> u32 \<Rightarrow> Instruction \<times> 'm WarpState \<Rightarrow> (Instruction \<times> 'm WarpState) res" where
  "V_STORE_U16 shl_32 = vls_store shl_32 2"

definition V_STORE_U32 :: "(u32 \<Rightarrow> u32 res) \<Rightarrow> u32 \<Rightarrow> Instruction \<times> 'm WarpState \<Rightarrow> (Instruction \<times> 'm WarpState) res" where
  "V_STORE_U32 shl_32 = vls_store shl_32 4"

definition V_STORE_U64 :: "(u32 \<Rightarrow> u32 res) \<Rightarrow> u32 \<Rightarrow> Instruction \<times> 'm WarpState \<Rightarrow> (Instruction \<times> 'm WarpState) res" where
  "V_STORE_U64 shl_32 lane_id st = (case st of (ins, w) \<Rightarrow>
     bindR (calculateAddr shl_32 lane_id ins) (\<lambda>addr.
     assertR (addr AND 3 = 0)
    (bindR (forR 2 (\<lambda>i w.
        bindR (getOperand SRC2 ins) (\<lambda>opd. bindR (getValueX opd lane_id) (\<lambda>value.
        bindR (vec_get value i) (\<lambda>v. Inr (writeVMEM (addr + of_nat i * 4) (u32_bytes v) undefined_space w))))) w)
      (\<lambda>w. Inr (ins, w)))))"

section \<open>The shared memory of a block\<close>

record BytesDLS =
  dls_op :: u32
  dls_offset0 :: u32
  dls_offset1 :: u32
  dls_gds :: u32
  dls_addr :: u32
  dls_data0 :: u32
  dls_vdst :: u32

definition DLS_Decode :: "Instruction \<Rightarrow> Instruction" where
  "DLS_Decode ins = ins\<lparr>ins_m_size := 8, ins_m_decoded := True\<rparr>"

definition D_ADD_U32 :: "u32 \<Rightarrow> 'm WarpState \<Rightarrow> 'm WarpState res" where
  "D_ADD_U32 lane_id w = ISAUnimplemented w"

definition D_INC_U32 :: "u32 \<Rightarrow> 'm WarpState \<Rightarrow> 'm WarpState res" where
  "D_INC_U32 lane_id w = ISAUnimplemented w"

text \<open>The body is compiled out.\<close>

definition D_WRITE2_B32 :: "u32 \<Rightarrow> 'm WarpState \<Rightarrow> 'm WarpState res" where
  "D_WRITE2_B32 lane_id w = Inr w"

definition dls_write :: "nat \<Rightarrow> BytesDLS \<Rightarrow> u32 \<Rightarrow> 'm WarpState \<Rightarrow> 'm WarpState res" where
  "dls_write n b lane_id w =
     assertR (dls_gds b = 0)
    (bindR (getVreg (dls_addr b) lane_id w) (\<lambda>addr.
     bindR (getVreg (dls_data0 b) lane_id w) (\<lambda>data0.
       Inr (setDmem addr (take n (u32_bytes data0)) w))))"

definition D_WRITE_B32 :: "BytesDLS \<Rightarrow> u32 \<Rightarrow> 'm WarpState \<Rightarrow> 'm WarpState res" where
  "D_WRITE_B32 b lane_id w = assertR (dls_offset0 b = 0) (dls_write 4 b lane_id w)"

definition D_WRITE_B8 :: "BytesDLS \<Rightarrow> u32 \<Rightarrow> 'm WarpState \<Rightarrow> 'm WarpState res" where
  "D_WRITE_B8 b lane_id w = assertR (dls_offset0 b = 0 \<and> dls_offset1 b = 0) (dls_write 1 b lane_id w)"

definition D_WRITE_B16 :: "BytesDLS \<Rightarrow> u32 \<Rightarrow> 'm WarpState \<Rightarrow> 'm WarpState res" where
  "D_WRITE_B16 b lane_id w = assertR (dls_offset0 b = 0 \<and> dls_offset1 b = 0) (dls_write 2 b lane_id w)"

text \<open>\<open>widen\<close> makes the word that is written to the register of the bytes that were read.\<close>

definition dls_read :: "u32 \<Rightarrow> (u8 list \<Rightarrow> u32) \<Rightarrow> BytesDLS \<Rightarrow> u32 \<Rightarrow> 'm WarpState \<Rightarrow> 'm WarpState res" where
  "dls_read n widen b lane_id w =
     assertR (dls_gds b = 0)
    (bindR (getVreg (dls_addr b) lane_id w) (\<lambda>addr.
       setVreg (dls_vdst b) (widen (getDmem addr n w)) lane_id w))"

definition D_READ_B32 :: "BytesDLS \<Rightarrow> u32 \<Rightarrow> 'm WarpState \<Rightarrow> 'm WarpState res" where
  "D_READ_B32 b lane_id w = assertR (dls_offset0 b = 0) (dls_read 4 bytes_u32 b lane_id w)"

definition D_READ2_B32 :: "BytesDLS \<Rightarrow> u32 \<Rightarrow> 'm WarpState \<Rightarrow> 'm WarpState res" where
  "D_READ2_B32 b lane_id w =
     assertR (dls_gds b = 0)
    (bindR (getVreg (dls_addr b) lane_id w) (\<lambda>addr.
     let data0 = bytes_u32 (getDmem (addr + dls_offset0 b * 4) 4 w);
         data1 = bytes_u32 (getDmem (addr + dls_offset1 b * 4) 4 w)
     in bindR (setVreg (dls_vdst b) data0 lane_id w) (\<lambda>w.
        bindR (setVreg (dls_vdst b + 1) data1 lane_id w) (\<lambda>w.
        assertR (dls_offset0 b = 0) (assertR (dls_offset1 b = 1) (Inr w))))))"

definition D_READ_I8 :: "BytesDLS \<Rightarrow> u32 \<Rightarrow> 'm WarpState \<Rightarrow> 'm WarpState res" where
  "D_READ_I8 b lane_id w = assertR (dls_offset0 b = 0 \<and> dls_offset1 b = 0)
     (dls_read 1 (\<lambda>bs. scast (ucast (bytes_u32 bs) :: u8)) b lane_id w)"

definition D_READ_U8 :: "BytesDLS \<Rightarrow> u32 \<Rightarrow> 'm WarpState \<Rightarrow> 'm WarpState res" where
  "D_READ_U8 b lane_id w = assertR (dls_offset0 b = 0 \<and> dls_offset1 b = 0)
     (dls_read 1 (\<lambda>bs. ucast (ucast (bytes_u32 bs) :: u8)) b lane_id w)"

definition D_READ_I16 :: "BytesDLS \<Rightarrow> u32 \<Rightarrow> 'm WarpState \<Rightarrow> 'm WarpState res" where
  "D_READ_I16 b lane_id w = assertR (dls_offset0 b = 0 \<and> dls_offset1 b = 0)
     (dls_read 2 (\<lambda>bs. scast (ucast (bytes_u32 bs) :: u16)) b lane_id w)"

definition D_READ_U16 :: "BytesDLS \<Rightarrow> u32 \<Rightarrow> 'm WarpState \<Rightarrow> 'm WarpState res" where
  "D_READ_U16 b lane_id w = assertR (dls_offset0 b = 0 \<and> dls_offset1 b = 0)
     (dls_read 2 (\<lambda>bs. ucast (ucast (bytes_u32 bs) :: u16)) b lane_id w)"

section \<open>Untyped buffers\<close>

record BytesVMUBUF =
  vmu_op :: u32
  vmu_offset :: u32
  vmu_offen :: u32
  vmu_idxen :: u32
  vmu_glc :: u32
  vmu_addr64 :: u32
  vmu_lds :: u32
  vmu_vaddr :: u32
  vmu_vdata :: u32
  vmu_srsrc :: u32
  vmu_slc :: u32
  vmu_tfe :: u32
  vmu_soffset :: u32

definition VMUBUF_Decode :: "Instruction \<Rightarrow> Instruction" where
  "VMUBUF_Decode ins = ins\<lparr>ins_m_size := 8, ins_m_decoded := True\<rparr>"

text \<open>The low word of the 48-bit base address and the 14-bit stride of a buffer descriptor.\<close>

definition desc_base_addr :: "u32 list \<Rightarrow> u32" where
  "desc_base_addr buf_desc = buf_desc ! 0"

definition desc_stride :: "u32 list \<Rightarrow> u32" where
  "desc_stride buf_desc = take_bit 14 (drop_bit 16 (buf_desc ! 1))"

text \<open>The address of a lane's element, computed in 32 bits.\<close>

definition buffer_addr :: "coasm \<Rightarrow> BytesVMUBUF \<Rightarrow> u32 \<Rightarrow> 'm WarpState \<Rightarrow> u32 res" where
  "buffer_addr cfg b lane_id w =
     bindR (ReadBufferResource cfg (vmu_srsrc b * 4) w) (\<lambda>buffer_descriptor.
     let base = desc_base_addr buffer_descriptor; stride = desc_stride buffer_descriptor in
     bindR (getSreg cfg (vmu_soffset b) w) (\<lambda>mem_offset.
     bindR (if vmu_idxen b = 0 \<and> vmu_offen b \<noteq> 0 then
              bindR (getVreg (vmu_vaddr b) lane_id w) (\<lambda>off_vgpr. Inr (off_vgpr, 0))
            else if vmu_idxen b \<noteq> 0 \<and> vmu_offen b = 0 then
              bindR (getVreg (vmu_vaddr b) lane_id w) (\<lambda>idx_vgpr. Inr (0, idx_vgpr))
            else if vmu_idxen b \<noteq> 0 \<and> vmu_offen b \<noteq> 0 then
              bindR (getVreg (vmu_vaddr b) lane_id w) (\<lambda>idx_vgpr.
              bindR (getVreg (vmu_vaddr b + 1) lane_id w) (\<lambda>off_vgpr. Inr (off_vgpr, idx_vgpr)))
            else Inr (0, 0)) (\<lambda>(off_vgpr, idx_vgpr).
     failR (idx_vgpr \<noteq> 0 \<and> stride = 0) Runtime_Error
       (Inr (base + mem_offset + vmu_offset b + off_vgpr + stride * (idx_vgpr + lane_id))))))"

definition record_access :: "u32 \<Rightarrow> u64 \<Rightarrow> 'm WarpState \<Rightarrow> 'm WarpState" where
  "record_access addr n w = w\<lparr>wst_global_memory_access_address := ucast addr, wst_global_memory_access_size := n\<rparr>"

text \<open>Both loads extend the sign of the first byte; they differ in the bytes they read.\<close>

definition buffer_load :: "nat \<Rightarrow> coasm \<Rightarrow> BytesVMUBUF \<Rightarrow> u32 \<Rightarrow> 'm WarpState \<Rightarrow> 'm WarpState res" where
  "buffer_load bytes_to_read cfg b lane_id w =
     assertR (vmu_addr64 b = 0 \<and> vmu_glc b = 0 \<and> vmu_slc b = 0 \<and> vmu_tfe b = 0 \<and> vmu_lds b = 0)
    (bindR (buffer_addr cfg b lane_id w) (\<lambda>addr.
     let value = scast (ucast (bytes_u32 (readVMEM (ucast addr) (of_nat bytes_to_read) undefined_space w)) :: u8) in
     bindR (setVreg (vmu_vdata b) value lane_id w) (\<lambda>w. Inr (record_access addr (of_nat bytes_to_read) w))))"

definition V_BUFFER_LOAD_SBYTE :: "coasm \<Rightarrow> BytesVMUBUF \<Rightarrow> u32 \<Rightarrow> 'm WarpState \<Rightarrow> 'm WarpState res" where
  "V_BUFFER_LOAD_SBYTE = buffer_load 1"

definition V_BUFFER_LOAD_DWORD :: "coasm \<Rightarrow> BytesVMUBUF \<Rightarrow> u32 \<Rightarrow> 'm WarpState \<Rightarrow> 'm WarpState res" where
  "V_BUFFER_LOAD_DWORD = buffer_load 4"

definition coherent_if :: "bool \<Rightarrow> 'm WarpState \<Rightarrow> 'm WarpState" where
  "coherent_if glc w = (if glc then SetVectorMemoryGlobalCoherency True w else w)"

definition V_BUFFER_STORE_SBYTE :: "coasm \<Rightarrow> BytesVMUBUF \<Rightarrow> u32 \<Rightarrow> 'm WarpState \<Rightarrow> 'm WarpState res" where
  "V_BUFFER_STORE_SBYTE cfg b lane_id w =
     assertR (vmu_addr64 b = 0 \<and> vmu_slc b = 0 \<and> vmu_tfe b = 0 \<and> vmu_lds b = 0)
    (let w = coherent_if (vmu_glc b \<noteq> 0) w in
     bindR (buffer_addr cfg b lane_id w) (\<lambda>addr.
     bindR (getVreg (vmu_vdata b) lane_id w) (\<lambda>value.
     let w = writeVMEM (ucast addr) (take 1 (u32_bytes value)) undefined_space w in
     bindR (setVreg (vmu_vdata b) value lane_id w) (\<lambda>w. Inr (record_access addr 1 w)))))"

definition V_BUFFER_STORE_DWORD :: "coasm \<Rightarrow> BytesVMUBUF \<Rightarrow> u32 \<Rightarrow> 'm WarpState \<Rightarrow> 'm WarpState res" where
  "V_BUFFER_STORE_DWORD cfg b lane_id w =
     assertR (vmu_addr64 b = 0 \<and> vmu_slc b = 0 \<and> vmu_tfe b = 0 \<and> vmu_lds b = 0)
    (let w = coherent_if (vmu_glc b \<noteq> 0) w in
     bindR (buffer_addr cfg b lane_id w) (\<lambda>addr.
     bindR (getVreg (vmu_vdata b) lane_id w) (\<lambda>value.
       Inr (record_access addr 4 (writeVMEM (ucast addr) (u32_bytes value) undefined_space w)))))"

text \<open>The coherency is requested whether the instruction asks for it or not.\<close>

definition V_BUFFER_ATOMIC_ADD :: "coasm \<Rightarrow> BytesVMUBUF \<Rightarrow> u32 \<Rightarrow> 'm WarpState \<Rightarrow> 'm WarpState res" where
  "V_BUFFER_ATOMIC_ADD cfg b lane_id w =
     assertR (vmu_addr64 b = 0 \<and> vmu_slc b = 0 \<and> vmu_tfe b = 0 \<and> vmu_lds b = 0)
    (let w = SetVectorMemoryGlobalCoherency True w in
     bindR (buffer_addr cfg b lane_id w) (\<lambda>addr.
     let prev_value = bytes_u32 (readVMEM (ucast addr) 4 undefined_space w) in
     bindR (getVreg (vmu_vdata b) lane_id w) (\<lambda>v.
     let w = writeVMEM (ucast addr) (u32_bytes (v + prev_value)) undefined_space w in
     bindR (if vmu_glc b \<noteq> 0 then setVreg (vmu_vdata b) prev_value lane_id w else Inr w) (\<lambda>w.
       Inr (record_access addr 4 w)))))"

end
