(* ===== verification/Memory_Facts.thy ===== *)
theory Memory_Facts
  imports Memory_ISA Handler_Frames Sample_State
begin

text \<open>
  What the memory instructions do: they meet the contract of a handler, a load reads back what a store
  wrote, and the atomic addition of a whole warp adds up every lane's value. The memories are
  parameters; what is used of them are the laws below.
\<close>

section \<open>The memories\<close>

text \<open>
  The bytes that are written are read back (for the sizes of the instructions), and the memory behind
  the undefined space, where buffer descriptors are read, is not the global memory.
\<close>

definition dsm_reads_back :: "'m WarpState \<Rightarrow> bool" where
  "dsm_reads_back w \<longleftrightarrow> (\<forall>addr bs m. length bs \<le> 16 \<longrightarrow> wst_dsm_read w addr (length bs) (wst_dsm_write w addr bs m) = bs)"

definition vmem_reads_back :: "'m WarpState \<Rightarrow> bool" where
  "vmem_reads_back w \<longleftrightarrow> (\<forall>addr bs m. length bs \<le> 16 \<longrightarrow>
     wst_mem_read w global_space addr (length bs) (wst_mem_write w global_space addr bs m) = bs)"

definition descriptors_apart :: "'m WarpState \<Rightarrow> bool" where
  "descriptors_apart w \<longleftrightarrow> (\<forall>addr n addr' bs m.
     wst_mem_read w undefined_space addr n (wst_mem_write w global_space addr' bs m) = wst_mem_read w undefined_space addr n m)"

lemma bytes_write_other: "addr \<notin> (\<lambda>i. a + of_nat i) ` {..<length bs} \<Longrightarrow> bytes_write a bs m addr = m addr"
proof (induction bs arbitrary: a m)
  case (Cons b bs)
  have "addr \<noteq> a" using Cons.prems by (force simp: image_def)
  moreover have "addr \<notin> (\<lambda>i. a + 1 + of_nat i) ` {..<length bs}"
  proof
    assume "addr \<in> (\<lambda>i. a + 1 + of_nat i) ` {..<length bs}"
    then obtain i where i: "i < length bs" "addr = a + of_nat (Suc i)" by (auto simp: add.assoc)
    then have "addr \<in> (\<lambda>i. a + of_nat i) ` {..<length (b # bs)}" by (intro image_eqI[of _ _ "Suc i"]) auto
    then show False using Cons.prems by simp
  qed
  ultimately show ?case using Cons.IH by simp
qed simp

lemma bytes_read_write: "length bs \<le> 16 \<Longrightarrow> bytes_read addr (length bs) (bytes_write addr bs m) = bs"
proof (induction bs arbitrary: addr m)
  case (Cons b bs)
  have "addr \<notin> (\<lambda>i. addr + 1 + of_nat i) ` {..<length bs}"
  proof
    assume "addr \<in> (\<lambda>i. addr + 1 + of_nat i) ` {..<length bs}"
    then obtain i where i: "i < length bs" "addr = addr + of_nat (Suc i)" by (auto simp: add.assoc)
    then have "(of_nat (Suc i) :: u64) = 0" by simp
    then have "unat (of_nat (Suc i) :: u64) = 0" by (simp only: unat_0)
    moreover have "Suc i < 2 ^ 64" using i Cons.prems by simp
    ultimately show False by (simp only: unat_of_nat) simp
  qed
  then have "bytes_write (addr + 1) bs (m(addr := b)) addr = b" by (simp add: bytes_write_other)
  moreover have "map (\<lambda>i. f (addr + of_nat i)) [0..<Suc (length bs)] = f addr # map (\<lambda>i. f (addr + 1 + of_nat i)) [0..<length bs]"
    for f :: "u64 \<Rightarrow> u8"
    by (simp add: upt_conv_Cons map_Suc_upt[symmetric] comp_def add.assoc del: upt_Suc)
  ultimately show ?case using Cons by (simp add: bytes_read_def del: upt_Suc)
qed (simp add: bytes_read_def)

lemma sample_memories: "dsm_reads_back sample_warp" "vmem_reads_back sample_warp"
  by (simp_all add: dsm_reads_back_def vmem_reads_back_def sample_warp_def bytes_read_write)

section \<open>The contract of a handler\<close>

lemma record_access_keeps [frames]: "warp_frame l w (record_access a n w)"
  by (simp add: record_access_def frames)

lemma writeVMEM_keeps [frames]: "warp_frame l w (writeVMEM a v sp w)"
  by (simp add: writeVMEM_def frames)

lemma coherency_keeps [frames]: "warp_frame l w (SetVectorMemoryGlobalCoherency c w)"
  by (simp add: SetVectorMemoryGlobalCoherency_def warp_frame_def)

lemma coherent_if_keeps [frames]: "warp_frame l w (coherent_if c w)"
  by (simp add: coherent_if_def frames)

declare inst_frame_refl [frames]

interpretation vload: handler "vls_load shl_32 sz"
  by unfold_locales (auto simp: vls_load_def res_simps Let_def intro: frames)

interpretation vstore: handler "vls_store shl_32 sz"
  by unfold_locales (auto simp: vls_store_def res_simps intro: frames)

interpretation vload_words: handler "vls_load_words n shl_32"
proof unfold_locales
  fix l ins ins' and w w' :: "'a WarpState"
  assume "vls_load_words n shl_32 l (ins, w) = Inr (ins', w')"
  then obtain addr vs where
    1: "forR n (\<lambda>i (value, ins). bindR (vec_set value i (bytes_u32 (readVMEM (addr + of_nat i * 4) 4 undefined_space w))) (\<lambda>value.
        bindR (modify_operand DST (setValueX value l) ins) (\<lambda>ins. Inr (value, ins)))) (replicate n 0, ins) = Inr (vs, ins')"
    and 2: "w' = w\<lparr>wst_global_memory_access_address := addr, wst_global_memory_access_size := 4 * 2\<rparr>"
    by (auto simp: vls_load_words_def res_simps)
  have "inst_frame ins (snd (vs, ins'))"
    by (rule forR_invariant[OF 1, where P = "\<lambda>st. inst_frame ins (snd st)"])
      (auto simp: vec_set_def res_simps inst_frame_refl elim!: inst_frame_trans intro: modify_operand_keeps)
  then show "warp_frame l w w' \<and> inst_frame ins ins'" by (simp add: 2 frames)
qed

interpretation dwrite: handler "warp_exec (dls_write n b)"
  by (rule warp_exec_handler) (auto simp: dls_write_def res_simps intro: frames)

interpretation dread: handler "warp_exec (dls_read n widen b)"
  by (rule warp_exec_handler) (auto simp: dls_read_def res_simps intro: frames)

interpretation bload: handler "warp_exec (buffer_load n cfg b)"
  by (rule warp_exec_handler) (auto simp: buffer_load_def res_simps Let_def intro: warp_frame_after[OF record_access_keeps] frames)

interpretation batomic: handler "warp_exec (V_BUFFER_ATOMIC_ADD cfg b)"
proof (rule warp_exec_handler)
  fix l and w w' :: "'a WarpState"
  assume "V_BUFFER_ATOMIC_ADD cfg b l w = Inr w'"
  then obtain a v v' w1 where
    1: "(if vmu_glc b \<noteq> 0 then setVreg (vmu_vdata b) v l (writeVMEM (ucast a) v' undefined_space (SetVectorMemoryGlobalCoherency True w))
      else Inr (writeVMEM (ucast a) v' undefined_space (SetVectorMemoryGlobalCoherency True w))) = Inr w1"
    and 2: "w' = record_access a 4 w1"
    unfolding V_BUFFER_ATOMIC_ADD_def Let_def assertR_eq_Inr bindR_eq_Inr by (elim conjE exE) blast
  have "warp_frame l w (writeVMEM (ucast a) v' undefined_space (SetVectorMemoryGlobalCoherency True w))"
    by (rule warp_frame_trans[OF coherency_keeps writeVMEM_keeps])
  then have "warp_frame l w w1"
    using 1 by (auto split: if_splits elim: warp_frame_trans intro: setVreg_keeps)
  then show "warp_frame l w w'" using 2 by (auto intro: warp_frame_trans frames)
qed

section \<open>The shared memory reads back\<close>

lemma low_bytes:
  "(ucast (bytes_u32 (take 1 (u32_bytes v))) :: u8) = ucast v" "(ucast (bytes_u32 (take 2 (u32_bytes v))) :: u16) = ucast v"
  "bytes_u32 (take 4 (u32_bytes v)) = v"
proof -
  show "(ucast (bytes_u32 (take 1 (u32_bytes v))) :: u8) = ucast v"
    by (rule bit_word_eqI) (simp add: u32_bytes_def bit_simps)
  show "(ucast (bytes_u32 (take 2 (u32_bytes v))) :: u16) = ucast v"
    by (rule bit_word_eqI) (auto simp: u32_bytes_def bit_simps numeral_2_eq_2)
  show "bytes_u32 (take 4 (u32_bytes v)) = v" by (simp add: bytes_u32_bytes)
qed

lemma getVreg_same: "wst_vreg_num w' = wst_vreg_num w \<Longrightarrow> wst_warp_size w' = wst_warp_size w \<Longrightarrow> wst_vreg w' = wst_vreg w \<Longrightarrow>
    getVreg r l w' = getVreg r l w"
  by (simp add: getVreg_def)

lemma vreg_writable_same: "wst_vreg_num w' = wst_vreg_num w \<Longrightarrow> wst_warp_size w' = wst_warp_size w \<Longrightarrow> wst_vreg w' = wst_vreg w \<Longrightarrow>
    vreg_writable w' i = vreg_writable w i"
  by (simp add: vreg_writable_def)

lemma dls_write_read:
  assumes "dsm_reads_back w" "n \<le> 4" "dls_write n b lane w = Inr w1" "dls_read (of_nat n) widen b' lane' w1 = Inr w2"
    and "getVreg (dls_addr b') lane' w = getVreg (dls_addr b) lane w"
    and "getVreg (dls_data0 b) lane w = Inr v" "vreg_writable w (dls_vdst b', lane')"
  shows "getVreg (dls_vdst b') lane' w2 = Inr (widen (take n (u32_bytes v)))"
proof -
  obtain addr where a: "getVreg (dls_addr b) lane w = Inr addr" and w1: "w1 = setDmem addr (take n (u32_bytes v)) w"
    using assms(3,6) by (auto simp: dls_write_def res_simps)
  let ?bs = "take n (u32_bytes v)"
  have len: "length ?bs = n" using assms(2) by simp
  have "length ?bs \<le> 16" using assms(2) len by linarith
  then have "wst_dsm_read w (ucast addr) (length ?bs) (wst_dsm_write w (ucast addr) ?bs (wst_memory w)) = ?bs"
    using assms(1) unfolding dsm_reads_back_def by blast
  moreover have "unat (of_nat n :: u32) = n" using assms(2) by (simp add: unat_of_nat)
  ultimately have "getDmem addr (of_nat n) w1 = ?bs"
    unfolding w1 getDmem_def setDmem_def len by simp
  moreover have "getVreg (dls_addr b') lane' w1 = Inr addr"
    using a assms(5) getVreg_same[of w1 w] by (simp add: w1 setDmem_def)
  ultimately have "setVreg (dls_vdst b') (widen (take n (u32_bytes v))) lane' w1 = Inr w2"
    using assms(4) by (simp add: dls_read_def assertR_eq_Inr)
  moreover have "vreg_writable w1 (dls_vdst b', lane')" using assms(7) vreg_writable_same[of w1 w] by (simp add: w1 setDmem_def)
  ultimately show ?thesis using vregs.get_put[of w1 "(dls_vdst b', lane')" _ w2 "(dls_vdst b', lane')"] by simp
qed

text \<open>
  C27. What a lane writes to the shared memory of its block is what is read back at that address: a word
  unchanged, a byte or a half word extended as the instruction says, by any lane whose address
  register holds the same address.
\<close>

theorem shared_memory_roundtrip:
  assumes "(wr, rd, extended) \<in> {(D_WRITE_B32, D_READ_B32, \<lambda>v. v),
      (D_WRITE_B8, D_READ_I8, \<lambda>v. scast (ucast v :: u8)), (D_WRITE_B8, D_READ_U8, \<lambda>v. ucast (ucast v :: u8)),
      (D_WRITE_B16, D_READ_I16, \<lambda>v. scast (ucast v :: u16)), (D_WRITE_B16, D_READ_U16, \<lambda>v. ucast (ucast v :: u16))}"
    and "dsm_reads_back w" "wr b lane w = Inr w1" "rd b' lane' w1 = Inr w2"
    and "getVreg (dls_addr b') lane' w = getVreg (dls_addr b) lane w"
    and "getVreg (dls_data0 b) lane w = Inr v" "vreg_writable w (dls_vdst b', lane')"
  shows "getVreg (dls_vdst b') lane' w2 = Inr (extended v)"
proof -
  note rt = dls_write_read[OF assms(2) _ _ _ assms(5-7)]
  note defs = D_WRITE_B32_def D_WRITE_B8_def D_WRITE_B16_def D_READ_B32_def D_READ_I8_def D_READ_U8_def
    D_READ_I16_def D_READ_U16_def assertR_eq_Inr
  from assms(1) consider (w32) "wr = D_WRITE_B32" "rd = D_READ_B32" "extended = (\<lambda>v. v)"
    | (i8) "wr = D_WRITE_B8" "rd = D_READ_I8" "extended = (\<lambda>v. scast (ucast v :: u8))"
    | (u8) "wr = D_WRITE_B8" "rd = D_READ_U8" "extended = (\<lambda>v. ucast (ucast v :: u8))"
    | (i16) "wr = D_WRITE_B16" "rd = D_READ_I16" "extended = (\<lambda>v. scast (ucast v :: u16))"
    | (u16) "wr = D_WRITE_B16" "rd = D_READ_U16" "extended = (\<lambda>v. ucast (ucast v :: u16))" by blast
  then show ?thesis
  proof cases
    case w32
    then show ?thesis using assms(3,4) rt[of 4 w1 bytes_u32 w2] by (simp add: defs bytes_u32_bytes)
  next
    case i8
    then show ?thesis using assms(3,4) rt[of 1 w1 "\<lambda>bs. scast (ucast (bytes_u32 bs) :: u8)" w2] by (simp add: defs low_bytes low_bytes(1)[unfolded One_nat_def])
  next
    case u8
    then show ?thesis using assms(3,4) rt[of 1 w1 "\<lambda>bs. ucast (ucast (bytes_u32 bs) :: u8)" w2] by (simp add: defs low_bytes low_bytes(1)[unfolded One_nat_def])
  next
    case i16
    then show ?thesis using assms(3,4) rt[of 2 w1 "\<lambda>bs. scast (ucast (bytes_u32 bs) :: u16)" w2] by (simp add: defs low_bytes low_bytes(1)[unfolded One_nat_def])
  next
    case u16
    then show ?thesis using assms(3,4) rt[of 2 w1 "\<lambda>bs. ucast (ucast (bytes_u32 bs) :: u16)" w2] by (simp add: defs low_bytes low_bytes(1)[unfolded One_nat_def])
  qed
qed

definition sample_dls :: BytesDLS where
  "sample_dls = \<lparr>dls_op = 0, dls_offset0 = 0, dls_offset1 = 0, dls_gds = 0, dls_addr = 3, dls_data0 = 5, dls_vdst = 6\<rparr>"

theorem shared_memory_roundtrip_witness:
  "\<exists>w1 w2. D_WRITE_B8 sample_dls 3 sample_warp = Inr w1 \<and> D_READ_I8 sample_dls 3 w1 = Inr w2 \<and> getVreg 6 3 w2 = Inr 0xFFFFFFA3"
proof -
  let ?w1 = "setDmem 99 [163] sample_warp"
  have w1: "D_WRITE_B8 sample_dls 3 sample_warp = Inr ?w1"
    by (simp add: D_WRITE_B8_def dls_write_def sample_dls_def sample_vreg u32_bytes_def)
  have "getVreg 3 3 ?w1 = Inr 99" using getVreg_same[of ?w1 sample_warp 3 3] by (simp add: setDmem_def sample_vreg)
  moreover have "vreg_writable ?w1 (6, 3)" using vreg_writable_same[of ?w1 sample_warp] by (simp add: setDmem_def sample_vreg)
  ultimately obtain w2 where w2: "D_READ_I8 sample_dls 3 ?w1 = Inr w2"
    using vregs.put_ok[of ?w1 "(6, 3)"] by (auto simp: D_READ_I8_def dls_read_def sample_dls_def)
  have f: "dls_addr sample_dls = 3" "dls_data0 sample_dls = 5" "dls_vdst sample_dls = 6" by (simp_all add: sample_dls_def)
  have "getVreg (dls_vdst sample_dls) 3 w2 = Inr (scast (ucast (163 :: u32) :: u8))"
    by (rule shared_memory_roundtrip[where wr = D_WRITE_B8 and rd = D_READ_I8, OF _ sample_memories(1) w1 w2]) (auto simp: f sample_vreg)
  then show ?thesis using w1 w2 by (simp add: f)
qed

section \<open>Stores and loads through a register pair\<close>

lemma take_bytes_bits:
  "n \<in> {1, 2, 4} \<Longrightarrow> bytes_u32 (take n (u32_bytes v)) = take_bit (8 * n) v"
proof -
  assume "n \<in> {1, 2, 4}"
  then consider "n = 1" | "n = 2" | "n = 4" by blast
  then show ?thesis
  proof cases
    case 1
    then show ?thesis by (auto intro!: bit_word_eqI simp: u32_bytes_def bit_simps)
  next
    case 2
    then show ?thesis by (auto intro!: bit_word_eqI simp: u32_bytes_def bit_simps numeral_2_eq_2)
  next
    case 3
    then show ?thesis by (simp add: bytes_u32_bytes take_bit_length_eq[where 'a = 32, simplified])
  qed
qed

lemma setValue_reg_getValue:
  assumes "setValue_reg val lane opd = Inr opd'" "rg_reg_type (opd_reg opd) = Vector" "rg_range (opd_reg opd) = 1"
  shows "getValue opd' lane = Inr (reg0 val)"
proof -
  have nil: "foldR f [] = Inr" for f :: "nat \<Rightarrow> Operand \<Rightarrow> Operand res" by (rule ext) simp
  have "set_vector_elem 0 lane (reg0 val) opd = Inr opd'" "lane \<noteq> -1" "\<not> opd_is_imm opd"
    using assms by (auto simp: setValue_reg_def scalar_reg_def assertR_eq_Inr reg_words_def vec_get_def forR_def nil)
  then show ?thesis using assms(2)
    by (auto simp: set_vector_elem_def getValue_def scalar_reg_def vector_elem_def vec_get_def vec_set_def res_simps split: if_splits)
qed

text \<open>
  C26. A vector load finds what a vector store of the same width wrote to the same address, whatever
  the operands the address was computed from: the destination operand receives the stored bytes, extended
  with zeros. (The address is the same for both as long as the compiled shift by 32 is a function of its argument.)
\<close>

theorem vector_store_load_roundtrip:
  assumes "(n, st, ld) \<in> {(8, V_STORE_U8 shl_32, V_LOAD_U8 shl_32), (16, V_STORE_U16 shl_32, V_LOAD_U16 shl_32), (32, V_STORE_U32 shl_32, V_LOAD_U32 shl_32)}"
    and "vmem_reads_back w" "st lane (ins, w) = Inr (ins1, w1)" "ld lane' (ins', w1) = Inr (ins2, w2)"
    and "calculateAddr shl_32 lane' ins' = calculateAddr shl_32 lane ins" "operand_value SRC2 lane ins = Inr v"
    and "getOperand DST ins' = Inr dst" "rg_reg_type (opd_reg dst) = Vector" "rg_range (opd_reg dst) = 1"
  shows "operand_value DST lane' ins2 = Inr (take_bit n v)"
proof -
  obtain k where k: "k \<in> {1, 2, 4}" "n = 8 * k" "vls_store shl_32 (of_nat k) lane (ins, w) = Inr (ins1, w1)"
    "vls_load shl_32 (of_nat k) lane' (ins', w1) = Inr (ins2, w2)"
  proof -
    from assms(1) consider "n = 8" "st = V_STORE_U8 shl_32" "ld = V_LOAD_U8 shl_32" | "n = 16" "st = V_STORE_U16 shl_32" "ld = V_LOAD_U16 shl_32"
      | "n = 32" "st = V_STORE_U32 shl_32" "ld = V_LOAD_U32 shl_32" by blast
    then show ?thesis
    proof cases
      case 1
      then show ?thesis using assms(3,4) that[of 1] by (simp add: V_STORE_U8_def V_LOAD_U8_def)
    next
      case 2
      then show ?thesis using assms(3,4) that[of 2] by (simp add: V_STORE_U16_def V_LOAD_U16_def)
    next
      case 3
      then show ?thesis using assms(3,4) that[of 4] by (simp add: V_STORE_U32_def V_LOAD_U32_def)
    qed
  qed
  have u: "unat (of_nat k :: u32) = k" using k(1) by auto
  let ?bs = "take k (u32_bytes v)"
  obtain addr where a: "calculateAddr shl_32 lane ins = Inr addr" and w1: "w1 = writeVMEM addr ?bs undefined_space w"
    using k(3) assms(6) by (auto simp: vls_store_def res_simps u)
  have len: "length ?bs = k" "k \<le> 16" using k(1) by auto
  have "wst_mem_read w global_space addr (length ?bs) (wst_mem_write w global_space addr ?bs (wst_memory w)) = ?bs"
    using assms(2) len unfolding vmem_reads_back_def by metis
  then have rd: "readVMEM addr (of_nat k) undefined_space w1 = ?bs"
    by (simp add: readVMEM_def read_mem_def w1 writeVMEM_def write_mem_def setupAddrSpace_def u len(1) del: length_take)
  obtain dst' where d: "setValue_reg (reg_t_bytes ?bs) lane' dst = Inr dst'" "ins2 = set_operand DST dst' ins'"
    using k(4) assms(5,7) a rd by (auto simp: vls_load_def res_simps Let_def modify_operand_def)
  have "getValue dst' lane' = Inr (take_bit n v)"
    using setValue_reg_getValue[OF d(1) assms(8,9)] take_bytes_bits[OF k(1)] k(2) by (simp add: reg_t_bytes_def reg_t_u32_def)
  then show ?thesis by (simp add: operand_value_def getOperand_def d(2) set_operand_def deref_def)
qed

text \<open>An address pair of zeros, the offset 8, a value in every lane, and a destination.\<close>

definition sample_vls :: Instruction where
  "sample_vls = makeOperand_reg DST (mk_Reg 4 1 Vector 0)
     (set_operand SRC2 ((new_Operand_reg SRC2 (mk_Reg 2 1 Vector 0))\<lparr>opd_vector_value := [replicate 32 0xA1B2C3D4]\<rparr>)
       (makeOperand_imm SRC1 8 (makeOperand_reg SRC0 (mk_Reg 0 2 Vector 0) (new_Instruction (OTHER_OP 0)))))"

theorem vector_store_load_roundtrip_witness:
  "\<exists>ins1 w1 ins2 w2. V_STORE_U16 (\<lambda>_. Inr 0) 3 (sample_vls, sample_warp) = Inr (ins1, w1) \<and>
     V_LOAD_U16 (\<lambda>_. Inr 0) 5 (sample_vls, w1) = Inr (ins2, w2) \<and> operand_value DST 5 ins2 = Inr 0xC3D4"
proof -
  let ?sh = "\<lambda>_. Inr 0"
  have a: "calculateAddr ?sh 3 sample_vls = Inr 8" "calculateAddr ?sh 5 sample_vls = Inr 8" by code_simp+
  have v: "operand_value SRC2 3 sample_vls = Inr 0xA1B2C3D4" by code_simp
  have d: "getOperand DST sample_vls = Inr (new_Operand_reg DST (mk_Reg 4 1 Vector 0))"
    by (simp add: sample_vls_def makeOperand_reg_def set_operand_def getOperand_def deref_def)
  obtain w1 where w1: "V_STORE_U16 ?sh 3 (sample_vls, sample_warp) = Inr (sample_vls, w1)"
    using a v by (simp add: V_STORE_U16_def vls_store_def)
  have "\<exists>opd. setValue_reg (reg_t_u32 x) 5 (new_Operand_reg DST (mk_Reg 4 1 Vector 0)) = Inr opd" for x
    by (simp add: setValue_reg_def new_Operand_reg_def scalar_reg_def forR_def reg_words_def reg_t_u32_def vec_get_def
        set_vector_elem_def vec_set_def MAX_WARPSIZE_def)
  then obtain ins2 where ld: "V_LOAD_U16 ?sh 5 (sample_vls, w1) = Inr (ins2, w1)"
    using a d by (auto simp: V_LOAD_U16_def vls_load_def modify_operand_def reg_t_bytes_def) (metis bindR.simps(2))
  have "operand_value DST 5 ins2 = Inr (take_bit 16 0xA1B2C3D4)"
    by (rule vector_store_load_roundtrip[where st = "V_STORE_U16 ?sh" and ld = "V_LOAD_U16 ?sh", OF _ sample_memories(2) w1 ld trans[OF a(2) a(1)[symmetric]] v d])
      (simp_all add: new_Operand_reg_def scalar_reg_def)
  then show ?thesis using w1 ld by (simp add: take_bit_eq_mod)
qed

section \<open>The atomic addition of a warp\<close>

definition global_word :: "u32 \<Rightarrow> 'm WarpState \<Rightarrow> u32" where
  "global_word a w = bytes_u32 (readVMEM (ucast a) 4 undefined_space w)"

text \<open>A state after an access by lane \<open>l\<close>: only the memory, the vector registers of the lane and the records moved.\<close>

definition after_access :: "u32 \<Rightarrow> 'm WarpState \<Rightarrow> 'm WarpState \<Rightarrow> bool" where
  "after_access l w w' \<longleftrightarrow> (\<exists>vs m c a n. w' = w\<lparr>wst_vreg := vs, wst_memory := m, wst_vector_memory_global_coherency := c,
       wst_global_memory_access_address := a, wst_global_memory_access_size := n\<rparr> \<and>
       (\<forall>addr k. wst_mem_read w undefined_space addr k m = wst_mem_read w undefined_space addr k (wst_memory w)) \<and>
     (\<forall>i. vreg_writable w' i = vreg_writable w i) \<and> (\<forall>r l'. l' \<noteq> l \<longrightarrow> getVreg r l' w' = getVreg r l' w))"

lemma buffer_addr_same:
  assumes "wst_sreg w' = wst_sreg w" "wst_const_buffer w' = wst_const_buffer w" "wst_kernel_const_reg_num w' = wst_kernel_const_reg_num w"
    and "\<And>addr k. wst_mem_read w' undefined_space addr k (wst_memory w') = wst_mem_read w undefined_space addr k (wst_memory w)"
    and "\<And>r. getVreg r l w' = getVreg r l w"
  shows "buffer_addr cfg b l w' = buffer_addr cfg b l w"
proof -
  have s: "getSreg cfg r w' = getSreg cfg r w" for r by (simp add: getSreg_def getConst_def assms(1-3))
  then show ?thesis by (simp add: buffer_addr_def ReadBufferResource_def getSregMemPtr_def assms(4,5))
qed

lemma after_access_keeps:
  assumes "after_access l w w'"
  shows "vmem_reads_back w' = vmem_reads_back w" "descriptors_apart w' = descriptors_apart w"
    "vreg_writable w' i = vreg_writable w i" "l' \<noteq> l \<Longrightarrow> getVreg r l' w' = getVreg r l' w"
    "l' \<noteq> l \<Longrightarrow> buffer_addr cfg b l' w' = buffer_addr cfg b l' w"
proof -
  show "vmem_reads_back w' = vmem_reads_back w" "descriptors_apart w' = descriptors_apart w"
    using assms by (auto simp: after_access_def vmem_reads_back_def descriptors_apart_def)
  show "vreg_writable w' i = vreg_writable w i" using assms unfolding after_access_def by blast
  show v: "getVreg r l' w' = getVreg r l' w" if "l' \<noteq> l" for r l'
    using assms that by (auto simp: after_access_def)
  show "buffer_addr cfg b l' w' = buffer_addr cfg b l' w" if "l' \<noteq> l"
    by (rule buffer_addr_same[OF _ _ _ _ v[OF that]]) (use assms in \<open>auto simp: after_access_def\<close>)
qed

definition plain_access :: "BytesVMUBUF \<Rightarrow> bool" where
  "plain_access b \<longleftrightarrow> vmu_addr64 b = 0 \<and> vmu_slc b = 0 \<and> vmu_tfe b = 0 \<and> vmu_lds b = 0"

lemma atomic_add_lane:
  assumes "vmem_reads_back w" "descriptors_apart w" "plain_access b" "buffer_addr cfg b l w = Inr a"
    and "getVreg (vmu_vdata b) l w = Inr v" "vreg_writable w (vmu_vdata b, l)"
  obtains w' where "V_BUFFER_ATOMIC_ADD cfg b l w = Inr w'" "after_access l w w'" "global_word a w' = global_word a w + v"
    "getVreg (vmu_vdata b) l w' = Inr (if vmu_glc b \<noteq> 0 then global_word a w else v)"
proof -
  let ?bs = "u32_bytes (v + global_word a w)"
  let ?w = "writeVMEM (ucast a) ?bs undefined_space (SetVectorMemoryGlobalCoherency True w)"
  have coh: "getVreg r k (SetVectorMemoryGlobalCoherency True w) = getVreg r k w"
    "readVMEM x n sp (SetVectorMemoryGlobalCoherency True w) = readVMEM x n sp w" for r k x n sp
    by (simp_all add: SetVectorMemoryGlobalCoherency_def getVreg_def readVMEM_def read_mem_def)
  have gw: "global_word a (SetVectorMemoryGlobalCoherency True w) = global_word a w" by (simp add: global_word_def coh)
  have addr: "buffer_addr cfg b l (SetVectorMemoryGlobalCoherency True w) = Inr a"
    using buffer_addr_same[of "SetVectorMemoryGlobalCoherency True w" w l cfg b] assms(4) coh(1)
    by (simp add: SetVectorMemoryGlobalCoherency_def)
  have fields: "wst_vreg_num ?w = wst_vreg_num w" "wst_warp_size ?w = wst_warp_size w" "wst_vreg ?w = wst_vreg w"
    by (simp_all add: writeVMEM_def write_mem_def setupAddrSpace_def SetVectorMemoryGlobalCoherency_def)
  have wr: "vreg_writable ?w i = vreg_writable w i" for i by (rule vreg_writable_same) (simp_all add: fields)
  have gv: "getVreg r k ?w = getVreg r k w" for r k by (rule getVreg_same) (simp_all add: fields)
  obtain w1 where w1: "(if vmu_glc b \<noteq> 0 then setVreg (vmu_vdata b) (global_word a w) l ?w else Inr ?w) = Inr w1"
    and r1: "getVreg r k w1 = (if vmu_glc b \<noteq> 0 \<and> (r, k) = (vmu_vdata b, l) then Inr (global_word a w) else getVreg r k w)"
    and wr1: "vreg_writable w1 i = vreg_writable w i" and vs: "\<exists>vs. w1 = ?w\<lparr>wst_vreg := vs\<rparr>" for r k i
  proof (cases "vmu_glc b \<noteq> 0")
    case True
    have "vreg_writable ?w (vmu_vdata b, l)" using assms(6) wr by simp
    from vregs.put_one[OF this, of "global_word a w"] obtain w1 where
      1: "setVreg (vmu_vdata b) (global_word a w) l ?w = Inr w1"
        "\<And>j. getVreg (fst j) (snd j) w1 = (if j = (vmu_vdata b, l) then Inr (global_word a w) else getVreg (fst j) (snd j) ?w)"
        "\<And>j. vreg_writable w1 j = vreg_writable ?w j" by auto
    show ?thesis using True 1(1) 1(2)[of "(_, _)"] 1(3) wr gv setVreg_frame[OF 1(1)] by (intro that[of w1]) auto
  next
    case False
    then show ?thesis using wr gv by (intro that[of ?w]) (auto intro: exI[of _ "wst_vreg ?w"])
  qed
  let ?w' = "record_access a 4 w1"
  have "V_BUFFER_ATOMIC_ADD cfg b l w = Inr ?w'"
    using assms(3,5) w1 by (simp add: V_BUFFER_ATOMIC_ADD_def plain_access_def coh addr gw Let_def global_word_def[symmetric] cong: if_cong split del: if_split)
  moreover have rec: "getVreg r k ?w' = getVreg r k w1" "vreg_writable ?w' i = vreg_writable w1 i" for r k i
    by (simp_all add: record_access_def getVreg_def vreg_writable_def)
  have "after_access l w ?w'"
  proof -
    obtain vs where vs: "w1 = ?w\<lparr>wst_vreg := vs\<rparr>" using vs by blast
    have "?w' = w\<lparr>wst_vreg := vs, wst_memory := wst_mem_write w global_space (ucast a) ?bs (wst_memory w),
        wst_vector_memory_global_coherency := True, wst_global_memory_access_address := ucast a, wst_global_memory_access_size := 4\<rparr>"
      by (simp add: vs record_access_def writeVMEM_def write_mem_def setupAddrSpace_def SetVectorMemoryGlobalCoherency_def)
    moreover have "\<forall>addr k. wst_mem_read w undefined_space addr k (wst_mem_write w global_space (ucast a) ?bs (wst_memory w)) =
        wst_mem_read w undefined_space addr k (wst_memory w)" using assms(2) unfolding descriptors_apart_def by blast
    moreover have "\<forall>r l'. l' \<noteq> l \<longrightarrow> getVreg r l' ?w' = getVreg r l' w" by (simp add: rec r1)
    ultimately show ?thesis unfolding after_access_def using rec(2) wr1 by blast
  qed
  moreover have "global_word a ?w' = global_word a w + v"
  proof -
    have "wst_mem_read w global_space (ucast a) (length ?bs) (wst_mem_write w global_space (ucast a) ?bs (wst_memory w)) = ?bs"
      using assms(1) unfolding vmem_reads_back_def by (metis length_u32_bytes numeral_le_iff semiring_norm(68,71))
    then have "readVMEM (ucast a) 4 undefined_space ?w' = ?bs"
      using vs by (auto simp: readVMEM_def read_mem_def setupAddrSpace_def record_access_def writeVMEM_def write_mem_def SetVectorMemoryGlobalCoherency_def)
    then show ?thesis by (simp add: global_word_def bytes_u32_bytes add.commute)
  qed
  ultimately show ?thesis using that[of ?w'] r1 rec assms(5) by auto
qed

lemma atomic_add_fold:
  assumes "vmem_reads_back w" "descriptors_apart w" "plain_access b" "distinct ls"
    and "\<forall>l \<in> set ls. buffer_addr cfg b l w = Inr a" "\<forall>l \<in> set ls. getVreg (vmu_vdata b) l w = Inr (v l)"
    and "\<forall>l \<in> set ls. vreg_writable w (vmu_vdata b, l)"
  shows "\<exists>w'. foldR (V_BUFFER_ATOMIC_ADD cfg b) ls w = Inr w' \<and>
    global_word a w' = global_word a w + sum_list (map v ls) \<and>
    (vmu_glc b \<noteq> 0 \<longrightarrow> (\<forall>k < length ls. getVreg (vmu_vdata b) (ls ! k) w' = Inr (global_word a w + sum_list (map v (take k ls))))) \<and>
    (\<forall>r l'. l' \<notin> set ls \<longrightarrow> getVreg r l' w' = getVreg r l' w)"
  using assms
proof (induction ls arbitrary: w)
  case (Cons l ls)
  obtain w1 where w1: "V_BUFFER_ATOMIC_ADD cfg b l w = Inr w1" and acc: "after_access l w w1"
    and word: "global_word a w1 = global_word a w + v l"
    and own: "getVreg (vmu_vdata b) l w1 = Inr (if vmu_glc b \<noteq> 0 then global_word a w else v l)"
    using atomic_add_lane[OF Cons.prems(1-3), of cfg l a "v l"] Cons.prems(5-7) by auto
  have other: "l' \<noteq> l" if "l' \<in> set ls" for l' using Cons.prems(4) that by auto
  note keeps = after_access_keeps[OF acc]
  obtain w' where w': "foldR (V_BUFFER_ATOMIC_ADD cfg b) ls w1 = Inr w'"
    and word': "global_word a w' = global_word a w1 + sum_list (map v ls)"
    and got: "vmu_glc b \<noteq> 0 \<longrightarrow> (\<forall>k < length ls. getVreg (vmu_vdata b) (ls ! k) w' = Inr (global_word a w1 + sum_list (map v (take k ls))))"
    and frame: "\<forall>r l'. l' \<notin> set ls \<longrightarrow> getVreg r l' w' = getVreg r l' w1"
    using Cons.IH[of w1] Cons.prems keeps other by auto
  have "getVreg (vmu_vdata b) ((l # ls) ! k) w' = Inr (global_word a w + sum_list (map v (take k (l # ls))))"
    if "vmu_glc b \<noteq> 0" "k < length (l # ls)" for k
    using that own got frame Cons.prems(4) by (cases k) (auto simp: word add.assoc)
  moreover have "\<forall>r l'. l' \<notin> set (l # ls) \<longrightarrow> getVreg r l' w' = getVreg r l' w" using frame keeps(4) by auto
  ultimately show ?case using w1 w' word word' by (intro exI[of _ w']) (simp add: add.assoc)
qed simp

text \<open>
  C25. When lanes of a warp add to the same word of a buffer, no addition is lost: in whatever order the
  lanes run, the word ends as its old value plus the sum of all lanes' values, and with the \<open>glc\<close>
  bit each lane receives what the word held before its own addition.
\<close>

theorem atomic_add_lanes:
  assumes "vmem_reads_back w" "descriptors_apart w" "plain_access b" "distinct ls"
    and "\<forall>l \<in> set ls. buffer_addr cfg b l w = Inr a" "\<forall>l \<in> set ls. getVreg (vmu_vdata b) l w = Inr (v l)"
    and "\<forall>l \<in> set ls. vreg_writable w (vmu_vdata b, l)"
  shows "\<exists>w'. foldR (V_BUFFER_ATOMIC_ADD cfg b) ls w = Inr w' \<and>
    global_word a w' = global_word a w + sum_list (map v ls) \<and>
    (vmu_glc b \<noteq> 0 \<longrightarrow> (\<forall>k < length ls. getVreg (vmu_vdata b) (ls ! k) w' = Inr (global_word a w + sum_list (map v (take k ls)))))"
  using atomic_add_fold[OF assms] by blast

text \<open>A warp whose buffer descriptors are zero, and an addition at address 8 that returns the old value.\<close>

definition buffer_warp :: "(u64 \<Rightarrow> u8) WarpState" where
  "buffer_warp = sample_warp\<lparr>wst_mem_read := (\<lambda>sp addr n m. if sp = undefined_space then replicate n 0 else bytes_read addr n m)\<rparr>"

definition sample_vmu :: BytesVMUBUF where
  "sample_vmu = \<lparr>vmu_op = 0, vmu_offset = 3, vmu_offen = 0, vmu_idxen = 0, vmu_glc = 1, vmu_addr64 = 0, vmu_lds = 0,
     vmu_vaddr = 0, vmu_vdata = 4, vmu_srsrc = 2, vmu_slc = 0, vmu_tfe = 0, vmu_soffset = 5\<rparr>"

lemma buffer_warp_regs:
  "r < 8 \<Longrightarrow> l < 32 \<Longrightarrow> getVreg r l buffer_warp = Inr (r * 32 + l)" "r < 8 \<Longrightarrow> l < 32 \<Longrightarrow> vreg_writable buffer_warp (r, l)"
  using getVreg_same[of buffer_warp sample_warp r l] vreg_writable_same[of buffer_warp sample_warp] sample_vreg
  by (simp_all add: buffer_warp_def)

lemma buffer_warp_memories: "vmem_reads_back buffer_warp" "descriptors_apart buffer_warp"
  by (simp_all add: vmem_reads_back_def descriptors_apart_def buffer_warp_def sample_warp_def bytes_read_write)

lemma buffer_warp_addr: "buffer_addr sample_cfg sample_vmu l buffer_warp = Inr 8"
proof -
  have "getSreg sample_cfg r buffer_warp = getSreg sample_cfg r sample_warp" for r
    by (simp add: buffer_warp_def getSreg_def getConst_def)
  moreover have "wst_mem_read buffer_warp undefined_space a n m = replicate n 0" for a n m by (simp add: buffer_warp_def)
  moreover have "words_of_bytes 4 (replicate 16 0) = [0, 0, 0, 0]" by code_simp
  ultimately show ?thesis
    by (simp add: buffer_addr_def ReadBufferResource_def getSregMemPtr_def sample_vmu_def desc_base_addr_def desc_stride_def Let_def)
qed

theorem atomic_add_lanes_witness:
  "\<exists>w'. foldR (V_BUFFER_ATOMIC_ADD sample_cfg sample_vmu) [2, 0, 1] buffer_warp = Inr w' \<and> global_word 8 w' = 0x0B0A0A8B \<and>
     getVreg 4 2 w' = Inr 0x0B0A0908 \<and> getVreg 4 0 w' = Inr 0x0B0A098A \<and> getVreg 4 1 w' = Inr 0x0B0A0A0A"
proof -
  have old: "global_word 8 buffer_warp = 0x0B0A0908"
    by (simp add: global_word_def readVMEM_def read_mem_def setupAddrSpace_def buffer_warp_def sample_warp_def bytes_read_def upt_rec)
  have f: "vmu_vdata sample_vmu = 4" "vmu_glc sample_vmu = 1" "plain_access sample_vmu" by (simp_all add: sample_vmu_def plain_access_def)
  have "\<exists>w'. foldR (V_BUFFER_ATOMIC_ADD sample_cfg sample_vmu) [2, 0, 1] buffer_warp = Inr w' \<and>
    global_word 8 w' = global_word 8 buffer_warp + sum_list (map (\<lambda>l. 4 * 32 + l) [2, 0, 1]) \<and>
    (vmu_glc sample_vmu \<noteq> 0 \<longrightarrow> (\<forall>k < length [2, 0, 1 :: u32]. getVreg (vmu_vdata sample_vmu) ([2, 0, 1] ! k) w' =
      Inr (global_word 8 buffer_warp + sum_list (map (\<lambda>l. 4 * 32 + l) (take k [2, 0, 1])))))"
    by (rule atomic_add_lanes[OF buffer_warp_memories f(3)]) (simp_all add: buffer_warp_addr buffer_warp_regs f)
  then obtain w' where "foldR (V_BUFFER_ATOMIC_ADD sample_cfg sample_vmu) [2, 0, 1] buffer_warp = Inr w'"
    "global_word 8 w' = 0x0B0A0A8B" "\<forall>k < 3. getVreg 4 ([2, 0, 1] ! k) w' = Inr (0x0B0A0908 + sum_list (map (\<lambda>l. 128 + l) (take k [2, 0, 1])))"
    by (auto simp: old f)
  then show ?thesis using spec[of _ "0 :: nat"] by (intro exI[of _ w']) (auto simp: All_less_Suc numeral_3_eq_3)
qed

end
