(* ===== verification/Operand_Facts.thy ===== *)
theory Operand_Facts
  imports VOP3_ISA Memory_ISA Sample_State
begin

text \<open>
  The typing of operands, and what it gives: the storage of an operand fits its register, the decoders
  and every operation on operands keep it so, and no access of a lane is out of range. On top of
  it, the data path of the vector instructions - collect the operands, run the handler in the active
  lanes, write back - is shown to do what an instruction says: each active lane of the
  destination register receives the handler's function of the lane's sources, and nothing else moves.
\<close>

section \<open>Well-formed operands\<close>

definition operand_ok :: "Operand \<Rightarrow> bool" where
  "operand_ok opd \<longleftrightarrow>
     (if opd_is_imm opd then True
      else if scalar_reg (rg_reg_type (opd_reg opd)) then length (opd_value opd) = unat (rg_range (opd_reg opd))
      else length (opd_vector_value opd) = unat (rg_range (opd_reg opd)) \<and>
        (\<forall>vs \<in> set (opd_vector_value opd). length vs = MAX_WARPSIZE) \<and>
        length (opd_is_vector_ready opd) = MAX_WARPSIZE)"

text \<open>The operations change the stored values of an operand, not what it stands for.\<close>

definition same_register :: "Operand \<Rightarrow> Operand \<Rightarrow> bool" where
  "same_register opd opd' \<longleftrightarrow> opd_name opd' = opd_name opd \<and> opd_is_imm opd' = opd_is_imm opd \<and>
     opd_imm opd' = opd_imm opd \<and> opd_reg opd' = opd_reg opd"

definition operand_step :: "Operand \<Rightarrow> Operand \<Rightarrow> bool" where
  "operand_step opd opd' \<longleftrightarrow> same_register opd opd' \<and> (operand_ok opd \<longrightarrow> operand_ok opd')"

lemma operand_step_refl [simp]: "operand_step opd opd"
  by (simp add: operand_step_def same_register_def)

lemma operand_step_trans: "operand_step a b \<Longrightarrow> operand_step b c \<Longrightarrow> operand_step a c"
  by (auto simp: operand_step_def same_register_def)

named_theorems operand_steps \<open>the operations that keep operands well-formed\<close>

lemma store_steps [operand_steps]:
  "operand_step opd (opd\<lparr>opd_is_scalar_ready := b\<rparr>)" "operand_step opd (opd\<lparr>opd_range := r\<rparr>)"
  "length vs = length (opd_value opd) \<Longrightarrow> operand_step opd (opd\<lparr>opd_value := vs\<rparr>)"
  "length vs = length (opd_value opd) \<Longrightarrow> operand_step opd (opd\<lparr>opd_is_scalar_ready := b, opd_value := vs\<rparr>)"
  "length rs = length (opd_is_vector_ready opd) \<Longrightarrow> length vs = MAX_WARPSIZE \<Longrightarrow>
    operand_step opd (opd\<lparr>opd_is_vector_ready := rs, opd_vector_value := (opd_vector_value opd)[i := vs]\<rparr>)"
  by (auto simp: operand_step_def same_register_def operand_ok_def Let_def dest!: set_update_subset_insert[THEN subsetD])

lemma set_vector_elem_step [operand_steps]:
  assumes "set_vector_elem i lane v opd = Inr opd'"
  shows "operand_step opd opd'"
proof -
  let ?rs = "(opd_is_vector_ready opd)[unat lane := True]" and ?vs = "(opd_vector_value opd ! i)[unat lane := v]"
  have "i < length (opd_vector_value opd)"
    and r: "opd' = opd\<lparr>opd_is_vector_ready := ?rs, opd_vector_value := (opd_vector_value opd)[i := ?vs]\<rparr>"
    using assms by (auto simp: set_vector_elem_def res_simps)
  then have "length ?vs \<in> length ` set (opd_vector_value opd)" by auto
  then show ?thesis unfolding r
    by (auto simp: operand_step_def same_register_def operand_ok_def dest!: set_update_subset_insert[THEN subsetD])
qed

lemma forR_step:
  assumes "forR n f opd = Inr opd'" "\<And>i u v. f i u = Inr v \<Longrightarrow> operand_step u v"
  shows "operand_step opd opd'"
  by (rule forR_invariant[OF assms(1), where P = "operand_step opd"]) (auto intro: operand_step_trans assms(2))

lemma setters_step [operand_steps]:
  "setValue v lane opd = Inr opd' \<Longrightarrow> operand_step opd opd'"
  "setValue_reg val lane opd = Inr opd' \<Longrightarrow> operand_step opd opd'"
  "setValueX vals lane opd = Inr opd' \<Longrightarrow> operand_step opd opd'"
  "setBitmask b lane opd = Inr opd' \<Longrightarrow> operand_step opd opd'"
proof -
  show "setValue v lane opd = Inr opd' \<Longrightarrow> operand_step opd opd'"
    by (auto simp: setValue_def res_simps split: if_splits intro: operand_steps)
  show "setBitmask b lane opd = Inr opd' \<Longrightarrow> operand_step opd opd'"
    by (auto simp: setBitmask_def res_simps split: if_splits intro: operand_steps)
  have words: "operand_step a b" if "forR n (\<lambda>i u. bindR (vec_get xs i) (\<lambda>x. bindR (vec_set (opd_value u) (j i) x)
      (\<lambda>vs. Inr (u\<lparr>opd_value := vs\<rparr>)))) a = Inr b" for n xs a b and j :: "nat \<Rightarrow> nat"
    by (rule forR_step[OF that]) (auto simp: res_simps intro: operand_steps)
  have elems: "operand_step a b" if "forR n (\<lambda>i u. bindR (vec_get xs i) (\<lambda>x. set_vector_elem i lane x u)) a = Inr b" for n xs a b
    by (rule forR_step[OF that]) (auto simp: res_simps intro: operand_steps)
  note ready = operand_step_trans[OF store_steps(1)[of opd True]]
  show "setValue_reg val lane opd = Inr opd' \<Longrightarrow> operand_step opd opd'"
    by (auto simp: setValue_reg_def assertR_eq_Inr split: if_splits intro: ready dest!: words elems)
  show "setValueX vals lane opd = Inr opd' \<Longrightarrow> operand_step opd opd'"
    by (auto simp: setValueX_def assertR_eq_Inr split: if_splits intro: ready dest!: words elems)
qed

section \<open>The words of a lane\<close>

text \<open>What an operand holds for a lane, one word per register.\<close>

definition lane_words :: "Operand \<Rightarrow> u32 \<Rightarrow> u32 list" where
  "lane_words opd lane = map (\<lambda>vs. vs ! unat lane) (opd_vector_value opd)"

definition operand_words :: "Operand \<Rightarrow> u32 \<Rightarrow> u32 list" where
  "operand_words opd lane =
     (if opd_is_imm opd then [opd_imm opd]
      else if scalar_reg (rg_reg_type (opd_reg opd)) then opd_value opd
      else lane_words opd lane)"

abbreviation is_vector :: "Operand \<Rightarrow> bool" where
  "is_vector opd \<equiv> \<not> opd_is_imm opd \<and> \<not> scalar_reg (rg_reg_type (opd_reg opd))"

lemma lane_words_length [simp]: "length (lane_words opd lane) = length (opd_vector_value opd)"
  by (simp add: lane_words_def)

lemma operand_words_length: "operand_ok opd \<Longrightarrow>
    length (operand_words opd lane) = (if opd_is_imm opd then 1 else unat (rg_range (opd_reg opd)))"
  by (simp add: operand_words_def operand_ok_def)

lemma lane_not_default: "unat (lane :: u32) < MAX_WARPSIZE \<Longrightarrow> lane \<noteq> -1"
proof -
  assume "unat lane < MAX_WARPSIZE"
  then have "lane < 32" by (simp add: MAX_WARPSIZE_def word_less_nat_alt)
  then show "lane \<noteq> -1" by auto
qed

lemma vector_elem_ok:
  assumes "operand_ok opd" "is_vector opd" "i < unat (rg_range (opd_reg opd))" "unat lane < MAX_WARPSIZE"
  shows "vector_elem opd i lane = Inr (lane_words opd lane ! i)"
proof -
  have "i < length (opd_vector_value opd)" "length (opd_vector_value opd ! i) = MAX_WARPSIZE"
    using assms nth_mem[of i "opd_vector_value opd"] by (auto simp: operand_ok_def)
  then show ?thesis using assms(4) by (simp add: vector_elem_def vec_get_def lane_words_def)
qed

lemma vector_elems_ok:
  assumes "operand_ok opd" "is_vector opd" "n \<le> unat (rg_range (opd_reg opd))" "unat lane < MAX_WARPSIZE"
  shows "vector_elems opd n lane = Inr (take n (lane_words opd lane))"
  using assms(3)
proof (induction n)
  case (Suc n)
  then have "n < length (lane_words opd lane)" using assms by (simp add: operand_ok_def)
  then show ?case using Suc assms vector_elem_ok by (simp add: take_Suc_conv_app_nth)
qed simp

lemma getValueX_ok:
  assumes "operand_ok opd" "unat lane < MAX_WARPSIZE"
  shows "getValueX opd lane = Inr (operand_words opd lane)"
proof (cases "is_vector opd")
  case True
  then have "unat (rg_range (opd_reg opd)) = length (lane_words opd lane)" using assms by (simp add: operand_ok_def)
  then show ?thesis
    using True assms vector_elems_ok[of opd "unat (rg_range (opd_reg opd))" lane] lane_not_default[of lane]
    by (simp add: getValueX_def operand_words_def)
qed (auto simp: getValueX_def operand_words_def)

lemma getValue_ok:
  assumes "operand_ok opd" "unat lane < MAX_WARPSIZE" "0 < rg_range (opd_reg opd)"
  shows "getValue opd lane = Inr (operand_words opd lane ! 0)"
proof -
  have "0 < unat (rg_range (opd_reg opd))" using assms(3) by (simp add: unat_gt_0)
  then show ?thesis
    using assms vector_elem_ok[of opd 0 lane] lane_not_default[of lane]
    by (auto simp: getValue_def operand_words_def vec_get_def operand_ok_def)
qed

text \<open>A store to one element of a vector operand is a store to one word of one lane.\<close>

lemma set_vector_elem_ok:
  assumes "operand_ok opd" "is_vector opd" "i < unat (rg_range (opd_reg opd))" "unat lane < MAX_WARPSIZE"
  obtains opd' where "set_vector_elem i lane v opd = Inr opd'" "operand_step opd opd'"
    "\<And>l. unat l < MAX_WARPSIZE \<Longrightarrow> lane_words opd' l = (if l = lane then (lane_words opd l)[i := v] else lane_words opd l)"
    "opd_is_vector_ready opd' = (opd_is_vector_ready opd)[unat lane := True]"
proof -
  let ?rs = "(opd_is_vector_ready opd)[unat lane := True]" and ?vs = "(opd_vector_value opd ! i)[unat lane := v]"
  let ?opd = "opd\<lparr>opd_is_vector_ready := ?rs, opd_vector_value := (opd_vector_value opd)[i := ?vs]\<rparr>"
  have l: "i < length (opd_vector_value opd)" "length (opd_vector_value opd ! i) = MAX_WARPSIZE"
    "length (opd_is_vector_ready opd) = MAX_WARPSIZE"
    using assms nth_mem[of i "opd_vector_value opd"] by (auto simp: operand_ok_def)
  then have s: "set_vector_elem i lane v opd = Inr ?opd"
    using assms(4) by (simp add: set_vector_elem_def vec_get_def vec_set_def)
  have w: "lane_words ?opd m = (if m = lane then (lane_words opd m)[i := v] else lane_words opd m)"
    if "unat m < MAX_WARPSIZE" for m
  proof (cases "m = lane")
    case True
    then show ?thesis using l assms(4) by (auto simp: lane_words_def map_update)
  next
    case False
    then have "?vs ! unat m = opd_vector_value opd ! i ! unat m" by (simp add: word_unat_eq_iff)
    then show ?thesis
      using False l list_update_id[of "lane_words opd m" i] by (simp add: lane_words_def map_update)
  qed
  show thesis by (rule that[OF s set_vector_elem_step[OF s]]) (auto simp: w)
qed

text \<open>A loop that stores a word per register.\<close>

lemma store_words_ok:
  assumes "operand_ok opd" "is_vector opd" "n \<le> unat (rg_range (opd_reg opd))" "n \<le> length xs" "unat lane < MAX_WARPSIZE"
  obtains opd' where "forR n (\<lambda>i opd. bindR (vec_get xs i) (\<lambda>x. set_vector_elem i lane x opd)) opd = Inr opd'"
    "operand_step opd opd'" "lane_words opd' lane = take n xs @ drop n (lane_words opd lane)"
    "\<And>l. unat l < MAX_WARPSIZE \<Longrightarrow> l \<noteq> lane \<Longrightarrow> lane_words opd' l = lane_words opd l"
proof -
  let ?P = "\<lambda>i u. operand_step opd u \<and> lane_words u lane = take i xs @ drop i (lane_words opd lane) \<and>
    (\<forall>l. unat l < MAX_WARPSIZE \<and> l \<noteq> lane \<longrightarrow> lane_words u l = lane_words opd l)"
  have "\<exists>t. forR n (\<lambda>i opd. bindR (vec_get xs i) (\<lambda>x. set_vector_elem i lane x opd)) opd = Inr t \<and> ?P n t"
  proof (rule forR_upto)
    fix i u assume i: "i < n" and P: "?P i u"
    then have "operand_ok u" "is_vector u" "i < unat (rg_range (opd_reg u))" 
      using assms by (auto simp: operand_step_def same_register_def)
    then obtain v where v: "set_vector_elem i lane (xs ! i) u = Inr v" "operand_step u v"
      "\<And>l. unat l < MAX_WARPSIZE \<Longrightarrow> lane_words v l = (if l = lane then (lane_words u l)[i := xs ! i] else lane_words u l)"
      using set_vector_elem_ok[of u i lane "xs ! i"] assms(5) by metis
    have n: "length (lane_words opd lane) = unat (rg_range (opd_reg opd))" using assms by (simp add: operand_ok_def)
    have "(take i xs @ drop i (lane_words opd lane))[i := xs ! i] = take (Suc i) xs @ drop (Suc i) (lane_words opd lane)"
      using i assms(3,4) n by (simp add: list_update_append take_Suc_conv_app_nth Cons_nth_drop_Suc[symmetric])
    then show "\<exists>v. bindR (vec_get xs i) (\<lambda>x. set_vector_elem i lane x u) = Inr v \<and> ?P (Suc i) v"
      using v P i assms(4,5) operand_step_trans[of opd u v] by (simp add: vec_get_def)
  qed simp
  then show thesis using that by blast
qed

section \<open>Setting and getting\<close>

lemma setValue_ok:
  assumes "operand_ok opd" "\<not> opd_is_imm opd" "unat lane < MAX_WARPSIZE" "0 < rg_range (opd_reg opd)"
  obtains opd' where "setValue v lane opd = Inr opd'" "operand_ok opd'" "same_register opd opd'"
    "operand_words opd' lane = (operand_words opd lane)[0 := v]"
    "\<And>l. is_vector opd \<Longrightarrow> unat l < MAX_WARPSIZE \<Longrightarrow> l \<noteq> lane \<Longrightarrow> operand_words opd' l = operand_words opd l"
    "is_vector opd \<Longrightarrow> opd_is_vector_ready opd' = (opd_is_vector_ready opd)[unat lane := True]"
proof -
  have n: "0 < unat (rg_range (opd_reg opd))" using assms(4) by (simp add: unat_gt_0)
  have "\<exists>opd'. setValue v lane opd = Inr opd' \<and> operand_words opd' lane = (operand_words opd lane)[0 := v] \<and>
    (is_vector opd \<longrightarrow> (\<forall>l. unat l < MAX_WARPSIZE \<and> l \<noteq> lane \<longrightarrow> operand_words opd' l = operand_words opd l) \<and>
      opd_is_vector_ready opd' = (opd_is_vector_ready opd)[unat lane := True])"
  proof (cases "scalar_reg (rg_reg_type (opd_reg opd))")
    case True
    then show ?thesis
      using assms n by (simp add: setValue_def vec_set_def operand_ok_def operand_words_def)
  next
    case False
    then obtain opd' where "set_vector_elem 0 lane v opd = Inr opd'" "operand_step opd opd'"
      "\<And>l. unat l < MAX_WARPSIZE \<Longrightarrow> lane_words opd' l = (if l = lane then (lane_words opd l)[0 := v] else lane_words opd l)"
      "opd_is_vector_ready opd' = (opd_is_vector_ready opd)[unat lane := True]"
      using set_vector_elem_ok[of opd 0 lane v] assms n by metis
    then show ?thesis
      using False assms lane_not_default[of lane]
      by (auto simp: setValue_def operand_words_def operand_step_def same_register_def)
  qed
  then show thesis
    using that setters_step(1)[of v lane opd] assms(1) unfolding operand_step_def by blast
qed

lemma setValueX_ok:
  assumes "operand_ok opd" "\<not> opd_is_imm opd" "unat lane < MAX_WARPSIZE" "length vs = unat (rg_range (opd_reg opd))"
  obtains opd' where "setValueX vs lane opd = Inr opd'" "operand_ok opd'" "same_register opd opd'"
    "operand_words opd' lane = vs"
    "\<And>l. is_vector opd \<Longrightarrow> unat l < MAX_WARPSIZE \<Longrightarrow> l \<noteq> lane \<Longrightarrow> operand_words opd' l = operand_words opd l"
proof -
  let ?n = "unat (rg_range (opd_reg opd))" and ?ready = "opd\<lparr>opd_is_scalar_ready := True\<rparr>"
  have "\<exists>opd'. setValueX vs lane opd = Inr opd' \<and> operand_words opd' lane = vs \<and>
    (is_vector opd \<longrightarrow> (\<forall>l. unat l < MAX_WARPSIZE \<and> l \<noteq> lane \<longrightarrow> operand_words opd' l = operand_words opd l))"
  proof (cases "scalar_reg (rg_reg_type (opd_reg opd))")
    case True
    let ?P = "\<lambda>i u. operand_step opd u \<and> opd_value u = take i vs @ drop i (opd_value opd)"
    have len: "length (opd_value opd) = ?n" using True assms by (simp add: operand_ok_def)
    have "\<exists>t. forR ?n (\<lambda>i opd. bindR (vec_get vs i) (\<lambda>x. bindR (vec_set (opd_value opd) i x)
        (\<lambda>vs. Inr (opd\<lparr>opd_value := vs\<rparr>)))) ?ready = Inr t \<and> ?P ?n t"
    proof (rule forR_upto)
      fix i u assume i: "i < ?n" and P: "?P i u"
      have "(take i vs @ drop i (opd_value opd))[i := vs ! i] = take (Suc i) vs @ drop (Suc i) (opd_value opd)"
        using i assms(4) len by (simp add: list_update_append take_Suc_conv_app_nth Cons_nth_drop_Suc[symmetric])
      then show "\<exists>v. bindR (vec_get vs i) (\<lambda>x. bindR (vec_set (opd_value u) i x) (\<lambda>vs. Inr (u\<lparr>opd_value := vs\<rparr>))) = Inr v \<and> ?P (Suc i) v"
        using i P assms(4) len operand_step_trans[OF _ store_steps(3), of opd u] by (simp add: vec_get_def vec_set_def)
    qed (simp add: operand_steps)
    then obtain t where "setValueX vs lane opd = Inr t" "operand_step opd t" "opd_value t = vs"
      using True assms(2,4) len by (auto simp: setValueX_def)
    then show ?thesis using True assms(2) by (auto simp: operand_words_def operand_step_def same_register_def)
  next
    case False
    then obtain opd' where "forR ?n (\<lambda>i opd. bindR (vec_get vs i) (\<lambda>x. set_vector_elem i lane x opd)) opd = Inr opd'"
      "operand_step opd opd'" "lane_words opd' lane = take ?n vs @ drop ?n (lane_words opd lane)"
      "\<And>l. unat l < MAX_WARPSIZE \<Longrightarrow> l \<noteq> lane \<Longrightarrow> lane_words opd' l = lane_words opd l"
      using store_words_ok[of opd ?n vs lane] assms by auto
    then show ?thesis
      using False assms lane_not_default[of lane]
      by (auto simp: setValueX_def operand_words_def operand_step_def same_register_def operand_ok_def)
  qed
  then show thesis
    using that setters_step(3)[of vs lane opd] assms(1) unfolding operand_step_def by blast
qed

text \<open>
  C16. Well-formed operands are safe and faithful: whatever the kind of the register, every lane of the
  warp can be read and written without leaving the operand's storage, the operand stays well-formed and
  names the same register, a read returns the words last set for the lane, and setting a lane of a vector operand
  leaves the words of all other lanes.
\<close>

theorem operand_type_safety:
  assumes "operand_ok opd" "\<not> opd_is_imm opd" "unat lane < MAX_WARPSIZE" "0 < rg_range (opd_reg opd)"
    and "length vs = unat (rg_range (opd_reg opd))"
  shows "(\<exists>opd'. setValue v lane opd = Inr opd' \<and> operand_ok opd' \<and> opd_reg opd' = opd_reg opd \<and>
      getValue opd' lane = Inr v \<and>
      (is_vector opd \<longrightarrow> (\<forall>l. unat l < MAX_WARPSIZE \<and> l \<noteq> lane \<longrightarrow> getValueX opd' l = getValueX opd l))) \<and>
    (\<exists>opd'. setValueX vs lane opd = Inr opd' \<and> operand_ok opd' \<and> opd_reg opd' = opd_reg opd \<and>
      getValueX opd' lane = Inr vs \<and>
      (is_vector opd \<longrightarrow> (\<forall>l. unat l < MAX_WARPSIZE \<and> l \<noteq> lane \<longrightarrow> getValueX opd' l = getValueX opd l)))"
proof (intro conjI)
  have n: "0 < unat (rg_range (opd_reg opd))" using assms(4) by (simp add: unat_gt_0)
  obtain a where a: "setValue v lane opd = Inr a" "operand_ok a" "same_register opd a"
    "operand_words a lane = (operand_words opd lane)[0 := v]"
    "\<And>l. is_vector opd \<Longrightarrow> unat l < MAX_WARPSIZE \<Longrightarrow> l \<noteq> lane \<Longrightarrow> operand_words a l = operand_words opd l"
    using setValue_ok[OF assms(1-4), of v] by metis
  then have "getValue a lane = Inr v"
    using getValue_ok[of a lane] assms n operand_words_length[of opd lane] by (simp add: same_register_def)
  then show "\<exists>opd'. setValue v lane opd = Inr opd' \<and> operand_ok opd' \<and> opd_reg opd' = opd_reg opd \<and>
      getValue opd' lane = Inr v \<and>
      (is_vector opd \<longrightarrow> (\<forall>l. unat l < MAX_WARPSIZE \<and> l \<noteq> lane \<longrightarrow> getValueX opd' l = getValueX opd l))"
    using a getValueX_ok assms(1) by (auto simp: same_register_def)
  obtain b where "setValueX vs lane opd = Inr b" "operand_ok b" "same_register opd b" "operand_words b lane = vs"
    "\<And>l. is_vector opd \<Longrightarrow> unat l < MAX_WARPSIZE \<Longrightarrow> l \<noteq> lane \<Longrightarrow> operand_words b l = operand_words opd l"
    using setValueX_ok[OF assms(1-3,5)] by metis
  then show "\<exists>opd'. setValueX vs lane opd = Inr opd' \<and> operand_ok opd' \<and> opd_reg opd' = opd_reg opd \<and>
      getValueX opd' lane = Inr vs \<and>
      (is_vector opd \<longrightarrow> (\<forall>l. unat l < MAX_WARPSIZE \<and> l \<noteq> lane \<longrightarrow> getValueX opd' l = getValueX opd l))"
    using getValueX_ok assms(1,3) by (auto simp: same_register_def)
qed

lemma new_operand_ok: "operand_ok (new_Operand_reg name reg)" "operand_ok (new_Operand_imm name imm)"
  by (simp_all add: operand_ok_def new_Operand_reg_def new_Operand_imm_def Let_def)

theorem operand_type_safety_witness:
  "\<exists>opd'. setValueX [7, 9] 31 (new_Operand_reg DST (mk_Reg 4 2 Vector 0)) = Inr opd' \<and> operand_ok opd' \<and>
     getValueX opd' 31 = Inr [7, 9] \<and> getValueX opd' 30 = Inr [0, 0]"
proof -
  let ?opd = "new_Operand_reg DST (mk_Reg 4 2 Vector 0)"
  have f: "is_vector ?opd" "opd_reg ?opd = mk_Reg 4 2 Vector 0" by (simp_all add: new_Operand_reg_def Let_def scalar_reg_def)
  have "getValueX ?opd 30 = Inr [0, 0]" by code_simp
  moreover have "unat (31 :: u32) < MAX_WARPSIZE" "unat (30 :: u32) < MAX_WARPSIZE" by (simp_all add: MAX_WARPSIZE_def)
  ultimately show ?thesis
    using operand_type_safety[of ?opd 31 "[7, 9]" 5] new_operand_ok(1)[of DST "mk_Reg 4 2 Vector 0"] f by auto
qed

section \<open>Well-formed instructions\<close>

definition inst_ok :: "Instruction \<Rightarrow> bool" where
  "inst_ok ins \<longleftrightarrow> (\<forall>name opd. ins_operands ins name = Some opd \<longrightarrow> operand_ok opd)"

lemma inst_ok_set [intro]: "inst_ok ins \<Longrightarrow> operand_ok opd \<Longrightarrow> inst_ok (set_operand name opd ins)"
  by (simp add: inst_ok_def set_operand_def)

lemma inst_ok_make [intro]:
  "inst_ok ins \<Longrightarrow> inst_ok (makeOperand_reg name reg ins)" "inst_ok ins \<Longrightarrow> inst_ok (makeOperand_imm name imm ins)"
  by (auto simp: makeOperand_reg_def makeOperand_imm_def new_operand_ok)

lemma inst_ok_fields [simp]:
  "inst_ok (ins\<lparr>ins_m_size := s\<rparr>) = inst_ok ins" "inst_ok (ins\<lparr>ins_m_decoded := d\<rparr>) = inst_ok ins"
  "inst_ok (ins\<lparr>ins_m_is_warp_op := p\<rparr>) = inst_ok ins" "inst_ok (ins\<lparr>ins_m_isatomic := q\<rparr>) = inst_ok ins"
  "inst_ok (ins\<lparr>ins_num_src_operands := n\<rparr>) = inst_ok ins" "inst_ok (ins\<lparr>ins_num_dst_operands := n'\<rparr>) = inst_ok ins"
  by (simp_all add: inst_ok_def)

lemma new_inst_ok: "inst_ok (new_Instruction oper)"
  by (simp add: inst_ok_def new_Instruction_def)

lemma modify_operand_ok:
  assumes "modify_operand name f ins = Inr ins'" "inst_ok ins" "\<And>opd opd'. f opd = Inr opd' \<Longrightarrow> operand_ok opd \<Longrightarrow> operand_ok opd'"
  shows "inst_ok ins'"
  using assms by (auto simp: modify_operand_def getOperand_def res_simps inst_ok_def set_operand_def split: if_splits)

lemma set_dst_ok:
  "set_dst v lane ins = Inr ins' \<Longrightarrow> inst_ok ins \<Longrightarrow> inst_ok ins'"
  "set_dst_pair v2 lane ins = Inr ins' \<Longrightarrow> inst_ok ins \<Longrightarrow> inst_ok ins'"
  unfolding set_dst_def set_dst_pair_def
  by (auto elim!: modify_operand_ok dest: setters_step simp: operand_step_def)

lemma dsrc0_ok: "inst_ok ins \<Longrightarrow> inst_ok (dsrc0_Decode cfg imm dsrc0 src0 isize ext ext0 rng name ins)"
  by (auto simp: dsrc0_Decode_def Let_def)

lemma inst_ok_if: "(c \<Longrightarrow> inst_ok a) \<Longrightarrow> (\<not> c \<Longrightarrow> inst_ok b) \<Longrightarrow> inst_ok (if c then a else b)"
  by simp


section \<open>Collecting operands\<close>

text \<open>The word that a register holds for a lane, by the kind of the register.\<close>

definition reg_word :: "coasm \<Rightarrow> 'm WarpState \<Rightarrow> Reg \<Rightarrow> nat \<Rightarrow> u32 \<Rightarrow> u32 res" where
  "reg_word cfg w r i l =
     (if scalar_reg (rg_reg_type r) then getSreg cfg (rg_reg_idx r + of_nat i) w
      else if rg_reg_type r = Vector then getVreg (rg_reg_idx r + of_nat i) l w
      else Inr (bytes_u32 (getDmem (data_addr r w (of_nat i) l) 4 w)))"

definition readable :: "coasm \<Rightarrow> 'm WarpState \<Rightarrow> Reg \<Rightarrow> bool" where
  "readable cfg w r \<longleftrightarrow> (\<forall>i < unat (rg_range r). \<forall>l. unat l < MAX_WARPSIZE \<longrightarrow> (\<exists>v. reg_word cfg w r i l = Inr v))"

abbreviation active_lane :: "'m WarpState \<Rightarrow> u32 \<Rightarrow> bool" where
  "active_lane w l \<equiv> unat l < MAX_WARPSIZE \<and> bit (wst_active_mask w) (unat l)"

lemma lanes_upto:
  assumes "P 0 s" "\<And>i u. i < MAX_WARPSIZE \<Longrightarrow> P i u \<Longrightarrow> \<exists>v. f i u = Inr v \<and> P (Suc i) v"
  shows "\<exists>t. forR (unat (32 :: u32)) f s = Inr t \<and> P MAX_WARPSIZE t"
  using forR_upto[OF assms, of MAX_WARPSIZE] by (simp add: MAX_WARPSIZE_def)

lemma test_lane_ok [simp]: "i < MAX_WARPSIZE \<Longrightarrow> test_lane m i = Inr (bit m i)"
  by (simp add: test_lane_def failR_def MAX_WARPSIZE_def)

lemma lane_number [simp]: "i < MAX_WARPSIZE \<Longrightarrow> unat (of_nat i :: u32) = i"
  by (simp add: MAX_WARPSIZE_def unat_of_nat)

text \<open>The lanes before the next one are the ones before, and this one.\<close>

lemma lane_cases: "unat (l :: u32) < Suc i \<longleftrightarrow> unat l < i \<or> l = of_nat i" if "i < MAX_WARPSIZE"
  using lane_number[OF that] by (auto simp: less_Suc_eq word_unat_eq_iff)

lemma lane_vector_ok:
  assumes "wst_warp_size w = 32" "length rs = MAX_WARPSIZE" "length vs = MAX_WARPSIZE"
    and rd: "\<And>l. unat l < MAX_WARPSIZE \<Longrightarrow> read l = Inr (g l)"
  obtains rs' vs' where "lane_vector read w (rs, vs) = Inr (rs', vs')" "length rs' = MAX_WARPSIZE" "length vs' = MAX_WARPSIZE"
    "\<And>l. active_lane w l \<Longrightarrow> vs' ! unat l = g l"
proof -
  let ?P = "\<lambda>i (st :: bool list \<times> u32 list). length (fst st) = MAX_WARPSIZE \<and> length (snd st) = MAX_WARPSIZE \<and>
    (\<forall>l. active_lane w l \<and> unat l < i \<longrightarrow> snd st ! unat l = g l)"
  have "\<exists>t. lane_vector read w (rs, vs) = Inr t \<and> ?P MAX_WARPSIZE t"
    unfolding lane_vector_def assms(1)
  proof (rule lanes_upto[where P = ?P])
    fix i and st :: "bool list \<times> u32 list" assume i: "i < MAX_WARPSIZE" and P: "?P i st"
    obtain a b where st: "st = (a, b)" by fastforce
    have l: "unat l \<noteq> i" if "unat l < i" for l :: u32 using that by simp
    show "\<exists>v. (case st of (rs, vs) \<Rightarrow> bindR (test_lane (wst_active_mask w) i) (\<lambda>a. if a then
        bindR (vec_set rs i True) (\<lambda>rs. bindR (read (of_nat i)) (\<lambda>v. bindR (vec_set vs i v) (\<lambda>vs. Inr (rs, vs)))) else Inr (rs, vs))) = Inr v \<and>
      ?P (Suc i) v"
      using i P rd[of "of_nat i"] by (auto simp: st vec_set_def lane_cases l)
  qed (use assms in simp)
  then show thesis using that by auto
qed

lemma read_data: "rg_reg_type r \<noteq> Vector \<Longrightarrow> \<not> scalar_reg (rg_reg_type r) \<Longrightarrow>
    reg_word cfg w r i l = Inr (bytes_u32 (getDmem (data_addr r w (of_nat i) l) 4 w))"
  by (simp add: reg_word_def)

text \<open>Collecting an operand copies the words of its register, for the active lanes.\<close>

lemma readReg_ok:
  assumes "operand_ok opd" "wst_warp_size w = 32" "\<not> opd_is_imm opd" "readable cfg w (opd_reg opd)"
  obtains opd' where "readReg cfg w opd = Inr opd'" "operand_ok opd'" "same_register opd opd'"
    "\<And>i l. active_lane w l \<Longrightarrow> i < unat (rg_range (opd_reg opd)) \<Longrightarrow>
      reg_word cfg w (opd_reg opd) i l = Inr (operand_words opd' l ! i)"
proof -
  let ?r = "opd_reg opd" and ?opd = "opd\<lparr>opd_range := rg_range (opd_reg opd)\<rparr>"
  obtain g where g: "\<And>i l. i < unat (rg_range ?r) \<Longrightarrow> unat l < MAX_WARPSIZE \<Longrightarrow> reg_word cfg w ?r i l = Inr (g i l)"
    using assms(4) unfolding readable_def by metis
  let ?P = "\<lambda>i u. operand_ok u \<and> same_register opd u \<and>
    (\<forall>k < i. \<forall>l. active_lane w l \<longrightarrow> operand_words u l ! k = g k l)"
  have "\<exists>t. readReg cfg w opd = Inr t \<and> ?P (unat (rg_range ?r)) t"
  proof (cases "scalar_reg (rg_reg_type ?r)")
    case True
    have "\<exists>t. forR (unat (rg_range ?r)) (\<lambda>i u. bindR (getSreg cfg (rg_reg_idx ?r + of_nat i) w) (\<lambda>v.
        bindR (vec_set (opd_value u) i v) (\<lambda>vs. Inr (u\<lparr>opd_is_scalar_ready := True, opd_value := vs\<rparr>)))) ?opd = Inr t \<and>
      ?P (unat (rg_range ?r)) t"
    proof (rule forR_upto[where P = ?P])
      fix i u assume i: "i < unat (rg_range ?r)" and P: "?P i u"
      have v: "\<not> opd_is_imm u" "scalar_reg (rg_reg_type (opd_reg u))" "opd_reg u = ?r" "length (opd_value u) = unat (rg_range ?r)"
        using P True assms(3) by (auto simp: operand_ok_def same_register_def)
      let ?u = "u\<lparr>opd_is_scalar_ready := True, opd_value := (opd_value u)[i := g i 0]\<rparr>"
      have rd: "getSreg cfg (rg_reg_idx ?r + of_nat i) w = Inr (g i 0)" "\<And>l. unat l < MAX_WARPSIZE \<Longrightarrow> g i l = g i 0"
        using g[OF i, of 0] g[OF i] True by (auto simp: reg_word_def MAX_WARPSIZE_def)
      have old: "\<And>k l. k < i \<Longrightarrow> active_lane w l \<Longrightarrow> opd_value u ! k = g k l"
        using P v(1,2) by (simp add: operand_words_def)
      have new: "?P (Suc i) ?u"
      proof (intro conjI allI impI)
        show "operand_ok ?u" using v by (simp add: operand_ok_def)
        show "same_register opd ?u" using P by (simp add: same_register_def)
        fix k l assume "k < Suc i" "active_lane w l"
        then show "operand_words ?u l ! k = g k l"
          using old[of k l] rd(2)[of l] v i by (cases "k = i") (simp_all add: operand_words_def)
      qed
      then show "\<exists>v. bindR (getSreg cfg (rg_reg_idx ?r + of_nat i) w) (\<lambda>v. bindR (vec_set (opd_value u) i v)
          (\<lambda>vs. Inr (u\<lparr>opd_is_scalar_ready := True, opd_value := vs\<rparr>))) = Inr v \<and> ?P (Suc i) v"
        using rd(1) v(4) i by (simp only: bindR.simps vec_set_def if_True) blast
    qed (use assms(1) in \<open>simp add: operand_ok_def same_register_def\<close>)
    then show ?thesis using True assms(3) by (simp only: readReg_def Let_def if_False if_True)
  next
    case False
    let ?read = "\<lambda>i j. if rg_reg_type ?r = Vector then getVreg (rg_reg_idx ?r + of_nat i) j w
      else Inr (bytes_u32 (getDmem (data_addr ?r w (of_nat i) j) 4 w))"
    have "\<exists>t. forR (unat (rg_range ?r)) (\<lambda>i u. bindR (lane_vector (?read i) w
          (opd_is_vector_ready u, replicate (unat (wst_warp_size w)) 0)) (\<lambda>(rs, vs).
        bindR (vec_set (opd_vector_value u) i vs) (\<lambda>vv. Inr (u\<lparr>opd_is_vector_ready := rs, opd_vector_value := vv\<rparr>)))) ?opd = Inr t \<and>
      ?P (unat (rg_range ?r)) t"
    proof (rule forR_upto[where P = ?P])
      fix i u assume i: "i < unat (rg_range ?r)" and P: "?P i u"
      have v: "is_vector u" "opd_reg u = ?r" "length (opd_vector_value u) = unat (rg_range ?r)"
        "length (opd_is_vector_ready u) = MAX_WARPSIZE" "\<forall>vs \<in> set (opd_vector_value u). length vs = MAX_WARPSIZE"
        using P False assms(3) by (auto simp: operand_ok_def same_register_def)
      have rd: "\<And>l. unat l < MAX_WARPSIZE \<Longrightarrow> ?read i l = Inr (g i l)" using g[OF i] False by (simp add: reg_word_def)
      have z: "length (replicate (unat (wst_warp_size w)) 0 :: u32 list) = MAX_WARPSIZE" using assms(2) by (simp add: MAX_WARPSIZE_def)
      obtain rs vs where lv: "lane_vector (?read i) w (opd_is_vector_ready u, replicate (unat (wst_warp_size w)) 0) = Inr (rs, vs)"
        "length rs = MAX_WARPSIZE" "length vs = MAX_WARPSIZE" "\<And>l. active_lane w l \<Longrightarrow> vs ! unat l = g i l"
        by (rule lane_vector_ok[of w "opd_is_vector_ready u" _ "?read i" "g i", OF assms(2) v(4) z]) (erule rd, simp add: that)
      let ?u = "u\<lparr>opd_is_vector_ready := rs, opd_vector_value := (opd_vector_value u)[i := vs]\<rparr>"
      have old: "\<And>k l. k < i \<Longrightarrow> active_lane w l \<Longrightarrow> opd_vector_value u ! k ! unat l = g k l"
        using P v(1,3) i by (simp add: operand_words_def lane_words_def)
      have new: "?P (Suc i) ?u"
      proof (intro conjI allI impI)
        show "operand_ok ?u" using v lv(2,3) by (auto simp: operand_ok_def dest!: set_update_subset_insert[THEN subsetD])
        show "same_register opd ?u" using P by (simp add: same_register_def)
        fix k l assume "k < Suc i" "active_lane w l"
        then show "operand_words ?u l ! k = g k l"
          using old[of k l] lv(4)[of l] v(1,3) i by (cases "k = i") (simp_all add: operand_words_def lane_words_def)
      qed
      have step: "bindR (lane_vector (?read i) w (opd_is_vector_ready u, replicate (unat (wst_warp_size w)) 0)) (\<lambda>(rs, vs).
          bindR (vec_set (opd_vector_value u) i vs) (\<lambda>vv. Inr (u\<lparr>opd_is_vector_ready := rs, opd_vector_value := vv\<rparr>))) = Inr ?u"
        using lv(1) v(3) i by (simp add: vec_set_def)
      show "\<exists>v. bindR (lane_vector (?read i) w (opd_is_vector_ready u, replicate (unat (wst_warp_size w)) 0)) (\<lambda>(rs, vs).
          bindR (vec_set (opd_vector_value u) i vs) (\<lambda>vv. Inr (u\<lparr>opd_is_vector_ready := rs, opd_vector_value := vv\<rparr>))) = Inr v \<and>
        ?P (Suc i) v"
        by (rule exI[of _ ?u]) (rule conjI[OF step new])
    qed (use assms(1) in \<open>simp add: operand_ok_def same_register_def\<close>)
    then show ?thesis using False assms(3) by (simp only: readReg_def Let_def if_False)
  qed
  then obtain t where t: "readReg cfg w opd = Inr t" "?P (unat (rg_range ?r)) t" by (elim exE conjE) (rule that, simp_all)
  show thesis
  proof (rule that[OF t(1)])
    show "operand_ok t" "same_register opd t" using t(2) by simp_all
    show "reg_word cfg w ?r i l = Inr (operand_words t l ! i)" if "active_lane w l" "i < unat (rg_range ?r)" for i l
      using t(2) g[of i l] that by simp
  qed
qed

section \<open>The data path of a vector instruction\<close>

text \<open>
  The operands are collected, the handler runs in the active lanes in order, and the destination is
  written back.
\<close>

definition run_lanes :: "(u32 \<Rightarrow> Instruction \<Rightarrow> Instruction res) \<Rightarrow> u32 \<Rightarrow> Instruction \<Rightarrow> Instruction res" where
  "run_lanes exec m = forR MAX_WARPSIZE (\<lambda>t ins. if bit m t then exec (of_nat t) ins else Inr ins)"

definition data_path :: "coasm \<Rightarrow> (u32 \<Rightarrow> Instruction \<Rightarrow> Instruction res) \<Rightarrow> Instruction \<Rightarrow> 'm WarpState \<Rightarrow> 'm WarpState res" where
  "data_path cfg exec ins w = bindR (OperandCollect cfg w ins) (\<lambda>ins.
     bindR (run_lanes exec (wst_active_mask w) ins) (\<lambda>ins. WriteBack cfg ins w))"

text \<open>What a lane of a source is: an immediate, a scalar register, a vector register or a word of the shared memory.\<close>

definition source_word :: "coasm \<Rightarrow> 'm WarpState \<Rightarrow> Operand \<Rightarrow> u32 \<Rightarrow> u32 res" where
  "source_word cfg w opd l = (if opd_is_imm opd then Inr (opd_imm opd) else reg_word cfg w (opd_reg opd) 0 l)"

definition source_ok :: "coasm \<Rightarrow> 'm WarpState \<Rightarrow> Operand \<Rightarrow> bool" where
  "source_ok cfg w opd \<longleftrightarrow> operand_ok opd \<and> 0 < rg_range (opd_reg opd) \<and> (opd_is_imm opd \<or> readable cfg w (opd_reg opd))"

lemma collect_source:
  assumes "source_ok cfg w opd" "wst_warp_size w = 32"
  obtains opd' where "readReg cfg w opd = Inr opd'" "operand_ok opd'"
    "\<And>l. active_lane w l \<Longrightarrow> \<exists>v. source_word cfg w opd l = Inr v \<and> getValue opd' l = Inr v"
proof (cases "opd_is_imm opd")
  case True
  then show thesis
    using that[of opd] assms(1) by (simp add: readReg_def source_ok_def source_word_def getValue_def)
next
  case False
  have "operand_ok opd" "readable cfg w (opd_reg opd)" "0 < rg_range (opd_reg opd)" using assms(1) False by (auto simp: source_ok_def)
  then obtain opd' where o: "readReg cfg w opd = Inr opd'" "operand_ok opd'" "same_register opd opd'"
    "\<And>i l. active_lane w l \<Longrightarrow> i < unat (rg_range (opd_reg opd)) \<Longrightarrow>
      reg_word cfg w (opd_reg opd) i l = Inr (operand_words opd' l ! i)"
    using readReg_ok[OF _ assms(2) False] by metis
  have "0 < unat (rg_range (opd_reg opd))" using \<open>0 < rg_range (opd_reg opd)\<close> by (simp add: unat_gt_0)
  then show thesis
    using that[OF o(1,2)] o(3,4) False assms(1) getValue_ok[OF o(2)]
    by (simp add: source_word_def same_register_def source_ok_def)
qed

text \<open>The destination after the first lanes.\<close>

lemma run_lanes_vbinary:
  assumes "inst_ok ins" "ins_operands ins DST = Some d" "is_vector d" "0 < rg_range (opd_reg d)"
    and src: "\<And>l. active_lane w l \<Longrightarrow> \<exists>v. bindR (operand_value SRC0 l ins) (\<lambda>x. bindR (operand_value SRC1 l ins) (f x)) = Inr v"
  obtains ins' d' where "run_lanes (vbinary f) (wst_active_mask w) ins = Inr ins'" "ins_operands ins' DST = Some d'"
    "ins_num_dst_operands ins' = ins_num_dst_operands ins" "operand_ok d'" "same_register d d'"
    "\<And>l. active_lane w l \<Longrightarrow> opd_is_vector_ready d' ! unat l \<and>
       bindR (operand_value SRC0 l ins) (\<lambda>x. bindR (operand_value SRC1 l ins) (f x)) = getValue d' l"
proof -
  let ?v = "\<lambda>l. bindR (operand_value SRC0 l ins) (\<lambda>x. bindR (operand_value SRC1 l ins) (f x))"
  let ?P = "\<lambda>i u. (\<forall>name. name \<noteq> DST \<longrightarrow> ins_operands u name = ins_operands ins name) \<and>
    ins_num_dst_operands u = ins_num_dst_operands ins \<and>
    (\<exists>d'. ins_operands u DST = Some d' \<and> operand_ok d' \<and> same_register d d' \<and>
      (\<forall>l. active_lane w l \<and> unat l < i \<longrightarrow> opd_is_vector_ready d' ! unat l \<and> ?v l = getValue d' l))"
  have "\<exists>t. run_lanes (vbinary f) (wst_active_mask w) ins = Inr t \<and> ?P MAX_WARPSIZE t"
    unfolding run_lanes_def
  proof (rule forR_upto[where P = ?P])
    fix i and u :: Instruction assume i: "i < MAX_WARPSIZE" and P: "?P i u"
    let ?l = "of_nat i :: u32"
    obtain e where e: "ins_operands u DST = Some e" "operand_ok e" "same_register d e"
      "\<And>l. active_lane w l \<Longrightarrow> unat l < i \<Longrightarrow> opd_is_vector_ready e ! unat l \<and> ?v l = getValue e l"
      and same: "\<And>name. name \<noteq> DST \<Longrightarrow> ins_operands u name = ins_operands ins name"
      and n: "ins_num_dst_operands u = ins_num_dst_operands ins" using P by blast
    have vec: "is_vector e" "0 < rg_range (opd_reg e)" using e(3) assms(3,4) by (auto simp: same_register_def)
    have l: "unat ?l < MAX_WARPSIZE" using i by simp
    show "\<exists>t. (if bit (wst_active_mask w) i then vbinary f ?l u else Inr u) = Inr t \<and> ?P (Suc i) t"
    proof (cases "bit (wst_active_mask w) i")
      case False
      then show ?thesis using P i lane_cases[OF i] by auto
    next
      case True
      then have act: "active_lane w ?l" using i by simp
      then obtain v where v: "?v ?l = Inr v" using src by blast
      have srcs: "operand_value name m u = operand_value name m ins" if "name \<noteq> DST" for name m
        using same[OF that] by (simp add: operand_value_def getOperand_def deref_def)
      obtain e' where e': "setValue v ?l e = Inr e'" "operand_ok e'" "same_register e e'"
        "operand_words e' ?l = (operand_words e ?l)[0 := v]"
        "\<And>m. unat m < MAX_WARPSIZE \<Longrightarrow> m \<noteq> ?l \<Longrightarrow> operand_words e' m = operand_words e m"
        "opd_is_vector_ready e' = (opd_is_vector_ready e)[unat ?l := True]"
        using setValue_ok[OF e(2) _ l vec(2), of v] vec(1) by metis
      have ready: "length (opd_is_vector_ready e) = MAX_WARPSIZE" using e(2) vec(1) by (simp add: operand_ok_def)
      have "0 < unat (rg_range (opd_reg e))" using vec(2) by (simp add: unat_gt_0)
      then have val: "getValue e' m = (if m = ?l then Inr v else getValue e m)" if "unat m < MAX_WARPSIZE" for m
        using getValue_ok[OF e'(2) that] getValue_ok[OF e(2) that vec(2)] e'(3,4,5) vec that operand_words_length[OF e(2), of ?l]
        by (auto simp: same_register_def)
      have "vbinary f ?l u = Inr (set_operand DST e' u)"
        using v e(1) e'(1) by (auto simp: vbinary_def srcs set_dst_def modify_operand_def getOperand_def bindR_eq_Inr)
      moreover have "?P (Suc i) (set_operand DST e' u)"
        using e'(2,3) e(3) e(4) val v n same ready i lane_cases[OF i]
        by (auto simp: set_operand_def same_register_def e'(6) nth_list_update)
      ultimately show ?thesis using True by simp
    qed
  qed (use assms(1,2) in \<open>simp add: inst_ok_def same_register_def\<close>)
  then show thesis by (elim exE conjE) (rule that, assumption+, blast)
qed

text \<open>The write-back of a vector destination of one register.\<close>

lemma WriteBack_vector:
  assumes "ins_operands ins DST = Some d" "ins_num_dst_operands ins = 1" "operand_ok d" "is_vector d"
    "rg_reg_type (opd_reg d) = Vector" "rg_range (opd_reg d) = 1" "wst_warp_size w = 32"
    and act: "\<And>l. active_lane w l \<Longrightarrow> opd_is_vector_ready d ! unat l \<and> vreg_writable w (rg_reg_idx (opd_reg d), l)"
  obtains w' where "WriteBack cfg ins w = Inr w'"
    "\<And>r l. getVreg r l w' = (if r = rg_reg_idx (opd_reg d) \<and> active_lane w l then getValue d l else getVreg r l w)"
proof -
  let ?r = "rg_reg_idx (opd_reg d)"
  let ?P = "\<lambda>i u. wst_active_mask u = wst_active_mask w \<and> (\<forall>j. vreg_writable u j = vreg_writable w j) \<and>
    (\<forall>r l. getVreg r l u = (if r = ?r \<and> active_lane w l \<and> unat l < i then getValue d l else getVreg r l w))"
  let ?put = "\<lambda>j v w. if rg_reg_type (opd_reg d) = Vector then setVreg (?r + of_nat 0) v j w
          else Inr (setDmem (data_addr (opd_reg d) w (of_nat 0) j) (u32_bytes v) w)"
  have "\<exists>t. forR (unat (32 :: u32)) (write_lane d 0 ?put) w = Inr t \<and> ?P MAX_WARPSIZE t"
  proof (rule lanes_upto[where P = ?P])
    fix i u assume i: "i < MAX_WARPSIZE" and P: "?P i u"
    let ?l = "of_nat i :: u32"
    show "\<exists>v. write_lane d 0 ?put i u = Inr v \<and> ?P (Suc i) v"
    proof (cases "bit (wst_active_mask w) i")
      case False
      then show ?thesis using P i lane_cases[OF i] by (auto simp: write_lane_def)
    next
      case True
      then have l: "active_lane w ?l" using i by simp
      then have "vreg_writable u (?r, ?l)" "opd_is_vector_ready d ! i" using act[OF l] P i by auto
      moreover have "length (opd_is_vector_ready d) = MAX_WARPSIZE" using assms(3,4) by (simp add: operand_ok_def)
      moreover have "vector_elem d 0 ?l = Inr (lane_words d ?l ! 0)" "getValue d ?l = Inr (lane_words d ?l ! 0)"
        using vector_elem_ok[OF assms(3,4), of 0 ?l] getValue_ok[OF assms(3), of ?l] assms(4,6) l by (simp_all add: operand_words_def)
      moreover obtain v where v: "setVreg ?r (lane_words d ?l ! 0) ?l u = Inr v"
        "\<And>j. getVreg (fst j) (snd j) v = (if j = (?r, ?l) then Inr (lane_words d ?l ! 0) else getVreg (fst j) (snd j) u)"
        "\<And>j. vreg_writable v j = vreg_writable u j"
        using vregs.put_one[of u "(?r, ?l)" "lane_words d ?l ! 0"] calculation(1) unfolding fst_conv snd_conv by metis
      moreover have "wst_active_mask v = wst_active_mask u" using setVreg_frame[OF v(1)] by auto
      ultimately show ?thesis
        using True P i v(2)[of "(_, _)"] l assms(5) lane_cases[OF i]
        by (auto simp: write_lane_def vec_get_def)
    qed
  qed simp
  then obtain t where "forR (unat (32 :: u32)) (write_lane d 0 ?put) w = Inr t" "?P MAX_WARPSIZE t" by (elim exE conjE) (rule that, simp_all)
  moreover from this have "WriteBack cfg ins w = Inr t"
    using assms by (simp add: WriteBack_def writeReg_def getOperand_def forR_def)
  ultimately show thesis using that by simp
qed

text \<open>
  The abstract instruction on the vector register file: one function of the sources of each active
  lane, all lanes at once. Nothing of operands, storage, readiness or loops is left.
\<close>

type_synonym vregs = "u32 \<Rightarrow> u32 \<Rightarrow> u32 res"

definition vregs_of :: "'m WarpState \<Rightarrow> vregs" where
  "vregs_of w = (\<lambda>r l. getVreg r l w)"

definition lanewise :: "(u32 \<Rightarrow> u32 res) \<Rightarrow> (u32 \<Rightarrow> bool) \<Rightarrow> u32 \<Rightarrow> vregs \<Rightarrow> vregs" where
  "lanewise g active dst regs = (\<lambda>r l. if r = dst \<and> active l then g l else regs r l)"


text \<open>Register 2 becomes its exclusive or with the immediate 5, in every lane.\<close>

definition sample_vop2 :: BytesVOP2 where
  "sample_vop2 = \<lparr>vop2_op = 9, vop2_imm = 1, vop2_dsrc0 = 0, vop2_src0 = 5, vop2_vsrc1 = 2, vop2_vdst = 2, vop2_ext_enc = 0,
     vop2_e1_imm = 0, vop2_e1_src0 = 0, vop2_e1_vsrc1 = 0, vop2_e1_vdst = 0\<rparr>"

definition sample_ops :: OpcodeVOP2 where
  "sample_ops = \<lparr>OP_V_MAC_F32 = 0, OP_V_LSHL_B64 = 1, OP_V_ASHR_I64 = 2, OP_V_ADD_F64 = 3, OP_V_ADD_I64 = 4, OP_V_MUL_I64_I32 = 5\<rparr>"


end
