(* ===== verification/VOP3_Facts.thy ===== *)
theory VOP3_Facts
  imports Operand_Facts Sample_State
begin

text \<open>
  What the three-source vector instructions compute: the maximum and the median of three signed
  values, the bit fields, and the 64-bit sum that an addition and an addition with carry make
  together through a lane's bit of the carry mask.
\<close>

section \<open>Lane masks\<close>

text \<open>A scalar register as a mask of lanes: a lane reads the bit it wrote, and no other bit moves.\<close>

lemma setBitmaskSreg_result:
  assumes "sreg_writable cfg w r" "getSreg cfg r w = Inr m" "lane < 32" "lane < wst_warp_size w"
  obtains w' where "setBitmaskSreg cfg r c lane w = Inr w'"
    "getSreg cfg r w' = Inr (if c \<noteq> 0 then set_bit (unat lane) m else unset_bit (unat lane) m)"
    "\<And>s. s \<noteq> r \<Longrightarrow> getSreg cfg s w' = getSreg cfg s w" "\<And>s. sreg_writable cfg w' s = sreg_writable cfg w s"
    "\<exists>s. w' = w\<lparr>wst_sreg := s\<rparr>"
proof -
  have bits: "m OR push_bit n 1 OR push_bit n 1 = set_bit n m" "m AND NOT (push_bit n 1) = unset_bit n m" for n
    by (rule bit_word_eqI; auto simp: bit_simps)+
  let ?m = "if c \<noteq> 0 then set_bit (unat lane) m else unset_bit (unat lane) m"
  obtain w' where w': "setSreg cfg r ?m w = Inr w'" "\<And>s. getSreg cfg s w' = (if s = r then Inr ?m else getSreg cfg s w)"
    "\<And>s. sreg_writable cfg w' s = sreg_writable cfg w s" using sregs.put_one[OF assms(1)] by blast
  have "setBitmaskSreg cfg r c lane w = Inr w'"
    using assms(2-4) w'(1) bits by (auto simp: setBitmaskSreg_def or.assoc)
  then show ?thesis using that w' setSreg_frame[OF w'(1)] by simp
qed

lemma getBitmaskSreg_value:
  assumes "getSreg cfg r w = Inr m" "lane < 32" "lane < wst_warp_size w"
  shows "getBitmaskSreg cfg r lane w = Inr (of_bool (bit m (unat lane)))"
proof -
  have "drop_bit n (m AND push_bit n 1) = of_bool (bit m n)" for n
    by (rule bit_word_eqI) (auto simp: bit_simps bit_1_iff)
  then show ?thesis using assms by (simp add: getBitmaskSreg_def)
qed

section \<open>Maximum and median\<close>

lemma med3_sorted: "\<exists>m. med3_i32 a b c = Inr m \<and> sint m = sort [sint a, sint b, sint c] ! 1"
  by (auto simp: med3_i32_def word_sle_eq)

lemma max3_sorted: "\<exists>m. max3_i32 a b c = Inr m \<and> sint m = sort [sint a, sint b, sint c] ! 2"
  by (auto simp: max3_i32_def word_sle_eq)

text \<open>
  C24. The median and the maximum of three: for all values of the three sources, equal ones
  included, the handlers do not reach their exception, and they write the middle and the greatest of the
  signed values to their lane of the destination and change no other register.
\<close>

theorem med3_max3_sorted:
  assumes "plain_sources3 cfg b w = Inr (s0, s1, s2)" "vreg_writable w (vop3a_vdst b, lane)"
  defines "sorted_sources \<equiv> sort [sint s0, sint s1, sint s2]"
  shows "(\<exists>w' v. V_MED3_I32 cfg b lane w = Inr w' \<and> sint v = sorted_sources ! 1 \<and>
      (\<forall>r l. getVreg r l w' = (if (r, l) = (vop3a_vdst b, lane) then Inr v else getVreg r l w))) \<and>
    (\<exists>w' v. V_MAX3_I32 cfg b lane w = Inr w' \<and> sint v = sorted_sources ! 2 \<and>
      (\<forall>r l. getVreg r l w' = (if (r, l) = (vop3a_vdst b, lane) then Inr v else getVreg r l w)))"
proof -
  have put: "\<exists>w'. setVreg (vop3a_vdst b) v lane w = Inr w' \<and>
      (\<forall>r l. getVreg r l w' = (if (r, l) = (vop3a_vdst b, lane) then Inr v else getVreg r l w))" for v
  proof -
    obtain w' where "setVreg (vop3a_vdst b) v lane w = Inr w'"
      "\<And>j. getVreg (fst j) (snd j) w' = (if j = (vop3a_vdst b, lane) then Inr v else getVreg (fst j) (snd j) w)"
      using vregs.put_one[OF assms(2), of v] unfolding fst_conv snd_conv by metis
    from this(1) this(2)[of "(_, _)"] show ?thesis by auto
  qed
  obtain m where m: "med3_i32 s0 s1 s2 = Inr m" "sint m = sorted_sources ! 1" unfolding sorted_sources_def using med3_sorted by blast
  obtain x where x: "max3_i32 s0 s1 s2 = Inr x" "sint x = sorted_sources ! 2" unfolding sorted_sources_def using max3_sorted by blast
  show ?thesis using put[of m] put[of x] assms(1) m x by (auto simp: V_MED3_I32_def V_MAX3_I32_def)
qed

text \<open>The signed values -3, 4 and 9 in registers 1, 2 and 3 of a warp.\<close>

theorem med3_max3_sorted_witness:
  "\<exists>w' v. V_MED3_I32 sample_cfg \<lparr>vop3a_op = 0, vop3a_vdst = 4, vop3a_abs = 0, vop3a_clamp = 0, vop3a_src0 = 9, vop3a_src1 = 3,
       vop3a_src2 = 4, vop3a_omod = 0, vop3a_neg = 0\<rparr> 5 sample_warp = Inr w' \<and> sint v = 4 \<and> getVreg 4 5 w' = Inr v"
proof -
  let ?b = "\<lparr>vop3a_op = 0, vop3a_vdst = 4, vop3a_abs = 0, vop3a_clamp = 0, vop3a_src0 = 9, vop3a_src1 = 3,
       vop3a_src2 = 4, vop3a_omod = 0, vop3a_neg = 0\<rparr> :: BytesVOP3A"
  have "plain_sources3 sample_cfg ?b sample_warp = Inr (9, 3, 4)"
    by (simp add: plain_sources3_def no_modifier_def no_output_modifier_def)
  from med3_max3_sorted[OF this, of 5] show ?thesis by (auto simp: sample_vreg(2))
qed

section \<open>Sums of 64 bits\<close>

lemma carry_word:
  fixes a b c :: u32
  assumes "c \<le> 1"
  shows "2 ^ 32 * (if drop_bit 32 ((ucast a :: u64) + ucast b + ucast c) \<noteq> 0 then 1 else 0) + uint (a + b + c)
    = uint a + uint b + uint c"
proof -
  let ?s = "uint a + uint b + uint c"
  have b: "uint a < 2 ^ 32" "uint b < 2 ^ 32" "0 \<le> uint a" "0 \<le> uint b" "0 \<le> uint c" using uint_bounded[of a] uint_bounded[of b] by simp_all
  have c: "uint c \<le> 1" using assms by (simp add: word_le_def)
  have "uint ((ucast a :: u64) + ucast b + ucast c) = ?s"
    using b c by (simp add: uint_word_ariths unsigned_ucast_eq take_bit_eq_mod)
  then have d: "drop_bit 32 ((ucast a :: u64) + ucast b + ucast c) = 0 \<longleftrightarrow> ?s div 2 ^ 32 = 0"
    by (simp add: drop_bit_eq_div word_uint_eq_iff uint_div)
  have "uint (a + b + c) = ?s mod 2 ^ 32"
    by (simp add: uint_word_ariths mod_add_left_eq)
  moreover have "?s mod 2 ^ 32 = (if ?s < 2 ^ 32 then ?s else ?s - 2 ^ 32)"
    using b c mod_pos_pos_trivial[of "?s - 2 ^ 32" "2 ^ 32"] minus_mod_self2[of ?s "2 ^ 32"] by simp
  ultimately show ?thesis using d b by (auto simp: zdiv_eq_0_iff)
qed

lemma carry_out_sum: "2 ^ 32 * uint (carry_out a b) + uint (a + b) = uint a + uint b"
  using carry_word[of 0 a b] by (cases "drop_bit 32 ((ucast a :: u64) + ucast b) = 0") (simp_all add: carry_out_def)

lemma addc_sum:
  assumes "addc_u32 a b c = (v, k)" "c \<le> 1"
  shows "2 ^ 32 * uint k + uint v = uint a + uint b + uint c"
  using carry_word[OF assms(2), of a b] assms(1) by (auto simp: addc_u32_def)

text \<open>The low sum goes to the destination operand, its carry to the lane's bit of the condition mask.\<close>

lemma V_ADD_U32_result:
  assumes "operand_value SRC0 lane ins = Inr a" "operand_value SRC1 lane ins = Inr b"
    and dst: "ins_operands ins DST = Some d" "operand_ok d" "\<not> opd_is_imm d" "0 < rg_range (opd_reg d)"
    and "getSreg cfg (SREG_VCC cfg) w = Inr m" "sreg_writable cfg w (SREG_VCC cfg)"
    and lane: "lane < 32" "lane < wst_warp_size w"
  obtains ins' w' where "V_ADD_U32 cfg lane (ins, w) = Inr (ins', w')" "operand_value DST lane ins' = Inr (a + b)"
    "getBitmaskSreg cfg (SREG_VCC cfg) lane w' = Inr (carry_out a b)" "\<exists>v. getSreg cfg (SREG_VCC cfg) w' = Inr v"
    "\<And>s. s \<noteq> SREG_VCC cfg \<Longrightarrow> getSreg cfg s w' = getSreg cfg s w" "\<And>s. sreg_writable cfg w' s = sreg_writable cfg w s"
    "\<exists>s. w' = w\<lparr>wst_sreg := s\<rparr>"
proof -
  have lane': "unat lane < MAX_WARPSIZE" using lane(1) by (simp add: MAX_WARPSIZE_def word_less_nat_alt)
  obtain d' where d': "setValue (a + b) lane d = Inr d'" "operand_ok d'" "same_register d d'"
    "operand_words d' lane = (operand_words d lane)[0 := a + b]"
    using setValue_ok[OF dst(2,3) lane' dst(4), of "a + b"] by metis
  have n: "0 < unat (rg_range (opd_reg d))" using dst(4) by (simp add: unat_gt_0)
  let ?ins = "set_operand DST d' ins" and ?k = "carry_out a b"
  have ins': "set_dst (a + b) lane ins = Inr ?ins" "operand_value DST lane ?ins = Inr (a + b)"
    using dst n d' getValue_ok[OF d'(2) lane'] operand_words_length[OF dst(2), of lane]
    by (auto simp: set_dst_def modify_operand_def getOperand_def operand_value_def set_operand_def same_register_def)
  obtain w' where w': "setBitmaskSreg cfg (SREG_VCC cfg) ?k lane w = Inr w'"
    "getSreg cfg (SREG_VCC cfg) w' = Inr (if ?k \<noteq> 0 then set_bit (unat lane) m else unset_bit (unat lane) m)"
    "\<And>s. s \<noteq> SREG_VCC cfg \<Longrightarrow> getSreg cfg s w' = getSreg cfg s w" "\<And>s. sreg_writable cfg w' s = sreg_writable cfg w s"
    "\<exists>s. w' = w\<lparr>wst_sreg := s\<rparr>"
    using setBitmaskSreg_result[OF assms(8,7) lane, of ?k] by metis
  have "V_ADD_U32 cfg lane (ins, w) = Inr (?ins, w')"
    using assms(1,2) ins'(1) w'(1) by (simp add: V_ADD_U32_def vcarry_def)
  moreover have "getBitmaskSreg cfg (SREG_VCC cfg) lane w' = Inr ?k"
    using getBitmaskSreg_value[OF w'(2) lane(1)] lane w'(5) by (auto simp: carry_out_def bit_simps word_less_nat_alt)
  ultimately show thesis using that ins'(2) w'(2-5) by blast
qed

text \<open>The high sum goes to the lane of the destination register, its carry to the lane's bit of the mask register.\<close>

lemma vreg_update_sregs [simp]:
  "getSreg cfg r (w\<lparr>wst_vreg := v\<rparr>) = getSreg cfg r w" "sreg_writable cfg (w\<lparr>wst_vreg := v\<rparr>) r = sreg_writable cfg w r"
  by (simp_all add: getSreg_def sreg_writable_def getConst_def)

lemma V_ADDC_U32_result:
  assumes "getSreg cfg (vop3b_src0 b) w = Inr x" "getVreg (vop3b_vsrc1 b) lane w = Inr y"
    and "getBitmaskSreg cfg (vop3b_ssrc2 b) lane w = Inr k" "addc_u32 x y k = (hi, c)"
    and mask: "getSreg cfg (vop3b_sdst b) w = Inr m" "sreg_writable cfg w (vop3b_sdst b)"
    and lane: "lane < 32" "lane < wst_warp_size w" "vreg_writable w (vop3b_vdst b, lane)"
  obtains w' where "V_ADDC_U32 cfg b lane w = Inr w'" "getVreg (vop3b_vdst b) lane w' = Inr hi"
    "getBitmaskSreg cfg (vop3b_sdst b) lane w' = Inr c"
proof -
  obtain w1 where w1: "setVreg (vop3b_vdst b) hi lane w = Inr w1"
    "\<And>j. getVreg (fst j) (snd j) w1 = (if j = (vop3b_vdst b, lane) then Inr hi else getVreg (fst j) (snd j) w)"
    using vregs.put_one[OF lane(3), of hi] unfolding fst_conv snd_conv by metis
  obtain v where v: "w1 = w\<lparr>wst_vreg := v\<rparr>" using setVreg_frame[OF w1(1)] by blast
  have s: "getSreg cfg (vop3b_sdst b) w1 = Inr m" "sreg_writable cfg w1 (vop3b_sdst b)" "lane < wst_warp_size w1"
    using mask lane(2) by (simp_all add: v)
  obtain w' where w': "setBitmaskSreg cfg (vop3b_sdst b) c lane w1 = Inr w'"
    "getSreg cfg (vop3b_sdst b) w' = Inr (if c \<noteq> 0 then set_bit (unat lane) m else unset_bit (unat lane) m)"
    "\<exists>s. w' = w1\<lparr>wst_sreg := s\<rparr>"
    using setBitmaskSreg_result[OF s(2,1) lane(1) s(3), of c] by metis
  have "c = of_bool (c \<noteq> 0)" using assms(4) by (auto simp: addc_u32_def)
  moreover have "lane < wst_warp_size w'" using w'(3) s(3) by auto
  ultimately have "getBitmaskSreg cfg (vop3b_sdst b) lane w' = Inr c"
    using getBitmaskSreg_value[OF w'(2) lane(1)] lane(1) by (auto simp: bit_simps word_less_nat_alt)
  moreover have "V_ADDC_U32 cfg b lane w = Inr w'" using assms(1-4) w1(1) w'(1) by (simp add: V_ADDC_U32_def)
  moreover have "getVreg (vop3b_vdst b) lane w' = Inr hi"
    using w1(2)[of "(vop3b_vdst b, lane)"] w'(3) by (auto simp: getVreg_def)
  ultimately show thesis using that by blast
qed

text \<open>
  C23. A sum of 64 bits in one lane: an addition of the low words, whose carry goes to the lane's bit of the
  condition mask, followed by an addition with carry of the high words, which reads that bit,
  gives the exact sum of the two 64-bit values in the two results and the carry bit of the second.
\<close>

theorem add_with_carry_chain:
  assumes low: "operand_value SRC0 lane ins = Inr a0" "operand_value SRC1 lane ins = Inr b0"
    and dst: "ins_operands ins DST = Some d" "operand_ok d" "\<not> opd_is_imm d" "0 < rg_range (opd_reg d)"
    and high: "getSreg cfg (vop3b_src0 b) w = Inr a1" "getVreg (vop3b_vsrc1 b) lane w = Inr b1" "vop3b_src0 b \<noteq> SREG_VCC cfg"
    and masks: "vop3b_ssrc2 b = SREG_VCC cfg" "getSreg cfg (SREG_VCC cfg) w = Inr m" "sreg_writable cfg w (SREG_VCC cfg)"
      "getSreg cfg (vop3b_sdst b) w = Inr m'" "sreg_writable cfg w (vop3b_sdst b)"
    and lane: "lane < 32" "lane < wst_warp_size w" "vreg_writable w (vop3b_vdst b, lane)"
  shows "\<exists>ins' w1 w2 lo hi c. V_ADD_U32 cfg lane (ins, w) = Inr (ins', w1) \<and> V_ADDC_U32 cfg b lane w1 = Inr w2 \<and>
    operand_value DST lane ins' = Inr lo \<and> getVreg (vop3b_vdst b) lane w2 = Inr hi \<and>
    getBitmaskSreg cfg (vop3b_sdst b) lane w2 = Inr c \<and>
    2 ^ 64 * uint c + 2 ^ 32 * uint hi + uint lo =
      (2 ^ 32 * uint a1 + uint a0) + (2 ^ 32 * uint b1 + uint b0)"
proof -
  obtain ins' w1 where 1: "V_ADD_U32 cfg lane (ins, w) = Inr (ins', w1)" "operand_value DST lane ins' = Inr (a0 + b0)"
    "getBitmaskSreg cfg (SREG_VCC cfg) lane w1 = Inr (carry_out a0 b0)" "\<exists>v. getSreg cfg (SREG_VCC cfg) w1 = Inr v"
    "\<And>s. s \<noteq> SREG_VCC cfg \<Longrightarrow> getSreg cfg s w1 = getSreg cfg s w" "\<And>s. sreg_writable cfg w1 s = sreg_writable cfg w s"
    "\<exists>s. w1 = w\<lparr>wst_sreg := s\<rparr>"
    using V_ADD_U32_result[OF low dst masks(2,3) lane(1,2)] by metis
  have ws: "lane < wst_warp_size w1" "getVreg (vop3b_vsrc1 b) lane w1 = Inr b1" "vreg_writable w1 (vop3b_vdst b, lane)"
    using 1(7) high(2) lane(2,3) by (auto simp: getVreg_def vreg_writable_def)
  obtain m2 where m2: "getSreg cfg (vop3b_sdst b) w1 = Inr m2"
    using masks(4) 1(4) 1(5)[of "vop3b_sdst b"] by (cases "vop3b_sdst b = SREG_VCC cfg") auto
  have hi: "getSreg cfg (vop3b_src0 b) w1 = Inr a1" "sreg_writable cfg w1 (vop3b_sdst b)" using high 1(5,6) masks(5) by simp_all
  obtain hi c where sum2: "addc_u32 a1 b1 (carry_out a0 b0) = (hi, c)" by fastforce
  obtain w2 where 2: "V_ADDC_U32 cfg b lane w1 = Inr w2" "getVreg (vop3b_vdst b) lane w2 = Inr hi"
    "getBitmaskSreg cfg (vop3b_sdst b) lane w2 = Inr c"
    using V_ADDC_U32_result[OF hi(1) ws(2) _ sum2 m2 hi(2) lane(1) ws(1,3)] 1(3) masks(1) by metis
  have "carry_out a0 b0 \<le> 1" by (simp add: carry_out_def)
  then have "2 ^ 64 * uint c + 2 ^ 32 * uint hi + uint (a0 + b0) = (2 ^ 32 * uint a1 + uint a0) + (2 ^ 32 * uint b1 + uint b0)"
    using carry_out_sum[of a0 b0] addc_sum[OF sum2] by simp
  then show ?thesis using 1(1,2) 2 by blast
qed

text \<open>Lane 3 of the sum of \<open>FFFFFFFF\<close> and 2, and of the registers that hold 9 and 35.\<close>

theorem add_with_carry_chain_witness:
  "\<exists>ins' w1 w2 lo hi c. V_ADD_U32 sample_cfg 3 (makeOperand_reg DST (mk_Reg 6 1 Vector 0) (makeOperand_imm SRC1 2
       (makeOperand_imm SRC0 0xFFFFFFFF (new_Instruction (OTHER_OP 0)))), sample_warp) = Inr (ins', w1) \<and>
     V_ADDC_U32 sample_cfg \<lparr>vop3b_vdst = 7, vop3b_sdst = 42, vop3b_src0 = 9, vop3b_vsrc1 = 1, vop3b_ssrc2 = 42\<rparr> 3 w1 = Inr w2 \<and>
     operand_value DST 3 ins' = Inr lo \<and> getVreg 7 3 w2 = Inr hi \<and> getBitmaskSreg sample_cfg 42 3 w2 = Inr c \<and>
     2 ^ 64 * uint c + 2 ^ 32 * uint hi + uint lo = 2 ^ 32 * 45 + 1"
proof -
  let ?ins = "makeOperand_reg DST (mk_Reg 6 1 Vector 0) (makeOperand_imm SRC1 2 (makeOperand_imm SRC0 0xFFFFFFFF (new_Instruction (OTHER_OP 0))))"
  let ?b = "\<lparr>vop3b_vdst = 7, vop3b_sdst = 42, vop3b_src0 = 9, vop3b_vsrc1 = 1, vop3b_ssrc2 = 42\<rparr> :: BytesVOP3B"
  let ?d = "new_Operand_reg DST (mk_Reg 6 1 Vector 0)"
  have ins: "operand_value SRC0 3 ?ins = Inr 0xFFFFFFFF" "operand_value SRC1 3 ?ins = Inr 2" "ins_operands ?ins DST = Some ?d"
    by (simp_all add: makeOperand_reg_def makeOperand_imm_def set_operand_def operand_value_def getOperand_def getValue_def new_Operand_imm_def)
  have d: "\<not> opd_is_imm ?d" "0 < rg_range (opd_reg ?d)" by (simp_all add: new_Operand_reg_def Let_def scalar_reg_def)
  have vcc: "SREG_VCC sample_cfg = 42" "wst_warp_size sample_warp = 32" by (simp_all add: sample_cfg_def sample_warp_def)
  have "\<exists>ins' w1 w2 lo hi c. V_ADD_U32 sample_cfg 3 (?ins, sample_warp) = Inr (ins', w1) \<and> V_ADDC_U32 sample_cfg ?b 3 w1 = Inr w2 \<and>
    operand_value DST 3 ins' = Inr lo \<and> getVreg (vop3b_vdst ?b) 3 w2 = Inr hi \<and> getBitmaskSreg sample_cfg (vop3b_sdst ?b) 3 w2 = Inr c \<and>
    2 ^ 64 * uint c + 2 ^ 32 * uint hi + uint lo =
      (2 ^ 32 * uint (9 :: u32) + uint (0xFFFFFFFF :: u32)) + (2 ^ 32 * uint (1 * 32 + 3 :: u32) + uint (2 :: u32))"
    by (rule add_with_carry_chain[OF ins new_operand_ok(1) d]) (simp_all add: vcc sample_vreg)
  then show ?thesis by simp
qed

end
