(* ===== verification/Branch_Facts.thy ===== *)
theory Branch_Facts
  imports Handler_Frames Sample_State
begin

text \<open>
  Where branches go: the program counters of the active lanes of a warp after the lanes have run a
  conditional branch, which each lane takes by its own bit of the condition, and after a branch of
  the whole warp, which its leading lane executes for all.
\<close>

section \<open>The threads of the active lanes\<close>

abbreviation lane_tid :: "'m WarpState \<Rightarrow> nat \<Rightarrow> u32" where
  "lane_tid w i \<equiv> wst_warp_size w * wst_warp_id w + of_nat i"

definition lane_threads :: "'m WarpState \<Rightarrow> (nat \<Rightarrow> ThreadItem) \<Rightarrow> bool" where
  "lane_threads w F \<longleftrightarrow> wst_warp_size w = 32 \<and> length (wst_status w) = 32 \<and>
     (\<forall>i < 32. bit (wst_active_mask w) i \<longrightarrow> thread_at (lane_tid w i) w = Inr (F i))"

lemma pc_words [simp]: "ucast (ucast (x :: u32) :: u64) = (x :: u32)"
  by (rule bit_word_eqI) (auto simp: bit_simps)

text \<open>Only threads change.\<close>

definition same_but_threads :: "'m WarpState \<Rightarrow> 'm WarpState \<Rightarrow> bool" where
  "same_but_threads w w' \<longleftrightarrow> w' = w\<lparr>wst_thread := wst_thread w'\<rparr>"

lemma same_but_threads_refl [simp]: "same_but_threads w w"
  by (simp add: same_but_threads_def)

lemma same_but_threads_trans: "same_but_threads a b \<Longrightarrow> same_but_threads b c \<Longrightarrow> same_but_threads a c"
  unfolding same_but_threads_def by (cases a; cases b; cases c) simp

lemma same_but_threads_fields:
  "same_but_threads w w' \<Longrightarrow> wst_warp_size w' = wst_warp_size w \<and> wst_warp_id w' = wst_warp_id w \<and>
    wst_active_mask w' = wst_active_mask w \<and> wst_status w' = wst_status w"
  unfolding same_but_threads_def by (cases w; cases w') simp

lemma lane_tid_inj: "i < 32 \<Longrightarrow> j < 32 \<Longrightarrow> unat (b + of_nat i :: u32) = unat (b + of_nat j :: u32) \<Longrightarrow> i = j"
proof -
  assume "i < 32" "j < 32" "unat (b + of_nat i :: u32) = unat (b + of_nat j :: u32)"
  then have "unat (of_nat i :: u32) = unat (of_nat j :: u32)" by (simp add: word_unat_eq_iff[symmetric])
  then show "i = j" using \<open>i < 32\<close> \<open>j < 32\<close> by (simp add: unat_of_nat)
qed

lemma lane_thread:
  assumes "lane_threads w F" "i < 32" "bit (wst_active_mask w) i"
  shows "thread_at (lane_tid w i) w = Inr (F i)" "getThread (of_nat i) w = Inr (F i)"
proof -
  show 1: "thread_at (lane_tid w i) w = Inr (F i)" using assms unfolding lane_threads_def by blast
  have "lane_tid w i = wst_warp_id w * wst_warp_size w + of_nat i" by (simp add: mult.commute)
  then show "getThread (of_nat i) w = Inr (F i)" using 1 by (simp only: getThread_at)
qed

lemma lane_threads_cong:
  assumes "lane_threads w F" "\<And>j. j < 32 \<Longrightarrow> G j = F j"
  shows "lane_threads w G"
proof -
  have "thread_at (lane_tid w i) w = Inr (G i)" if "i < 32" "bit (wst_active_mask w) i" for i
    using lane_thread(1)[OF assms(1) that] assms(2)[OF that(1)] by (simp only:)
  then show ?thesis using assms(1) unfolding lane_threads_def by blast
qed

lemma modify_lane:
  assumes "lane_threads w F" "i < 32" "bit (wst_active_mask w) i"
  obtains w' where "modify_at (lane_tid w i) f w = Inr w'" "lane_threads w' (F(i := f (F i)))" "same_but_threads w w'"
proof -
  let ?k = "unat (lane_tid w i)"
  let ?w = "w\<lparr>wst_thread := (wst_thread w)[?k := Some (f (F i))]\<rparr>"
  note t = lane_thread(1)[OF assms]
  then have "modify_at (lane_tid w i) f w = Inr ?w" by (auto simp: modify_at_Inr)
  moreover have "lane_threads ?w (F(i := f (F i)))"
    using assms t lane_tid_inj[of i _ "wst_warp_size w * wst_warp_id w"]
    by (auto simp: lane_threads_def thread_at_Inr nth_list_update)
  ultimately show thesis using that by (simp add: same_but_threads_def)
qed

lemma incWarpPC_lanes:
  assumes "lane_threads w F" "i < 32" "bit (wst_active_mask w) i"
  obtains w' where "incWarpPC n (of_nat i) w = Inr w'" "lane_threads w' (\<lambda>j. set_npc (ti_PC (F i) + n) (F j))" "same_but_threads w w'"
proof -
  let ?f = "set_npc (ti_PC (F i) + n)"
  let ?P = "\<lambda>k u. lane_threads u (\<lambda>j. if j < k then ?f (F j) else F j) \<and> same_but_threads w u"
  have "\<exists>t. forR 32 (\<lambda>l u. bindR (test_lane (wst_active_mask u) l) (\<lambda>a. if a then modifyThread (of_nat l) ?f u else Inr u)) w = Inr t \<and> ?P 32 t"
  proof (rule forR_upto[where P = ?P])
    fix k and u :: "'a WarpState" assume k: "k < 32" and P: "?P k u"
    have m: "wst_active_mask u = wst_active_mask w" using P same_but_threads_fields by metis
    show "\<exists>v. bindR (test_lane (wst_active_mask u) k) (\<lambda>a. if a then modifyThread (of_nat k) ?f u else Inr u) = Inr v \<and> ?P (Suc k) v"
    proof (cases "bit (wst_active_mask u) k")
      case True
      let ?F = "\<lambda>j. if j < k then ?f (F j) else F j"
      obtain v where "modify_at (lane_tid u k) ?f u = Inr v" "lane_threads v (?F(k := ?f (?F k)))" "same_but_threads u v"
        using modify_lane[of u ?F k ?f] P k True by blast
      moreover have "?F(k := ?f (?F k)) = (\<lambda>j. if j < Suc k then ?f (F j) else F j)" by (auto simp: less_Suc_eq)
      ultimately show ?thesis
        using True k P same_but_threads_trans by (auto simp: test_lane_def modifyThread_at mult.commute)
    next
      case False
      moreover have "lane_threads u (\<lambda>j. if j < Suc k then ?f (F j) else F j)"
        using P False k by (auto simp: lane_threads_def less_Suc_eq)
      ultimately show ?thesis using P k by (simp add: test_lane_def)
    qed
  qed (use assms(1) in simp)
  then obtain t where t: "forR 32 (\<lambda>l u. bindR (test_lane (wst_active_mask u) l) (\<lambda>a. if a then modifyThread (of_nat l) ?f u else Inr u)) w = Inr t"
    "lane_threads t (\<lambda>j. if j < 32 then ?f (F j) else F j)" "same_but_threads w t" by blast
  have "getWarpPC (of_nat i) w = Inr (get_pc (F i))"
    using lane_thread(2)[OF assms] by (simp add: getWarpPC_def)
  then have "incWarpPC n (of_nat i) w = Inr t"
    using t(1) assms(1) by (simp add: incWarpPC_def for_active_lanes_def lane_threads_def get_pc_def Let_def cong: if_cong)
  moreover have "lane_threads t (\<lambda>j. ?f (F j))" using lane_threads_cong[OF t(2)] by simp
  ultimately show thesis using that t(3) by blast
qed

text \<open>The next program counter of one lane.\<close>

lemma incThreadPC_lane:
  assumes "lane_threads w F" "i < 32" "bit (wst_active_mask w) i"
  obtains w' where "incThreadPC n (of_nat i) w = Inr w'" "lane_threads w' (F(i := set_npc (ti_PC (F i) + n) (F i)))" "same_but_threads w w'"
proof -
  obtain w' where w': "modify_at (lane_tid w i) (set_npc (ti_PC (F i) + n)) w = Inr w'"
    "lane_threads w' (F(i := set_npc (ti_PC (F i) + n) (F i)))" "same_but_threads w w'"
    using modify_lane[OF assms] by blast
  then have "incThreadPC n (of_nat i) w = Inr w'"
    using lane_thread(2)[OF assms] by (simp add: incThreadPC_def getWarpPC_def get_pc_def modifyThread_at mult.commute)
  then show thesis using that w' by blast
qed

section \<open>One lane\<close>

text \<open>What the loop over the lanes relies on in a thread, and the updates that leave it.\<close>

definition core :: "ThreadItem \<Rightarrow> u32 \<times> bool \<times> u32" where
  "core t = (ti_PC t, ti_thread_done t, ti_laneId t)"

lemma core_updates [simp]:
  "core (set_npc n t) = core t" "core (clearRPC t) = core t" "core (set_leading_thread b t) = core t"
  "core (update_pc t) = (ti_NPC t, ti_thread_done t, ti_laneId t)"
  by (simp_all add: core_def set_npc_def clearRPC_def set_leading_thread_def update_pc_def)

lemma npc_updates [simp]:
  "ti_NPC (set_npc n t) = n" "ti_NPC (clearRPC t) = ti_NPC t" "ti_NPC (set_leading_thread b t) = ti_NPC t"
  "ti_NPC (update_pc t) = ti_NPC t" "ti_PC (update_pc t) = ti_NPC t" "ti_leading_thread (set_leading_thread b t) = b"
  "ti_PC (clearRPC t) = ti_PC t" "ti_PC (set_leading_thread b t) = ti_PC t" "ti_PC (set_npc n t) = ti_PC t"
  "ti_thread_done (update_pc t) = ti_thread_done t" "ti_laneId (update_pc t) = ti_laneId t"
  by (simp_all add: set_npc_def clearRPC_def set_leading_thread_def update_pc_def)

text \<open>A thread runs the handler, unless the instruction is of the whole warp and another lane leads.\<close>

lemma thread_execute_lanes:
  assumes F: "lane_threads w F" "i < 32" "bit (wst_active_mask w) i" "\<not> is_done (F i)" "ti_laneId (F i) = of_nat i"
    and skip: "skip \<longleftrightarrow> ins_m_is_warp_op ins \<and> \<not> ti_leading_thread (F i)"
    and handler: "\<And>u G. same_but_threads w u \<Longrightarrow> lane_threads u G \<Longrightarrow> ti_PC (G i) = ti_PC (F i) \<Longrightarrow>
      (\<And>j. ti_NPC (G j) = ti_PC (F i) + ins_m_size ins) \<Longrightarrow>
      \<exists>u' K. exec (of_nat i) (ins, u) = Inr (ins, u') \<and> lane_threads u' K \<and> same_but_threads u u' \<and>
        (\<forall>j. core (K j) = core (G j) \<and> ti_NPC (K j) = N j)"
  obtains w' F' where "ThreadItem_Execute exec (lane_tid w i) (ins, w) = Inr (ins, w')" "lane_threads w' F'" "same_but_threads w w'"
    "core (F' i) = (if skip then ti_NPC (F i) else N i, snd (core (F i)))"
    "\<And>j. j \<noteq> i \<Longrightarrow> core (F' j) = core (F j)" "\<And>j. ti_NPC (F' j) = (if skip then ti_NPC (F j) else N j)"
proof -
  have tid: "lane_tid u i = lane_tid w i" if "same_but_threads w u" for u using same_but_threads_fields[OF that] by simp
  have act: "bit (wst_active_mask u) i" if "same_but_threads w u" for u using same_but_threads_fields[OF that] F(3) by simp
  obtain w1 F1 where 1: "(if \<not> ins_m_is_warp_op ins then modify_at (lane_tid w i) (set_npc (next_instr (F i) + ins_m_size ins)) w
      else Inr w) = Inr w1" "lane_threads w1 F1" "same_but_threads w w1"
    "\<And>j. core (F1 j) = core (F j)" "\<And>j. j \<noteq> i \<or> skip \<Longrightarrow> ti_NPC (F1 j) = ti_NPC (F j)"
  proof (cases "ins_m_is_warp_op ins")
    case True
    then show thesis using that[of w F] F(1) by simp
  next
    case False
    obtain w' where "modify_at (lane_tid w i) (set_npc (next_instr (F i) + ins_m_size ins)) w = Inr w'"
      "lane_threads w' (F(i := set_npc (next_instr (F i) + ins_m_size ins) (F i)))" "same_but_threads w w'"
      using modify_lane[OF F(1-3)] by blast
    then show thesis using False that[of w'] skip by simp
  qed
  obtain w2 where 2: "modify_at (lane_tid w i) clearRPC w1 = Inr w2" "lane_threads w2 (F1(i := clearRPC (F1 i)))" "same_but_threads w1 w2"
    using modify_lane[OF 1(2) F(2) act[OF 1(3)], of clearRPC] tid[OF 1(3)] by metis
  note s2 = same_but_threads_trans[OF 1(3) 2(3)]
  let ?F2 = "F1(i := clearRPC (F1 i))"
  obtain w3 F3 where 3: "(if skip then Inr (ins, w2) else bindR (incWarpPC (ins_m_size ins) (ti_laneId (F i)) w2)
      (\<lambda>w. exec (ti_laneId (F i)) (ins, w))) = Inr (ins, w3)" "lane_threads w3 F3" "same_but_threads w w3"
    "\<And>j. core (F3 j) = core (F j) \<and> ti_NPC (F3 j) = (if skip then ti_NPC (F j) else N j)"
  proof (cases skip)
    case True
    then show thesis using that[of w2 ?F2] 2(2) s2 1(4,5) by auto
  next
    case False
    obtain u where u: "incWarpPC (ins_m_size ins) (of_nat i) w2 = Inr u"
      "lane_threads u (\<lambda>j. set_npc (ti_PC (?F2 i) + ins_m_size ins) (?F2 j))" "same_but_threads w2 u"
      using incWarpPC_lanes[OF 2(2) F(2) act[OF s2]] by blast
    have pc: "ti_PC (F1 i) = ti_PC (F i)" using 1(4)[of i] by (simp add: core_def)
    obtain u' K where "exec (of_nat i) (ins, u) = Inr (ins, u')" "lane_threads u' K" "same_but_threads u u'"
      "\<And>j. core (K j) = core (?F2 j) \<and> ti_NPC (K j) = N j"
      using handler[OF same_but_threads_trans[OF s2 u(3)] u(2)] pc by auto
    moreover have "core (?F2 j) = core (F j)" for j using 1(4) by simp
    ultimately show thesis
      using that[of u' K] False u(1) F(5) same_but_threads_trans[OF same_but_threads_trans[OF s2 u(3)]] by auto
  qed
  obtain w4 where 4: "modify_at (lane_tid w i) update_pc w3 = Inr w4" "lane_threads w4 (F3(i := update_pc (F3 i)))" "same_but_threads w3 w4"
    using modify_lane[OF 3(2) F(2) act[OF 3(3)], of update_pc] tid[OF 3(3)] by metis
  have "ThreadItem_Execute exec (lane_tid w i) (ins, w) = Inr (ins, w4)"
    using lane_thread(1)[OF F(1-3)] 1(1) 2(1) 3(1) 4(1) F(4) unfolding skip by (simp add: ThreadItem_Execute_def Let_def)
  moreover have "ti_thread_done (F3 i) = ti_thread_done (F i)" "ti_laneId (F3 i) = ti_laneId (F i)"
    using 3(4)[of i] by (simp_all add: core_def)
  ultimately show thesis
    using that[OF _ 4(2) same_but_threads_trans[OF 3(3) 4(3)]] 3(4) by (simp add: core_def)
qed


text \<open>The whole body of the loop over the lanes, for a lane that does not exit.\<close>

lemma execute_lane_threads:
  assumes F: "lane_threads w F" "i < 32" "bit (wst_active_mask w) i" "\<not> is_done (F i)" "ti_laneId (F i) = of_nat i"
    and alive: "wst_status w ! i \<noteq> W_EXIT" and skip: "skip \<longleftrightarrow> ins_m_is_warp_op ins \<and> \<not> leading"
    and handler: "\<And>u G. same_but_threads w u \<Longrightarrow> lane_threads u G \<Longrightarrow> ti_PC (G i) = ti_PC (F i) \<Longrightarrow>
      (\<And>j. ti_NPC (G j) = ti_PC (F i) + ins_m_size ins) \<Longrightarrow>
      \<exists>u' K. exec (of_nat i) (ins, u) = Inr (ins, u') \<and> lane_threads u' K \<and> same_but_threads u u' \<and>
        (\<forall>j. core (K j) = core (G j) \<and> ti_NPC (K j) = N j)"
  obtains w' F' where "execute_lane exec (wst_warp_size w) (wst_warp_id w) i (leading, ins, w, c) = Inr (False, ins, w', c)"
    "lane_threads w' F'" "same_but_threads w w'" "core (F' i) = (if skip then ti_NPC (F i) else N i, snd (core (F i)))"
    "\<And>j. j \<noteq> i \<Longrightarrow> core (F' j) = core (F j)" "\<And>j. ti_NPC (F' j) = (if skip then ti_NPC (F j) else N j)"
proof -
  let ?F1 = "F(i := set_leading_thread leading (F i))"
  obtain w1 where 1: "modify_at (lane_tid w i) (set_leading_thread leading) w = Inr w1" "lane_threads w1 ?F1" "same_but_threads w w1"
    using modify_lane[OF F(1-3)] by blast
  note f1 = same_but_threads_fields[OF 1(3)]
  have pre: "bit (wst_active_mask w1) i" "\<not> is_done (?F1 i)" "ti_laneId (?F1 i) = of_nat i"
    "skip \<longleftrightarrow> ins_m_is_warp_op ins \<and> \<not> ti_leading_thread (?F1 i)"
    using f1 F(3-5) skip by (simp_all add: set_leading_thread_def is_done_def)
  have run: "\<exists>u' K. exec (of_nat i) (ins, u) = Inr (ins, u') \<and> lane_threads u' K \<and> same_but_threads u u' \<and>
        (\<forall>j. core (K j) = core (G j) \<and> ti_NPC (K j) = N j)"
    if "same_but_threads w1 u" "lane_threads u G" "ti_PC (G i) = ti_PC (?F1 i)" "\<And>j. ti_NPC (G j) = ti_PC (?F1 i) + ins_m_size ins" for u G
    using handler[OF same_but_threads_trans[OF 1(3) that(1)] that(2)] that(3,4) by simp
  obtain w2 F2 where 2: "ThreadItem_Execute exec (lane_tid w1 i) (ins, w1) = Inr (ins, w2)" "lane_threads w2 F2"
    "same_but_threads w1 w2" "core (F2 i) = (if skip then ti_NPC (?F1 i) else N i, snd (core (?F1 i)))"
    "\<And>j. j \<noteq> i \<Longrightarrow> core (F2 j) = core (?F1 j)" "\<And>j. ti_NPC (F2 j) = (if skip then ti_NPC (?F1 j) else N j)"
    by (rule thread_execute_lanes[OF 1(2) F(2) pre, where exec = exec and N = N]) (rule run, assumption+, rule that, assumption+)
  note s2 = same_but_threads_trans[OF 1(3) 2(3)]
  note f2 = same_but_threads_fields[OF s2]
  have "thread_at (lane_tid w2 i) w2 = Inr (F2 i)" using lane_thread(1)[OF 2(2) F(2)] f2 F(3) by simp
  moreover have "\<not> is_done (F2 i)" using 2(4) F(4) by (simp add: core_def is_done_def set_leading_thread_def)
  moreover have "isLaneExit (of_nat i) w2 = Inr False"
    using F(1,2) alive f2 by (simp add: isLaneExit_def lane_threads_def vec_get_def unat_of_nat)
  ultimately have "execute_lane exec (wst_warp_size w) (wst_warp_id w) i (leading, ins, w, c) = Inr (False, ins, w2, c)"
    using 1(1) 2(1) f1 f2
    by (auto simp: execute_lane_def Let_def checkExecutionStatusAndUpdate_def thread_at_Inr vec_get_def)
  then show thesis using that 2(2,4-6) s2 by (simp add: core_def set_leading_thread_def)
qed

section \<open>All active lanes\<close>

text \<open>The lanes of a warp that a branch is executed in: present, not done, numbered, at one program counter.\<close>

definition lanes_at :: "u32 \<Rightarrow> 'm WarpState \<Rightarrow> (nat \<Rightarrow> ThreadItem) \<Rightarrow> bool" where
  "lanes_at pc w F \<longleftrightarrow> lane_threads w F \<and> (\<forall>i < 32. bit (wst_active_mask w) i \<longrightarrow>
     core (F i) = (pc, False, of_nat i) \<and> wst_status w ! i \<noteq> W_EXIT)"

text \<open>The loop over the lanes after the first \<open>k\<close>, where \<open>tgt\<close> are the program counters of those.\<close>

definition lanes_moved :: "(nat \<Rightarrow> u32) \<Rightarrow> u32 \<Rightarrow> 'm WarpState \<Rightarrow> nat \<Rightarrow> 'm WarpState \<Rightarrow> (nat \<Rightarrow> ThreadItem) \<Rightarrow> bool" where
  "lanes_moved tgt pc w k w' F \<longleftrightarrow> lane_threads w' F \<and> same_but_threads w w' \<and>
     (\<forall>i < 32. bit (wst_active_mask w) i \<longrightarrow> core (F i) = (if i < k then tgt i else pc, False, of_nat i))"

lemma lanes_moved_skip:
  "lanes_moved tgt pc w k w' F \<Longrightarrow> \<not> bit (wst_active_mask w) k \<Longrightarrow> lanes_moved tgt pc w (Suc k) w' F"
  by (auto simp: lanes_moved_def less_Suc_eq)

lemma lanes_moved_step:
  assumes "lanes_moved tgt pc w k w' F" "k < 32" "lane_threads w'' F'" "same_but_threads w' w''"
    and "core (F' k) = (tgt k, snd (core (F k)))" "bit (wst_active_mask w) k" "\<And>j. j \<noteq> k \<Longrightarrow> core (F' j) = core (F j)"
  shows "lanes_moved tgt pc w (Suc k) w'' F'"
proof -
  have "core (F' i) = (if i < Suc k then tgt i else pc, False, of_nat i)" if "i < 32" "bit (wst_active_mask w) i" for i
    using assms(1,5,6) assms(7)[of i] that by (cases "i = k") (auto simp: lanes_moved_def less_Suc_eq)
  then show ?thesis using assms(1,3,4) same_but_threads_trans unfolding lanes_moved_def by blast
qed

text \<open>A lane that has not moved yet can be executed.\<close>

lemma lanes_moved_lane:
  assumes "lanes_moved tgt pc w k w' F" "lanes_at pc w F0" "k < 32" "bit (wst_active_mask w) k"
  shows "lane_threads w' F" "bit (wst_active_mask w') k" "\<not> is_done (F k)" "ti_laneId (F k) = of_nat k"
    "wst_status w' ! k \<noteq> W_EXIT" "ti_PC (F k) = pc" "wst_warp_id w' = wst_warp_id w" "wst_warp_size w' = 32"
proof -
  have s: "same_but_threads w w'" and F: "lane_threads w' F" "core (F k) = (pc, False, of_nat k)"
    using assms by (auto simp: lanes_moved_def)
  note f = same_but_threads_fields[OF s]
  show "lane_threads w' F" "\<not> is_done (F k)" "ti_laneId (F k) = of_nat k" "ti_PC (F k) = pc"
    using F by (simp_all add: core_def is_done_def)
  show "bit (wst_active_mask w') k" "wst_status w' ! k \<noteq> W_EXIT" "wst_warp_id w' = wst_warp_id w" "wst_warp_size w' = 32"
    using f assms(2-4) by (simp_all add: lanes_at_def lane_threads_def)
qed

abbreviation lane_body ::
  "(u32 \<Rightarrow> Instruction \<times> 'm WarpState \<Rightarrow> (Instruction \<times> 'm WarpState) res) \<Rightarrow> 'm WarpState \<Rightarrow> nat \<Rightarrow>
   bool \<times> Instruction \<times> 'm WarpState \<times> u32 list \<Rightarrow> (bool \<times> Instruction \<times> 'm WarpState \<times> u32 list) res" where
  "lane_body exec w t st \<equiv> bindR (test_lane (wst_active_mask w) t) (\<lambda>a. if a then execute_lane exec
      (wst_warp_size w) (wst_warp_id w) t st else Inr st)"

lemma execute_lanes_body:
  assumes "lanes_at pc w F"
  shows "execute_lanes exec (wst_warp_size w) (wst_warp_id w) (wst_active_mask w) st = forR 32 (lane_body exec w) st"
proof -
  have "unat (wst_warp_size w) = 32" using assms by (simp add: lanes_at_def lane_threads_def)
  then show ?thesis by (simp only: execute_lanes_def)
qed

lemma cbranch_lane:
  assumes ins: "operand_value SRC0 (-1) ins = Inr simm" "operand_value SRC1 (-1) ins = Inr cc"
    and G: "lane_threads v G" "k < 32" "bit (wst_active_mask v) k" "ti_PC (G k) = pc" "\<And>j. ti_NPC (G j) = pc + ins_m_size ins"
  shows "\<exists>v' K. branch_exec (cbranch taken_if) (of_nat k) (ins, v) = Inr (ins, v') \<and> lane_threads v' K \<and> same_but_threads v v' \<and>
    (\<forall>j. core (K j) = core (G j) \<and> ti_NPC (K j) =
       (if j = k \<and> bit cc k = taken_if then pc + simm else pc + ins_m_size ins))"
proof -
  have k: "(of_nat k :: u32) < 32" "unat (of_nat k :: u32) = k" using G(2) by (simp_all add: word_less_nat_alt unat_of_nat)
  have ops: "\<exists>op0 op1. getOperand SRC0 ins = Inr op0 \<and> getValue op0 (-1) = Inr simm \<and> getOperand SRC1 ins = Inr op1 \<and> getValue op1 (-1) = Inr cc"
    using ins by (auto simp: operand_value_def bindR_eq_Inr)
  show ?thesis
  proof (cases "bit cc k = taken_if")
    case True
    obtain v' where "incThreadPC simm (of_nat k) v = Inr v'" "lane_threads v' (G(k := set_npc (pc + simm) (G k)))" "same_but_threads v v'"
      using incThreadPC_lane[OF G(1-3), of simm] G(4) by metis
    then show ?thesis
      using True ops k G(5)
      by (intro exI[of _ v'] exI[of _ "G(k := set_npc (pc + simm) (G k))"])
        (auto simp: branch_exec_def cbranch_def bit_iff_and_push_bit_not_eq_0)
  next
    case False
    then show ?thesis
      using ops k G(1,5)
      by (intro exI[of _ v] exI[of _ G]) (auto simp: branch_exec_def cbranch_def bit_iff_and_push_bit_not_eq_0)
  qed
qed

lemma cbranch_lanes:
  fixes w :: "'m WarpState"
  assumes at: "lanes_at pc w F0" and ins: "\<not> ins_m_is_warp_op ins" "operand_value SRC0 (-1) ins = Inr simm"
    "operand_value SRC1 (-1) ins = Inr cc"
  obtains ld w' F where "execute_lanes (branch_exec (cbranch taken_if)) (wst_warp_size w) (wst_warp_id w) (wst_active_mask w)
      (True, ins, w, c) = Inr (ld, ins, w', c)"
    "lanes_moved (\<lambda>i. if bit cc i = taken_if then pc + simm else pc + ins_m_size ins) pc w 32 w' F"
proof -
  let ?tgt = "\<lambda>i. if bit cc i = taken_if then pc + simm else pc + ins_m_size ins"
  let ?body = "lane_body (branch_exec (cbranch taken_if)) w"
  let ?P = "\<lambda>k (st :: bool \<times> Instruction \<times> 'm WarpState \<times> u32 list).
    \<exists>ld w' F. st = (ld, ins, w', c) \<and> lanes_moved ?tgt pc w k w' F"
  have "\<exists>t. forR 32 ?body (True, ins, w, c) = Inr t \<and> ?P 32 t"
  proof (rule forR_upto[where P = ?P])
    show "?P 0 (True, ins, w, c)" using at by (auto simp: lanes_moved_def lanes_at_def)
    fix k and st :: "bool \<times> Instruction \<times> 'm WarpState \<times> u32 list" assume k: "k < 32" and "?P k st"
    then obtain ld u F where st: "st = (ld, ins, u, c)" and P: "lanes_moved ?tgt pc w k u F" by blast
    show "\<exists>v. ?body k st = Inr v \<and> ?P (Suc k) v"
    proof (cases "bit (wst_active_mask w) k")
      case False
      then show ?thesis using k lanes_moved_skip[OF P] by (auto simp: st test_lane_def)
    next
      case True
      note lane = lanes_moved_lane[OF P at k True]
      let ?N = "\<lambda>j. if j = k \<and> bit cc k = taken_if then pc + simm else pc + ins_m_size ins"
      have run: "\<exists>v' K. branch_exec (cbranch taken_if) (of_nat k) (ins, v) = Inr (ins, v') \<and> lane_threads v' K \<and> same_but_threads v v' \<and>
        (\<forall>j. core (K j) = core (G j) \<and> ti_NPC (K j) = ?N j)"
        if "same_but_threads u v" "lane_threads v G" "ti_PC (G k) = ti_PC (F k)" "\<And>j. ti_NPC (G j) = ti_PC (F k) + ins_m_size ins" for v G
        by (rule cbranch_lane[OF ins(2,3) that(2) k]) (use that lane(2,6) same_but_threads_fields[OF that(1)] in simp_all)
      have skip: "False \<longleftrightarrow> ins_m_is_warp_op ins \<and> \<not> ld" using ins(1) by simp
      obtain u' F' where step: "execute_lane (branch_exec (cbranch taken_if)) (wst_warp_size u) (wst_warp_id u) k (ld, ins, u, c) = Inr (False, ins, u', c)"
        "lane_threads u' F'" "same_but_threads u u'" "core (F' k) = (if False then ti_NPC (F k) else ?N k, snd (core (F k)))"
        "\<And>j. j \<noteq> k \<Longrightarrow> core (F' j) = core (F j)"
        by (rule execute_lane_threads[OF lane(1) k lane(2-5) skip, where exec = "branch_exec (cbranch taken_if)" and N = ?N])
          (rule run, assumption+, rule that, assumption+)
      have "lanes_moved ?tgt pc w (Suc k) u' F'"
        by (rule lanes_moved_step[OF P k step(2,3) _ True]) (use step(4,5) in simp_all)
      then show ?thesis using step(1) True k lane(7,8) at by (auto simp: st test_lane_def lanes_at_def lane_threads_def)
    qed
  qed
  then obtain ld w' F where "forR 32 ?body (True, ins, w, c) = Inr (ld, ins, w', c)" "lanes_moved ?tgt pc w 32 w' F"
    by (elim exE conjE) (simp add: that)
  then show thesis using that unfolding execute_lanes_body[OF at] by blast
qed

text \<open>The leading lane sets the next program counter of all active lanes; the others only move to it.\<close>

lemma S_BRANCH_lane:
  assumes ins: "operand_value SRC0 (-1) ins = Inr simm"
    and G: "lane_threads v G" "k < 32" "bit (wst_active_mask v) k" "ti_PC (G k) = pc"
  shows "\<exists>v' K. branch_exec S_BRANCH (of_nat k) (ins, v) = Inr (ins, v') \<and> lane_threads v' K \<and> same_but_threads v v' \<and>
    (\<forall>j. core (K j) = core (G j) \<and> ti_NPC (K j) = pc + simm)"
proof -
  have ops: "\<exists>op0. getOperand SRC0 ins = Inr op0 \<and> getValue op0 (-1) = Inr simm"
    using ins by (auto simp: operand_value_def bindR_eq_Inr)
  obtain v' where "incWarpPC simm (of_nat k) v = Inr v'" "lane_threads v' (\<lambda>j. set_npc (pc + simm) (G j))" "same_but_threads v v'"
    using incWarpPC_lanes[OF G(1-3), of simm] G(4) by metis
  then show ?thesis
    using ops by (intro exI[of _ v'] exI[of _ "\<lambda>j. set_npc (pc + simm) (G j)"]) (auto simp: branch_exec_def S_BRANCH_def)
qed

lemma S_BRANCH_lanes:
  fixes w :: "'m WarpState"
  assumes at: "lanes_at pc w F0" and ins: "ins_m_is_warp_op ins" "operand_value SRC0 (-1) ins = Inr simm"
  obtains ld w' F where "execute_lanes (branch_exec S_BRANCH) (wst_warp_size w) (wst_warp_id w) (wst_active_mask w)
      (True, ins, w, c) = Inr (ld, ins, w', c)"
    "lanes_moved (\<lambda>i. pc + simm) pc w 32 w' F"
proof -
  let ?tgt = "\<lambda>i :: nat. pc + simm"
  let ?body = "lane_body (branch_exec S_BRANCH) w"
  let ?P = "\<lambda>k (st :: bool \<times> Instruction \<times> 'm WarpState \<times> u32 list).
    \<exists>ld w' F. st = (ld, ins, w', c) \<and> lanes_moved ?tgt pc w k w' F \<and>
      (\<not> ld \<longrightarrow> (\<forall>i < 32. bit (wst_active_mask w) i \<longrightarrow> ti_NPC (F i) = pc + simm))"
  have "\<exists>t. forR 32 ?body (True, ins, w, c) = Inr t \<and> ?P 32 t"
  proof (rule forR_upto[where P = ?P])
    show "?P 0 (True, ins, w, c)" using at by (auto simp: lanes_moved_def lanes_at_def)
    fix k and st :: "bool \<times> Instruction \<times> 'm WarpState \<times> u32 list" assume k: "k < 32" and "?P k st"
    then obtain ld u F where st: "st = (ld, ins, u, c)" and P: "lanes_moved ?tgt pc w k u F"
      and npc: "\<not> ld \<Longrightarrow> \<forall>i < 32. bit (wst_active_mask w) i \<longrightarrow> ti_NPC (F i) = pc + simm" by blast
    show "\<exists>v. ?body k st = Inr v \<and> ?P (Suc k) v"
    proof (cases "bit (wst_active_mask w) k")
      case False
      then show ?thesis using k lanes_moved_skip[OF P] npc by (auto simp: st test_lane_def)
    next
      case True
      note lane = lanes_moved_lane[OF P at k True]
      have run: "\<exists>v' K. branch_exec S_BRANCH (of_nat k) (ins, v) = Inr (ins, v') \<and> lane_threads v' K \<and> same_but_threads v v' \<and>
        (\<forall>j. core (K j) = core (G j) \<and> ti_NPC (K j) = pc + simm)"
        if "same_but_threads u v" "lane_threads v G" "ti_PC (G k) = ti_PC (F k)" "\<And>j. ti_NPC (G j) = ti_PC (F k) + ins_m_size ins" for v G
        by (rule S_BRANCH_lane[OF ins(2) that(2) k]) (use that lane(2,6) same_but_threads_fields[OF that(1)] in simp_all)
      have skip: "\<not> ld \<longleftrightarrow> ins_m_is_warp_op ins \<and> \<not> ld" using ins(1) by simp
      obtain u' F' where step: "execute_lane (branch_exec S_BRANCH) (wst_warp_size u) (wst_warp_id u) k (ld, ins, u, c) = Inr (False, ins, u', c)"
        "lane_threads u' F'" "same_but_threads u u'" "core (F' k) = (if \<not> ld then ti_NPC (F k) else pc + simm, snd (core (F k)))"
        "\<And>j. j \<noteq> k \<Longrightarrow> core (F' j) = core (F j)" "\<And>j. ti_NPC (F' j) = (if \<not> ld then ti_NPC (F j) else pc + simm)"
        by (rule execute_lane_threads[OF lane(1) k lane(2-5) skip, where exec = "branch_exec S_BRANCH" and N = "\<lambda>_. pc + simm"])
          (rule run, assumption+, rule that, assumption+)
      have "lanes_moved ?tgt pc w (Suc k) u' F'"
        by (rule lanes_moved_step[OF P k step(2,3) _ True]) (use step(4,5) npc True k in auto)
      moreover have "ti_NPC (F' i) = pc + simm" if "i < 32" "bit (wst_active_mask w) i" for i
        using step(6)[of i] npc that by auto
      ultimately show ?thesis using step(1) True k lane(7,8) at by (auto simp: st test_lane_def lanes_at_def lane_threads_def)
    qed
  qed
  then obtain ld w' F where "forR 32 ?body (True, ins, w, c) = Inr (ld, ins, w', c)" "lanes_moved ?tgt pc w 32 w' F"
    by (elim exE conjE) (simp add: that)
  then show thesis using that unfolding execute_lanes_body[OF at] by blast
qed


text \<open>The even lanes of a warp at counter 100 branch by 40.\<close>

definition sample_cond :: Instruction where
  "sample_cond = (makeOperand_imm SRC1 0x55555555 (makeOperand_imm SRC0 40 (new_Instruction (OTHER_OP 0))))\<lparr>ins_m_size := 4\<rparr>"

lemma sample_lanes: "lanes_at 100 sample_warp sample_thread"
proof -
  have "wst_thread sample_warp ! i = Some (sample_thread i)" "length (wst_thread sample_warp) = 32" if "i < 32" for i
    using that by (simp_all add: sample_warp_def)
  moreover have "unat (lane_tid sample_warp i) = i" if "i < 32" for i
    using that by (simp add: sample_warp_def unat_of_nat)
  ultimately have "thread_at (lane_tid sample_warp i) sample_warp = Inr (sample_thread i)" if "i < 32" for i
    unfolding thread_at_Inr using that by simp
  moreover have "wst_warp_size sample_warp = 32" "length (wst_status sample_warp) = 32"
    "\<And>i. i < 32 \<Longrightarrow> wst_status sample_warp ! i \<noteq> W_EXIT" by (simp_all add: sample_warp_def)
  moreover have "core (sample_thread i) = (100, False, of_nat i)" for i by (simp add: core_def sample_thread_def)
  ultimately show ?thesis unfolding lanes_at_def lane_threads_def by blast
qed


end
