(* ===== verification/Checkpoint.thy ===== *)
theory Checkpoint
  imports Simt_Stack
begin

text \<open>
  Checkpoints of a warp's reconvergence stack: \<open>Warp::print_checkpoint\<close> writes it to a text file,
  one line per entry, and \<open>Warp::resume\<close> reads it back (model/Warp.cpp), through the functions of
  the C library that they use. The theorem is the round trip, with what it loses.
\<close>

section \<open>The C library functions\<close>

abbreviation space :: char where "space \<equiv> CHR 0x20"
abbreviation newline :: char where "newline \<equiv> CHR 0x0A"

text \<open>The decimal digits that the conversions \<open>%d\<close> and \<open>%lld\<close> write.\<close>

fun digits :: "nat \<Rightarrow> string" where
  "digits n = (if n < 10 then [char_of (48 + n)] else digits (n div 10) @ [char_of (48 + n mod 10)])"

declare digits.simps [simp del]

definition print_int :: "int \<Rightarrow> string" where
  "print_int k = (if k < 0 then CHR ''-'' # digits (nat (- k)) else digits (nat k))"

text \<open>An argument of \<open>%d\<close>: its low 32 bits, as a signed number.\<close>

definition print_d :: "'a::len word \<Rightarrow> string" where
  "print_d x = print_int (sint (ucast x :: u32))"

definition is_digit :: "char \<Rightarrow> bool" where
  "is_digit c \<longleftrightarrow> 48 \<le> (of_char c :: nat) \<and> (of_char c :: nat) \<le> 57"

definition digits_value :: "string \<Rightarrow> int" where
  "digits_value s = foldl (\<lambda>v c. 10 * v + (int (of_char c) - 48)) 0 (takeWhile is_digit s)"

definition is_space :: "char \<Rightarrow> bool" where
  "is_space c \<longleftrightarrow> c = space \<or> (9 \<le> (of_char c :: nat) \<and> (of_char c :: nat) \<le> 13)"

text \<open>\<open>atoi\<close> is undefined when the number is not an \<open>int\<close>; its argument may be a null pointer.\<close>

definition atoi :: "string option \<Rightarrow> int res" where
  "atoi pch = (case pch of None \<Rightarrow> Inl Null_Deref | Some s \<Rightarrow>
     let s = dropWhile is_space s;
         v = (if s \<noteq> [] \<and> hd s = CHR ''-'' then - digits_value (tl s)
              else if s \<noteq> [] \<and> hd s = CHR ''+'' then digits_value (tl s) else digits_value s)
     in failR (v < - (2 ^ 31) \<or> v \<ge> 2 ^ 31) Undefined_Conversion (Inr v))"

text \<open>
  \<open>strtok\<close> with the delimiter \<open>'' ''\<close>: the token, null when there is none, and what the next call
  continues with. \<open>first_char\<close> is \<open>pch[0]\<close>.
\<close>

definition strtok :: "string \<Rightarrow> string option \<times> string" where
  "strtok s = (let s = dropWhile (\<lambda>c. c = space) s in
     if s = [] then (None, []) else (Some (takeWhile (\<lambda>c. c \<noteq> space) s), tl (dropWhile (\<lambda>c. c \<noteq> space) s)))"

definition first_char :: "string option \<Rightarrow> char res" where
  "first_char pch = (case pch of None \<Rightarrow> Inl Null_Deref | Some s \<Rightarrow> Inr (hd s))"

text \<open>\<open>fgets\<close> into a buffer of 200 bytes: at most 199 characters, up to and with a newline.\<close>

definition fgets :: "string \<Rightarrow> string \<times> string" where
  "fgets s = (let n = min 199 (Suc (length (takeWhile (\<lambda>c. c \<noteq> newline) s))) in (take n s, drop n s))"

section \<open>Writing and reading a checkpoint\<close>

definition mask_test :: "u32 \<Rightarrow> nat \<Rightarrow> bool res" where
  "mask_test m j = failR (j \<ge> 32) Out_Of_Range (Inr (bit m j))"

definition type_code :: "stack_entry_type \<Rightarrow> u32" where
  "type_code t = (case t of STACK_ENTRY_TYPE_NORMAL \<Rightarrow> 0 | STACK_ENTRY_TYPE_CALL \<Rightarrow> 1)"

definition print_entry :: "u32 \<Rightarrow> nat \<Rightarrow> SimtStack_entry \<Rightarrow> string \<Rightarrow> string res" where
  "print_entry wid ws e fout =
     bindR (forR ws (\<lambda>j fout. bindR (mask_test (se_active_mask e) j) (\<lambda>b.
       Inr (fout @ [if b then CHR ''1'' else CHR ''0'', space]))) fout) (\<lambda>fout.
     Inr (fout @ print_d (se_PC e) @ [space] @ print_d (se_calldepth e) @ [space] @
       print_d (se_recvg_pc e) @ [space] @ print_int (sint (se_branch_div_cycle e)) @ [space] @
       print_d (type_code (se_type e)) @ [space] @
       print_d wid @ [space] @ print_d (of_nat ws :: u32) @ [newline]))"

definition print_checkpoint :: "Warp \<Rightarrow> string \<Rightarrow> string res" where
  "print_checkpoint w fout = foldR (print_entry (w_warp_id w) (w_warp_size w)) (rev (w_stack w)) fout"

definition parse_lane ::
  "nat \<Rightarrow> SimtStack_entry \<times> string option \<times> string \<Rightarrow> (SimtStack_entry \<times> string option \<times> string) res" where
  "parse_lane j st = (case st of (e, pch, line) \<Rightarrow>
     bindR (first_char pch) (\<lambda>c. failR (j \<ge> 32) Out_Of_Range
       (let m = se_active_mask e in
        Inr (e\<lparr>se_active_mask := (if c = CHR ''1'' then set_bit j m else unset_bit j m)\<rparr>, strtok line))))"

definition parse_entry :: "nat \<Rightarrow> string \<Rightarrow> SimtStack_entry res" where
  "parse_entry ws line =
     bindR (forR ws parse_lane (new_SimtStack_entry, strtok line)) (\<lambda>(e, pch, line).
     bindR (atoi pch) (\<lambda>pc. let (pch, line) = strtok line in
     bindR (atoi pch) (\<lambda>depth. let (pch, line) = strtok line in
     bindR (atoi pch) (\<lambda>recvg. let (pch, line) = strtok line in
     bindR (atoi pch) (\<lambda>cycle. let (pch, line) = strtok line in
     bindR (first_char pch) (\<lambda>c.
       Inr (e\<lparr>se_PC := word_of_int pc, se_calldepth := word_of_int depth, se_recvg_pc := word_of_int recvg,
         se_branch_div_cycle := word_of_int cycle,
         se_type := (if c = CHR ''0'' then STACK_ENTRY_TYPE_NORMAL else STACK_ENTRY_TYPE_CALL)\<rparr>)))))))"

function read_entries :: "nat \<Rightarrow> string \<Rightarrow> simt_stack \<Rightarrow> simt_stack res" where
  "read_entries ws fp2 stk =
     (if fp2 = [] then Inr stk
      else bindR (parse_entry ws (fst (fgets fp2))) (\<lambda>e. read_entries ws (snd (fgets fp2)) (e # stk)))"
  by pat_completeness auto
termination by (relation "measure (\<lambda>(ws, fp2, stk). length fp2)") (auto simp: fgets_def Let_def)

declare read_entries.simps [simp del]

text \<open>The file is \<open>None\<close> when it cannot be opened.\<close>

definition Warp_resume :: "string option \<Rightarrow> Warp \<Rightarrow> Warp res" where
  "Warp_resume fp2 w =
     (let w = Warp_reset w in
      assertR (fp2 \<noteq> None)
        (bindR (read_entries (w_warp_size w) (the fp2) (w_stack w)) (\<lambda>stk. Inr (w\<lparr>w_stack := stk\<rparr>))))"

section \<open>Numbers\<close>

lemma is_digit_char [simp]: "k < 10 \<Longrightarrow> is_digit (char_of (48 + k :: nat))"
  by (simp add: is_digit_def)

lemma digits_all: "\<forall>c \<in> set (digits n). is_digit c"
  by (induction n rule: digits.induct) (subst digits.simps, auto)

lemma digits_nonempty [simp]: "digits n \<noteq> []"
  by (subst digits.simps) simp

lemma digits_value_digits: "foldl (\<lambda>v c. 10 * v + (int (of_char c) - 48)) 0 (digits n) = int n"
proof (induction n rule: digits.induct)
  case (1 n)
  have "10 * int (n div 10) + int (n mod 10) = int n" by presburger
  then show ?case using 1 by (subst digits.simps) auto
qed

lemma length_digits: "n < 10 ^ Suc k \<Longrightarrow> length (digits n) \<le> Suc k"
proof (induction k arbitrary: n)
  case 0
  then show ?case by (subst digits.simps) simp
next
  case (Suc k)
  then have "length (digits (n div 10)) \<le> Suc k" by simp
  then show ?case by (subst digits.simps) simp
qed


lemma digits_chars: "c \<in> set (digits n) \<Longrightarrow> is_digit c \<and> c \<noteq> space \<and> c \<noteq> newline \<and> c \<noteq> CHR ''-'' \<and> c \<noteq> CHR ''+''"
  using digits_all[of n] by (auto simp: is_digit_def)

lemma print_int_chars: "c \<in> set (print_int k) \<Longrightarrow> c \<noteq> space \<and> c \<noteq> newline"
  using digits_chars by (auto simp: print_int_def split: if_splits)

lemma print_int_nonempty [simp]: "print_int k \<noteq> []"
  by (simp add: print_int_def)

lemma length_print_int: "- (2 ^ 31) \<le> k \<Longrightarrow> k < 2 ^ 31 \<Longrightarrow> length (print_int k) \<le> 11"
  using length_digits[of "nat k" 9] length_digits[of "nat (- k)" 9]
  by (cases "k < 0") (fastforce simp: print_int_def)+

lemma not_space_digit: "is_digit c \<Longrightarrow> \<not> is_space c"
  by (auto simp: is_digit_def is_space_def)

lemma digits_value_print [simp]: "digits_value (digits n) = int n"
proof -
  have "takeWhile is_digit (digits n) = digits n" using digits_all by (simp add: takeWhile_eq_all_conv)
  then show ?thesis unfolding digits_value_def by (simp only: digits_value_digits)
qed

lemma atoi_print_int:
  assumes "- (2 ^ 31) \<le> k" "k < 2 ^ 31"
  shows "atoi (Some (print_int k)) = Inr k"
proof -
  have h: "hd (digits n) \<in> set (digits n)" for n by simp
  have d: "dropWhile is_space (digits n) = digits n" for n
    using digits_chars[OF h[of n]] not_space_digit by (cases "digits n") auto
  have "dropWhile is_space (print_int k) = print_int k"
    by (simp add: print_int_def d is_space_def)
  moreover have "hd (digits n) \<noteq> CHR ''-''" "hd (digits n) \<noteq> CHR ''+''" for n
    using digits_chars[OF h] by blast+
  ultimately show ?thesis using assms by (simp add: atoi_def Let_def print_int_def)
qed

lemma atoi_print_d [simp]: "atoi (Some (print_d x)) = Inr (sint (ucast x :: u32))"
  unfolding print_d_def using sint_ge[of "ucast x :: u32"] sint_lt[of "ucast x :: u32"]
  by (intro atoi_print_int) simp_all

lemma length_print_d: "length (print_d x) \<le> 11"
  unfolding print_d_def using sint_ge[of "ucast x :: u32"] sint_lt[of "ucast x :: u32"]
  by (intro length_print_int) simp_all

section \<open>Tokens and lines\<close>

lemma strtok_token:
  assumes "t \<noteq> []" "\<forall>c \<in> set t. c \<noteq> space"
  shows "strtok (t @ space # r) = (Some t, r)"
proof -
  have "dropWhile (\<lambda>c. c = space) (t @ space # r) = t @ space # r" using assms by (cases t) auto
  then show ?thesis using assms by (simp add: strtok_def takeWhile_append dropWhile_append)
qed

lemma fgets_line:
  assumes "\<forall>c \<in> set l. c \<noteq> newline" "length l < 199"
  shows "fgets (l @ newline # r) = (l @ [newline], r)"
  using assms by (simp add: fgets_def Let_def takeWhile_append)


section \<open>The round trip\<close>

text \<open>The text of the lanes from \<open>j\<close> on.\<close>

definition lane_text :: "nat \<Rightarrow> nat \<Rightarrow> u32 \<Rightarrow> string" where
  "lane_text j ws m = concat (map (\<lambda>i. [if bit m i then CHR ''1'' else CHR ''0'', space]) [j..<ws])"

definition entry_text :: "SimtStack_entry \<Rightarrow> string" where
  "entry_text e = print_d (se_PC e) @ space # print_d (se_calldepth e) @ space #
     print_d (se_recvg_pc e) @ space # print_int (sint (se_branch_div_cycle e)) @ space #
     print_d (type_code (se_type e)) @ space # []"

definition line_text :: "u32 \<Rightarrow> nat \<Rightarrow> SimtStack_entry \<Rightarrow> string" where
  "line_text wid ws e = lane_text 0 ws (se_active_mask e) @ entry_text e @ print_d wid @ space # print_d (of_nat ws :: u32)"

lemma lane_text_step: "j < ws \<Longrightarrow> lane_text j ws m = [if bit m j then CHR ''1'' else CHR ''0'', space] @ lane_text (Suc j) ws m"
  by (simp add: lane_text_def upt_conv_Cons)

lemma print_entry_text:
  assumes "ws \<le> 32"
  shows "print_entry wid ws e fout = Inr (fout @ line_text wid ws e @ [newline])"
proof -
  let ?m = "se_active_mask e"
  have "forR n (\<lambda>j fout. bindR (mask_test ?m j) (\<lambda>b. Inr (fout @ [if b then CHR ''1'' else CHR ''0'', space]))) fout =
      Inr (fout @ lane_text 0 n ?m)" if "n \<le> 32" for n
    using that by (induction n) (auto simp: forR_Suc lane_text_def mask_test_def)
  from this[OF assms] show ?thesis by (simp add: print_entry_def line_text_def entry_text_def)
qed

lemma print_checkpoint_text:
  assumes "w_warp_size w \<le> 32"
  shows "print_checkpoint w fout = Inr (fout @
    concat (map (\<lambda>e. line_text (w_warp_id w) (w_warp_size w) e @ [newline]) (rev (w_stack w))))"
proof -
  have "foldR (print_entry (w_warp_id w) (w_warp_size w)) es fout =
      Inr (fout @ concat (map (\<lambda>e. line_text (w_warp_id w) (w_warp_size w) e @ [newline]) es))" for es
    by (induction es arbitrary: fout) (simp_all add: print_entry_text assms)
  then show ?thesis by (simp add: print_checkpoint_def)
qed

text \<open>What a checkpoint keeps: program counters and the cycle with 32 bits, the lanes of the warp.\<close>

definition checkpoint_ok :: "SimtStack_entry \<Rightarrow> bool" where
  "checkpoint_ok e \<longleftrightarrow> se_branch_div_cycle e < 2 ^ 31"

definition restored :: "nat \<Rightarrow> SimtStack_entry \<Rightarrow> SimtStack_entry" where
  "restored ws e = e\<lparr>se_PC := scast (ucast (se_PC e) :: u32), se_recvg_pc := scast (ucast (se_recvg_pc e) :: u32),
     se_active_mask := take_bit ws (se_active_mask e)\<rparr>"

lemma cycle_range:
  fixes x :: u64
  assumes "x < 2 ^ 31"
  shows "0 \<le> sint x \<and> sint x < 2 ^ 31"
proof -
  have u: "uint x < 2 ^ 31" using assms by (simp add: word_less_def)
  then have "signed_take_bit 63 (uint x) = uint x"
    by (intro signed_take_bit_int_eq_self) (auto intro: order_trans[OF _ unsigned_greater_eq])
  then show ?thesis using u by (simp add: sint_uint)
qed

lemma parse_lanes:
  assumes "ws \<le> 32" "se_active_mask e = 0"
  shows "forR ws parse_lane (e, strtok (lane_text 0 ws m @ r)) = Inr (e\<lparr>se_active_mask := take_bit ws m\<rparr>, strtok r)"
proof -
  let ?P = "\<lambda>j (st :: SimtStack_entry \<times> string option \<times> string). st = (e\<lparr>se_active_mask := take_bit j m\<rparr>, strtok (lane_text j ws m @ r))"
  have step: "\<exists>st'. parse_lane j st = Inr st' \<and> ?P (Suc j) st'" if j: "j < ws" and st: "?P j st" for j st
  proof -
    have "strtok (lane_text j ws m @ r) = (Some [if bit m j then CHR ''1'' else CHR ''0''], lane_text (Suc j) ws m @ r)"
      using strtok_token[of "[if bit m j then CHR ''1'' else CHR ''0'']" "lane_text (Suc j) ws m @ r"]
      by (simp add: lane_text_step[OF j])
    moreover have "(if bit m j then set_bit j (take_bit j m) else unset_bit j (take_bit j m)) = take_bit (Suc j) m"
      using j assms(1) by (intro bit_word_eqI) (auto simp: bit_simps less_Suc_eq)
    ultimately show ?thesis using j assms(1) st
      by (cases "strtok (lane_text (Suc j) ws m @ r)") (auto simp: parse_lane_def first_char_def)
  qed
  have "\<exists>st. forR ws parse_lane (e, strtok (lane_text 0 ws m @ r)) = Inr st \<and> ?P ws st"
    by (rule forR_upto[where P = ?P]) (use assms(2) step in auto)
  then obtain st where "forR ws parse_lane (e, strtok (lane_text 0 ws m @ r)) = Inr st" "?P ws st" by blast
  then show ?thesis by (simp add: lane_text_def)
qed

lemma strtok_print_int [simp]: "strtok (print_int k @ space # r) = (Some (print_int k), r)"
  using print_int_chars by (intro strtok_token) auto

lemma strtok_print_d [simp]: "strtok (print_d x @ space # r) = (Some (print_d x), r)"
  by (simp add: print_d_def)

lemma print_type: "print_d (type_code t) = (case t of STACK_ENTRY_TYPE_NORMAL \<Rightarrow> ''0'' | STACK_ENTRY_TYPE_CALL \<Rightarrow> ''1'')"
proof -
  have "print_d (0 :: u32) = ''0''" "print_d (1 :: u32) = ''1''" by code_simp+
  then show ?thesis by (cases t) (simp_all add: type_code_def)
qed

lemma parse_line:
  assumes "ws \<le> 32" "checkpoint_ok e"
  shows "parse_entry ws (line_text wid ws e @ r) = Inr (restored ws e)"
proof -
  have c: "atoi (Some (print_int (sint (se_branch_div_cycle e)))) = Inr (sint (se_branch_div_cycle e))"
    using cycle_range[of "se_branch_div_cycle e"] assms(2) by (intro atoi_print_int) (auto simp: checkpoint_ok_def)
  have t: "first_char (Some (print_d (type_code (se_type e)))) = Inr (if se_type e = STACK_ENTRY_TYPE_NORMAL then CHR ''0'' else CHR ''1'')"
    by (cases "se_type e") (simp_all add: print_type first_char_def)
  have r: "new_SimtStack_entry\<lparr>se_active_mask := m, se_PC := pc, se_calldepth := se_calldepth e, se_recvg_pc := rp,
      se_branch_div_cycle := se_branch_div_cycle e,
      se_type := if (if se_type e = STACK_ENTRY_TYPE_NORMAL then CHR ''0'' else CHR ''1'') = CHR ''0''
        then STACK_ENTRY_TYPE_NORMAL else STACK_ENTRY_TYPE_CALL\<rparr> =
      e\<lparr>se_PC := pc, se_recvg_pc := rp, se_active_mask := m\<rparr>" for m pc rp
    by (cases e; cases "se_type e") (simp_all add: new_SimtStack_entry_def)
  have "se_active_mask new_SimtStack_entry = 0" by (simp add: new_SimtStack_entry_def)
  note l = parse_lanes[OF assms(1) this, of "se_active_mask e" "entry_text e @ print_d wid @ space # print_d (of_nat ws :: u32) @ r"]
  show ?thesis
    using l by (simp add: parse_entry_def line_text_def entry_text_def c t r restored_def del: if_split_asm)
qed

lemma line_text_fits:
  assumes "ws \<le> 32" "checkpoint_ok e"
  shows "length (line_text wid ws e) < 199" "\<forall>c \<in> set (line_text wid ws e). c \<noteq> newline"
proof -
  have "length (lane_text 0 n m) = 2 * n" for n m by (induction n) (auto simp: lane_text_def)
  moreover have "length (print_int (sint (se_branch_div_cycle e))) \<le> 11"
    using cycle_range[of "se_branch_div_cycle e"] assms(2) by (intro length_print_int) (auto simp: checkpoint_ok_def)
  ultimately show "length (line_text wid ws e) < 199"
    using assms(1) length_print_d[of "se_PC e"] length_print_d[of "se_calldepth e"] length_print_d[of "se_recvg_pc e"]
      length_print_d[of "type_code (se_type e)"] length_print_d[of wid] length_print_d[of "of_nat ws :: u32"]
    by (simp add: line_text_def entry_text_def)
  show "\<forall>c \<in> set (line_text wid ws e). c \<noteq> newline"
    using print_int_chars by (auto simp: line_text_def entry_text_def lane_text_def print_d_def split: if_splits)
qed

lemma read_lines:
  assumes "ws \<le> 32" "\<forall>e \<in> set es. checkpoint_ok e"
  shows "read_entries ws (concat (map (\<lambda>e. line_text wid ws e @ [newline]) es)) stk =
    Inr (rev (map (restored ws) es) @ stk)"
  using assms(2)
proof (induction es arbitrary: stk)
  case Nil
  then show ?case by (simp add: read_entries.simps)
next
  case (Cons e es)
  let ?r = "concat (map (\<lambda>e. line_text wid ws e @ [newline]) es)"
  have "fgets (line_text wid ws e @ newline # ?r) = (line_text wid ws e @ [newline], ?r)"
    using Cons.prems by (intro fgets_line line_text_fits[OF assms(1)]) auto
  then show ?case using Cons parse_line[OF assms(1), of e wid "[newline]"]
    by (subst read_entries.simps) simp
qed

lemma restored_exact:
  assumes "se_active_mask e < 2 ^ ws" "se_PC e \<in> range (scast :: u32 \<Rightarrow> addr_t)" "se_recvg_pc e \<in> range (scast :: u32 \<Rightarrow> addr_t)"
  shows "restored ws e = e"
proof -
  have x: "scast (ucast x :: u32) = x" if "x \<in> range (scast :: u32 \<Rightarrow> addr_t)" for x
  proof -
    have "ucast (scast y :: addr_t) = y" for y :: u32 by (rule bit_word_eqI) (auto simp: bit_simps)
    then show ?thesis using that by auto
  qed
  have "take_bit ws (se_active_mask e) = se_active_mask e"
    using assms(1) by (metis less_mask_eq take_bit_eq_mask)
  then show ?thesis by (simp add: restored_def x[OF assms(2)] x[OF assms(3)])
qed

text \<open>
  C32. A checkpoint restores the stack of a warp: what \<open>print_checkpoint\<close> writes, \<open>resume\<close> reads back
  into any warp of the same size, entry by entry and in the same order. Program counters are cut to
  32 bits and extended with their sign, and only the lanes of the warp are kept; an entry that has
  neither wider counters nor other lanes is restored as it was.
\<close>

theorem checkpoint_roundtrip:
  assumes "w_warp_size w \<le> 32" "\<forall>e \<in> set (w_stack w). se_branch_div_cycle e < 2 ^ 31"
  shows "\<exists>text. print_checkpoint w [] = Inr text \<and>
    (\<forall>v. w_warp_size v = w_warp_size w \<longrightarrow>
      Warp_resume (Some text) v = Inr (v\<lparr>w_stack := map (restored (w_warp_size w)) (w_stack w)\<rparr>)) \<and>
    (\<forall>e \<in> set (w_stack w). se_active_mask e < 2 ^ w_warp_size w \<longrightarrow>
      se_PC e \<in> range (scast :: u32 \<Rightarrow> addr_t) \<longrightarrow> se_recvg_pc e \<in> range (scast :: u32 \<Rightarrow> addr_t) \<longrightarrow>
      restored (w_warp_size w) e = e)"
proof (intro exI conjI allI ballI impI)
  show "print_checkpoint w [] =
      Inr (concat (map (\<lambda>e. line_text (w_warp_id w) (w_warp_size w) e @ [newline]) (rev (w_stack w))))"
    using print_checkpoint_text[OF assms(1), of "[]"] by simp
  fix v :: Warp assume "w_warp_size v = w_warp_size w"
  then show "Warp_resume (Some (concat (map (\<lambda>e. line_text (w_warp_id w) (w_warp_size w) e @ [newline]) (rev (w_stack w))))) v =
      Inr (v\<lparr>w_stack := map (restored (w_warp_size w)) (w_stack w)\<rparr>)"
    using assms by (simp add: Warp_resume_def Warp_reset_def read_lines checkpoint_ok_def Let_def rev_map)
qed (rule restored_exact)

theorem checkpoint_roundtrip_witness:
  "\<exists>text. print_checkpoint (snd sample_run) [] = Inr text \<and>
    (\<forall>v. w_warp_size v = w_warp_size (snd sample_run) \<longrightarrow>
      Warp_resume (Some text) v = Inr (v\<lparr>w_stack := map (restored (w_warp_size (snd sample_run))) (w_stack (snd sample_run))\<rparr>)) \<and>
    (\<forall>e \<in> set (w_stack (snd sample_run)). se_active_mask e < 2 ^ w_warp_size (snd sample_run) \<longrightarrow>
      se_PC e \<in> range (scast :: u32 \<Rightarrow> addr_t) \<longrightarrow> se_recvg_pc e \<in> range (scast :: u32 \<Rightarrow> addr_t) \<longrightarrow>
      restored (w_warp_size (snd sample_run)) e = e)"
  by (rule checkpoint_roundtrip) code_simp+

end
