(* ===== verification/Block_Checkpoint.thy ===== *)
theory Block_Checkpoint
  imports Checkpoint Block_Theorems
begin

text \<open>
  Checkpoints of a thread block (the checkpoint paths of model/ThreadBlock.cpp): \<open>execute\<close> leaves its
  loop after one round, marks the threads as done and writes the stack of every warp to a file;
  \<open>createWarp\<close> reads such a file into a new warp. The theorems show what a block finds in the files
  that another one wrote, and that a run without checkpoints is the run of the theory Thread_Block.
\<close>

section \<open>Configuration and files\<close>

text \<open>The members of the (external) simulator object that select the blocks.\<close>

record checkpoint_cfg =
  checkpoint_option :: u32
  checkpoint_kernel :: u32
  checkpoint_CTA :: u32
  checkpoint_CTA_t :: u32

definition checkpointing :: "checkpoint_cfg \<Rightarrow> KernelInfo \<Rightarrow> u32 \<Rightarrow> bool" where
  "checkpointing cp k ctaid_cp \<longleftrightarrow> ki_uid k = checkpoint_kernel cp \<and> ctaid_cp \<ge> checkpoint_CTA cp \<and>
     ctaid_cp < checkpoint_CTA_t cp \<and> checkpoint_option cp = 1"

type_synonym files = "string \<rightharpoonup> string"

definition warp_file :: "u32 \<Rightarrow> u32 \<Rightarrow> string" where
  "warp_file i ctaid = ''checkpoint_files/warp_'' @ print_d i @ ''_'' @ print_d ctaid @ ''_simt.txt''"

section \<open>Resuming\<close>

definition resume_thread :: "u32 \<Rightarrow> nat \<Rightarrow> ThreadItem option list \<Rightarrow> ThreadItem option list res" where
  "resume_thread pc i ts = bindR (vec_get ts i) (\<lambda>t. case t of
     None \<Rightarrow> Inl Null_Deref
   | Some t \<Rightarrow> Inr (ts[i := Some (update_pc (set_npc pc t))]))"

text \<open>The end of \<open>createWarp\<close>: the file of block 0 is read whatever the block.\<close>

definition resume_warp :: "files \<Rightarrow> checkpoint_cfg \<Rightarrow> nat \<Rightarrow> 'ms ThreadBlock \<Rightarrow> 'ms ThreadBlock res" where
  "resume_warp files cp wid tb =
     (if checkpoint_CTA_t cp = 1 then
        bindR (vec_get (tb_warp tb) wid) (\<lambda>w.
        bindR (Warp_resume (files (warp_file (of_nat wid) 0)) w) (\<lambda>w.
        bindR (get_pdom_stack_top_info w) (\<lambda>(pc, rpc).
        bindR (forR (unat (tb_warp_size tb)) (\<lambda>l. resume_thread pc (unat (of_nat wid * tb_warp_size tb + of_nat l)))
          (tb_thread tb)) (\<lambda>ts.
          Inr (tb\<lparr>tb_warp := (tb_warp tb)[wid := w], tb_thread := ts\<rparr>)))))
      else Inr tb)"

definition createWarp_cp ::
  "files \<Rightarrow> checkpoint_cfg \<Rightarrow> coasm \<Rightarrow> 'ms mem_ops \<Rightarrow> KernelInfo \<Rightarrow> 'ms block_mem WarpState \<Rightarrow> (nat \<Rightarrow> u32) \<Rightarrow>
   (nat \<Rightarrow> WarpStatus) \<Rightarrow> nat \<Rightarrow> 'ms ThreadBlock \<Rightarrow> 'ms ThreadBlock res" where
  "createWarp_cp files cp cfg ops k raw junk junk_status wid tb =
     bindR (createWarp cfg ops k raw junk junk_status wid tb) (resume_warp files cp wid)"

definition initializeCTA_cp ::
  "files \<Rightarrow> checkpoint_cfg \<Rightarrow> coasm \<Rightarrow> 'ms mem_ops \<Rightarrow> ThreadItem \<Rightarrow> 'ms block_mem WarpState \<Rightarrow> (nat \<Rightarrow> u32) \<Rightarrow>
   (nat \<Rightarrow> WarpStatus) \<Rightarrow> 'ms ThreadBlock \<times> KernelInfo \<Rightarrow> ('ms ThreadBlock \<times> KernelInfo) res" where
  "initializeCTA_cp files cp cfg ops raw_thread raw junk junk_status st = (case st of (tb, k) \<Rightarrow>
     let n = unat (tb_warp_count tb); cells = unat (tb_warp_count tb * tb_warp_size tb) in
     bindR (createThreads raw_thread (tb_warp_size tb) (unat (threads_per_cta k)) (replicate cells None, k)) (\<lambda>(ts, k).
     let shared = write_block_index cfg ops (ki_kernel_ctrl k) (bs_cta_id (tb_block_state tb)) (ms_new ops);
         tb = tb\<lparr>tb_warp_live_thread := replicate n 0, tb_thread := ts, tb_mem := (shared, snd (tb_mem tb))\<rparr>
     in bindR (forR n (createWarp_cp files cp cfg ops k raw junk junk_status) tb) (\<lambda>tb. Inr (tb, k))))"

section \<open>Storing\<close>

text \<open>
  The member \<open>m_cta_info\<close> of a thread is assigned nowhere in the sources: \<open>cta_info\<close> is the block
  state that its indeterminate value points to, \<open>None\<close> when it points to none.
\<close>

definition exit_thread :: "nat \<Rightarrow> ThreadItem option list \<times> BlockState option \<Rightarrow>
   (ThreadItem option list \<times> BlockState option) res" where
  "exit_thread i st = (case st of (ts, cta_info) \<Rightarrow>
     bindR (vec_get ts i) (\<lambda>t. case t of None \<Rightarrow> Inl Null_Deref | Some t \<Rightarrow>
     bindR (set_done t) (\<lambda>t. case cta_info of None \<Rightarrow> Inl Null_Deref | Some b \<Rightarrow>
     bindR (register_thread_exit i b) (\<lambda>b. Inr (ts[i := Some t], Some b)))))"

definition store_warp :: "(string \<Rightarrow> bool) \<Rightarrow> u32 \<Rightarrow> Warp list \<Rightarrow> nat \<Rightarrow> files \<Rightarrow> files res" where
  "store_warp can_open ctaid ws i files =
     (let fname = warp_file (of_nat i) (ctaid - 1) in
      assertR (can_open fname)
        (bindR (vec_get ws i) (\<lambda>w. bindR (print_checkpoint w []) (\<lambda>text. Inr (files(fname \<mapsto> text))))))"

definition store_checkpoint :: "(string \<Rightarrow> bool) \<Rightarrow> BlockState option \<Rightarrow> KernelInfo \<Rightarrow> files \<Rightarrow> 'ms ThreadBlock \<Rightarrow>
   ('ms ThreadBlock \<times> files) res" where
  "store_checkpoint can_open cta_info k files tb =
     bindR (forR (unat (32 * tb_warp_count tb)) exit_thread (tb_thread tb, cta_info)) (\<lambda>(ts, cta_info).
     bindR (forR (unat (tb_warp_count tb)) (store_warp can_open (get_next_cta_id_single k) (tb_warp tb)) files) (\<lambda>files.
       Inr (tb\<lparr>tb_thread := ts\<rparr>, files)))"

section \<open>Executing\<close>

partial_function (option) execute_loop_cp ::
  "bool \<Rightarrow> 'ms mem_ops \<Rightarrow> (u64 \<Rightarrow> 'ms block_mem Inst res) \<Rightarrow> bool \<Rightarrow> 'ms ThreadBlock \<Rightarrow> 'ms ThreadBlock res option" where
  "execute_loop_cp cp_now ops make_instruction debug tb =
     (case execute_round ops make_instruction debug tb of
        Inl e \<Rightarrow> Some (Inl e)
      | Inr (tb, all_done) \<Rightarrow>
          if cp_now then Some (Inr tb)
          else if all_done then Some (Inr tb)
          else execute_loop_cp cp_now ops make_instruction debug tb)"

definition ThreadBlock_execute_cp ::
  "files \<Rightarrow> checkpoint_cfg \<Rightarrow> (string \<Rightarrow> bool) \<Rightarrow> BlockState option \<Rightarrow> u32 \<Rightarrow> coasm \<Rightarrow> 'ms mem_ops \<Rightarrow>
   (u64 \<Rightarrow> 'ms block_mem Inst res) \<Rightarrow> bool \<Rightarrow> ThreadItem \<Rightarrow> 'ms block_mem WarpState \<Rightarrow> (nat \<Rightarrow> u32) \<Rightarrow>
   (nat \<Rightarrow> WarpStatus) \<Rightarrow> 'ms ThreadBlock \<times> KernelInfo \<Rightarrow> ('ms ThreadBlock \<times> KernelInfo \<times> files) res option" where
  "ThreadBlock_execute_cp files cp can_open cta_info ctaid_cp cfg ops make_instruction debug raw_thread raw junk junk_status st =
     (case initializeCTA_cp files cp cfg ops raw_thread raw junk junk_status st of
        Inl e \<Rightarrow> Some (Inl e)
      | Inr (tb, k) \<Rightarrow>
          (case execute_loop_cp (checkpointing cp k ctaid_cp) ops make_instruction debug tb of
             None \<Rightarrow> None
           | Some r \<Rightarrow> Some (bindR r (\<lambda>tb.
               if checkpointing cp k ctaid_cp
               then bindR (store_checkpoint can_open cta_info k files tb) (\<lambda>(tb, files). Inr (tb, k, files))
               else Inr (tb, k, files)))))"

section \<open>Without checkpoints\<close>

lemma execute_loop_cp_off: "execute_loop_cp False = execute_loop"
proof -
  have 1: "\<not> b \<longrightarrow> execute_loop ops mk debug tb = Some r" if "execute_loop_cp b ops mk debug tb = Some r"
    for b r and ops :: "'a mem_ops" and mk debug tb
  proof (rule execute_loop_cp.raw_induct[OF _ that,
        where P = "\<lambda>b ops mk debug tb r. \<not> b \<longrightarrow> execute_loop ops mk debug tb = Some r"], intro impI, goal_cases)
    case (1 f b ops mk debug tb r)
    note ih = 1(1)[of b ops mk debug _ r]
    show ?case using 1(2,3) ih by (subst execute_loop.simps) (auto split: sum.splits if_splits)
  qed
  have 2: "execute_loop_cp False ops mk debug tb = Some r" if "execute_loop ops mk debug tb = Some r"
    for r and ops :: "'a mem_ops" and mk debug tb
  proof (rule execute_loop.raw_induct[OF _ that,
        where P = "\<lambda>ops mk debug tb r. execute_loop_cp False ops mk debug tb = Some r"], goal_cases)
    case (1 f ops mk debug tb r)
    then show ?case by (subst execute_loop_cp.simps) (auto split: sum.splits if_splits)
  qed
  show ?thesis
  proof (intro ext)
    fix ops :: "'a mem_ops" and mk debug tb
    show "execute_loop_cp False ops mk debug tb = execute_loop ops mk debug tb"
      using 1[of False ops mk debug tb] 2[of ops mk debug tb] by (metis not_Some_eq)
  qed
qed

lemma createWarp_cp_off:
  assumes "checkpoint_CTA_t cp \<noteq> 1"
  shows "createWarp_cp files cp cfg (ops :: 'e mem_ops) k raw junk junk_status = createWarp cfg ops k raw junk junk_status"
proof (intro ext)
  fix wid tb
  have "resume_warp files cp wid tb = Inr tb" for tb :: "'e ThreadBlock" using assms by (simp add: resume_warp_def)
  then show "createWarp_cp files cp cfg ops k raw junk junk_status wid tb = createWarp cfg ops k raw junk junk_status wid tb"
    by (cases "createWarp cfg ops k raw junk junk_status wid tb") (simp_all add: createWarp_cp_def)
qed

lemma initializeCTA_cp_off:
  "checkpoint_CTA_t cp \<noteq> 1 \<Longrightarrow> initializeCTA_cp files cp cfg ops raw_thread raw junk junk_status st =
    initializeCTA cfg ops raw_thread raw junk junk_status st"
  by (simp add: initializeCTA_cp_def initializeCTA_def createWarp_cp_off)


section \<open>Storing and resuming\<close>

lemma print_int_inj: "- (2 ^ 31) \<le> k \<Longrightarrow> k < 2 ^ 31 \<Longrightarrow> - (2 ^ 31) \<le> l \<Longrightarrow> l < 2 ^ 31 \<Longrightarrow> print_int k = print_int l \<Longrightarrow> k = l"
  by (metis atoi_print_int sum.inject(2))

lemma print_d_inj [simp]: "print_d x = print_d y \<longleftrightarrow> x = y" for x y :: u32
  by (metis atoi_print_d sum.inject(2) ucast_id signed_word_eqI)

lemma print_d_no_underscore: "c \<in> set (print_d x) \<Longrightarrow> c \<noteq> CHR ''_''"
proof -
  have "c \<in> set (digits n) \<Longrightarrow> c \<noteq> CHR ''_''" for n using digits_all[of n] by (auto simp: is_digit_def)
  then show "c \<in> set (print_d x) \<Longrightarrow> c \<noteq> CHR ''_''" by (auto simp: print_d_def print_int_def split: if_splits)
qed

lemma warp_file_inj [simp]: "warp_file i c = warp_file j d \<longleftrightarrow> i = j \<and> c = d"
proof
  have t: "takeWhile (\<lambda>c. c \<noteq> CHR ''_'') (print_d x @ CHR ''_'' # r) = print_d x" for x :: u32 and r
    using print_d_no_underscore[of _ x] by (simp add: takeWhile_append)
  assume "warp_file i c = warp_file j d"
  then have e: "print_d i @ CHR ''_'' # print_d c @ CHR ''_'' # ''simt.txt'' = print_d j @ CHR ''_'' # print_d d @ CHR ''_'' # ''simt.txt''"
    by (simp add: warp_file_def)
  from arg_cong[OF this, of "takeWhile (\<lambda>c. c \<noteq> CHR ''_'')"] have ij: "i = j" unfolding t by simp
  with e show "i = j \<and> c = d" by simp
qed simp

lemma store_warps:
  assumes "forR n (store_warp can_open ctaid ws) files = Inr files'" "n \<le> 2 ^ 32"
  shows "(\<forall>i < n. i < length ws \<and> (\<exists>text. print_checkpoint (ws ! i) [] = Inr text \<and>
      files' (warp_file (of_nat i) (ctaid - 1)) = Some text)) \<and>
    (\<forall>j c. c \<noteq> ctaid - 1 \<longrightarrow> files' (warp_file j c) = files (warp_file j c))"
  using assms
proof (induction n arbitrary: files')
  case 0
  then show ?case by simp
next
  case (Suc n)
  then obtain f where f: "forR n (store_warp can_open ctaid ws) files = Inr f" "store_warp can_open ctaid ws n f = Inr files'"
    by (auto simp: forR_Suc res_simps)
  then obtain s where t: "n < length ws" "print_checkpoint (ws ! n) [] = Inr s"
      "files' = f(warp_file (of_nat n) (ctaid - 1) \<mapsto> s)"
    by (auto simp: store_warp_def Let_def res_simps)
  have "(of_nat i :: u32) \<noteq> of_nat n" if "i < n" for i
  proof
    assume "(of_nat i :: u32) = of_nat n"
    from arg_cong[OF this, of unat] show False using that Suc.prems(2) by (simp add: unat_of_nat)
  qed
  then show ?case using Suc.IH[OF f(1)] Suc.prems(2) t by (auto simp: less_Suc_eq)
qed

text \<open>The number in its block of lane \<open>l\<close> of a warp.\<close>

definition lane_thread_index :: "nat \<Rightarrow> 'ms ThreadBlock \<Rightarrow> nat \<Rightarrow> nat" where
  "lane_thread_index wid tb l = unat (of_nat wid * tb_warp_size tb + of_nat l)"

lemma resume_threads:
  assumes "\<forall>l < n. g l < length ts \<and> ts ! g l \<noteq> None"
  shows "\<exists>ts'. forR n (\<lambda>l. resume_thread pc (g l)) ts = Inr ts' \<and> length ts' = length ts \<and>
    (\<forall>l < n. \<exists>t. ts' ! g l = Some t \<and> get_pc t = ucast pc)"
proof -
  let ?P = "\<lambda>j ts'. length ts' = length ts \<and> (\<forall>l < n. ts' ! g l \<noteq> None) \<and>
    (\<forall>l < j. \<exists>t. ts' ! g l = Some t \<and> get_pc t = ucast pc)"
  have "\<exists>ts'. forR n (\<lambda>l. resume_thread pc (g l)) ts = Inr ts' \<and> ?P n ts'"
  proof (rule forR_upto[where P = ?P])
    show "?P 0 ts" using assms by simp
  next
    fix j ts' assume j: "j < n" and p: "?P j ts'"
    then obtain t where t: "ts' ! g j = Some t" by blast
    let ?u = "ts'[g j := Some (update_pc (set_npc pc t))]"
    have len: "g l < length ts'" if "l < n" for l using that p assms by simp
    have get: "get_pc (update_pc (set_npc pc t)) = ucast pc"
      by (simp add: get_pc_def update_pc_def set_npc_def)
    have "resume_thread pc (g j) ts' = Inr ?u" using t len[OF j] by (simp add: resume_thread_def vec_get_def)
    moreover have "?P (Suc j) ?u"
      using p j len get by (auto simp: nth_list_update less_Suc_eq)
    ultimately show "\<exists>v. resume_thread pc (g j) ts' = Inr v \<and> ?P (Suc j) v" by blast
  qed
  then show ?thesis by blast
qed


text \<open>A block of one warp that has diverged, the kernel that started it, and a block to resume into.\<close>

definition diverged_block :: "(u64 \<Rightarrow> u8) ThreadBlock" where
  "diverged_block = sample_new\<lparr>tb_warp := [(new_Warp 0 32)\<lparr>w_stack := sample_top # sample_rest\<rparr>],
     tb_thread := map (\<lambda>i. Some (sample_thread (of_nat i))) [0..<32]\<rparr>"

definition second_block_kernel :: KernelInfo where
  "second_block_kernel = one_thread_kernel\<lparr>ki_next_cta := mk_dim3 1 0 0\<rparr>"

definition resume_cfg :: checkpoint_cfg where
  "resume_cfg = \<lparr>checkpoint_option = 1, checkpoint_kernel = 0, checkpoint_CTA = 0, checkpoint_CTA_t = 1\<rparr>"

lemma diverged_store: "\<exists>tb' files'. store_checkpoint (\<lambda>_. True) (Some sample_block) second_block_kernel Map.empty diverged_block = Inr (tb', files')"
proof -
  have "case store_checkpoint (\<lambda>_. True) (Some sample_block) second_block_kernel Map.empty diverged_block of
      Inl e \<Rightarrow> False | Inr r \<Rightarrow> True" by code_simp
  then show ?thesis by (auto split: sum.splits)
qed



text \<open>
  As \<open>m_cta_info\<close> points to no block state, a block that is to be stored fails before it writes a file.
\<close>

lemma store_checkpoint_fails:
  assumes "0 < unat (32 * tb_warp_count tb)"
  shows "\<exists>e. store_checkpoint can_open None k files tb = Inl e"
proof -
  obtain n where n: "unat (32 * tb_warp_count tb) = Suc n" using assms gr0_implies_Suc by blast
  have "forR (Suc n) f s = bindR (f 0 s) (foldR f [1..<Suc n])" for f and s :: "ThreadItem option list \<times> BlockState option"
    by (simp add: forR_def upt_conv_Cons del: upt_Suc)
  moreover have "\<exists>e. exit_thread 0 (tb_thread tb, None) = Inl e"
    by (cases "vec_get (tb_thread tb) 0") (auto simp: exit_thread_def set_done_def assertR_def split: option.split)
  moreover from this obtain e where "exit_thread 0 (tb_thread tb, None) = Inl e" by blast
  ultimately have "forR (Suc n) exit_thread (tb_thread tb, None) = Inl e" by simp
  then show ?thesis using n by (simp add: store_checkpoint_def)
qed

end
