(* ===== verification/Int_Math.thy ===== *)
theory Int_Math
  imports Sim_Prelude
begin

text \<open>
  The integer and string helpers of common/intmath.h: alignment, powers of two, logarithm, bit
  selection and trimming. The templates are modelled at the 64-bit instances (addresses), the
  functions that exist for both widths at both.
\<close>

section \<open>The helpers\<close>

definition Min2 :: "'a::linorder \<Rightarrow> 'a \<Rightarrow> 'a" where
  "Min2 a b = (if a > b then b else a)"

fun Min_args :: "'a::linorder \<Rightarrow> 'a \<Rightarrow> 'a list \<Rightarrow> 'a" where
  "Min_args a b [] = Min2 a b"
| "Min_args a b (c # args) = Min2 a (Min_args b c args)"

definition Max2 :: "'a::linorder \<Rightarrow> 'a \<Rightarrow> 'a" where
  "Max2 a b = (if b > a then b else a)"

fun Max_args :: "'a::linorder \<Rightarrow> 'a \<Rightarrow> 'a list \<Rightarrow> 'a" where
  "Max_args a b [] = Max2 a b"
| "Max_args a b (c # args) = Max2 a (Max_args b c args)"

definition IsPowerOfTwo :: "'a::len word \<Rightarrow> bool" where
  "IsPowerOfTwo n \<longleftrightarrow> n \<noteq> 0 \<and> n AND (n - 1) = 0"

definition AlignDown :: "u64 \<Rightarrow> u64 \<Rightarrow> u64 res" where
  "AlignDown value alignment = assertR (IsPowerOfTwo alignment) (Inr (value AND NOT (alignment - 1)))"

definition AlignUp :: "u64 \<Rightarrow> u64 \<Rightarrow> u64 res" where
  "AlignUp value alignment = AlignDown (value + alignment - 1) alignment"

definition IsMultipleOf :: "u64 \<Rightarrow> u64 \<Rightarrow> bool res" where
  "IsMultipleOf value alignment = bindR (AlignUp value alignment) (\<lambda>a. Inr (a = value))"

definition NextPow2_u32 :: "u32 \<Rightarrow> u32" where
  "NextPow2_u32 value =
     (if value = 0 then 1
      else let v = value - 1;
               v = v OR drop_bit 1 v;
               v = v OR drop_bit 2 v;
               v = v OR drop_bit 4 v;
               v = v OR drop_bit 8 v;
               v = v OR drop_bit 16 v
           in v + 1)"

definition NextPow2_u64 :: "u64 \<Rightarrow> u64" where
  "NextPow2_u64 value =
     (if value = 0 then 1
      else let v = value - 1;
               v = v OR drop_bit 1 v;
               v = v OR drop_bit 2 v;
               v = v OR drop_bit 4 v;
               v = v OR drop_bit 8 v;
               v = v OR drop_bit 16 v;
               v = v OR drop_bit 32 v
           in v + 1)"

definition strIsEmpty :: "string \<Rightarrow> bool" where
  "strIsEmpty str \<longleftrightarrow> str = []"

text \<open>White space of the classic locale: the blank and the control characters 9 to 13.\<close>

definition isspace :: "char \<Rightarrow> bool" where
  "isspace c \<longleftrightarrow> c = CHR 0x20 \<or> (9 \<le> (of_char c :: nat) \<and> (of_char c :: nat) \<le> 13)"

definition ltrim :: "string \<Rightarrow> string" where
  "ltrim s = dropWhile isspace s"

definition rtrim :: "string \<Rightarrow> string" where
  "rtrim s = rev (dropWhile isspace (rev s))"

definition trim :: "string \<Rightarrow> string" where
  "trim s = ltrim (rtrim s)"

definition BitSelect :: "nat \<Rightarrow> nat \<Rightarrow> u64 \<Rightarrow> u32" where
  "BitSelect lowBit highBit p =
     (if highBit \<noteq> 63 then ucast (drop_bit lowBit (p AND (push_bit (highBit + 1) 1 - 1)))
      else ucast (drop_bit lowBit p))"

definition PtrLow16Shift8 :: "u64 \<Rightarrow> u32" where
  "PtrLow16Shift8 p = ucast (drop_bit 8 (p AND 0xFFFF))"

definition PtrHigh64Shift16 :: "u64 \<Rightarrow> u32" where
  "PtrHigh64Shift16 p = ucast (drop_bit 16 (p AND 0xFFFFFFFFFFFF0000))"

definition PtrLow40Shift8 :: "u64 \<Rightarrow> u32" where
  "PtrLow40Shift8 p = ucast (drop_bit 8 (p AND 0xFFFFFFFFFF))"

definition PtrHigh64Shift40 :: "u64 \<Rightarrow> u32" where
  "PtrHigh64Shift40 p = ucast (drop_bit 40 (p AND 0xFFFFFF0000000000))"

definition PtrLow32 :: "u64 \<Rightarrow> u32" where
  "PtrLow32 p = ucast p"

text \<open>\<open>HSA_LARGE_MODEL\<close> is a macro that the build may define.\<close>

definition PtrHigh32 :: "bool \<Rightarrow> u64 \<Rightarrow> u32" where
  "PtrHigh32 hsa_large_model p = (if hsa_large_model then ucast (drop_bit 32 p) else 0)"

definition PackHighLow :: "u32 \<Rightarrow> u32 \<Rightarrow> u64" where
  "PackHighLow hi lo = push_bit 32 (ucast hi) OR ucast lo"

text \<open>One step of \<open>LOGB2\<close>: \<open>shift = ((v & m) != 0) << k; v >>= shift; r |= shift\<close>.\<close>

definition logb2_step :: "u32 \<Rightarrow> nat \<Rightarrow> u32 \<times> u32 \<Rightarrow> u32 \<times> u32" where
  "logb2_step m k st = (case st of (v, r) \<Rightarrow>
     let sh = (if v AND m \<noteq> 0 then push_bit k 1 else 0) in (drop_bit (unat sh) v, r OR sh))"

definition LOGB2 :: "u32 \<Rightarrow> u32" where
  "LOGB2 v = snd (logb2_step 0x2 0 (logb2_step 0xC 1 (logb2_step 0xF0 2 (logb2_step 0xFF00 3
     (logb2_step 0xFFFF0000 4 (v, 0))))))"

section \<open>Powers of two\<close>

lemma and_pred_nat: "n \<noteq> 0 \<Longrightarrow> n AND (n - 1) = 0 \<longleftrightarrow> (\<exists>k. n = 2 ^ k)" for n :: nat
proof (induction n rule: less_induct)
  case (less n)
  show ?case
  proof (cases "even n")
    case True
    then obtain m where m: "n = 2 * m" "m \<noteq> 0" using less.prems by auto
    have "(n - 1) div 2 = m - 1" using m by auto
    then have "n AND (n - 1) = 2 * (m AND (m - 1))" using m by (subst and_rec) simp
    moreover have "(\<exists>k. n = 2 ^ k) \<longleftrightarrow> (\<exists>k. m = 2 ^ k)"
    proof
      assume "\<exists>k. n = 2 ^ k"
      then obtain k where "n = 2 ^ k" by blast
      with m show "\<exists>k. m = 2 ^ k" by (cases k) auto
    qed (use m in \<open>auto intro: exI[of _ "Suc _"]\<close>)
    ultimately show ?thesis using less.IH[of m] m by simp
  next
    case False
    then obtain m where m: "n = Suc (2 * m)" by (auto elim: oddE)
    have "n AND (n - 1) = 2 * (m AND m)" using m by (subst and_rec) simp
    moreover have "(\<exists>k. n = 2 ^ k) \<longleftrightarrow> m = 0"
    proof
      assume "\<exists>k. n = 2 ^ k"
      then obtain k where "n = 2 ^ k" by blast
      with m show "m = 0" by (cases k) (auto simp: double_not_eq_Suc_double)
    qed (use m in \<open>auto intro: exI[of _ 0]\<close>)
    ultimately show ?thesis by simp
  qed
qed

lemma unat_exp: "k < LENGTH('a) \<Longrightarrow> unat (2 ^ k :: 'a::len word) = 2 ^ k"
proof -
  assume "k < LENGTH('a)"
  then have "(2 :: nat) ^ k < 2 ^ LENGTH('a)" by simp
  moreover have "(2 ^ k :: 'a word) = of_nat (2 ^ k)" by simp
  ultimately show "unat (2 ^ k :: 'a word) = 2 ^ k" by (simp only: unat_of_nat) simp
qed

lemma IsPowerOfTwo_iff: "IsPowerOfTwo n \<longleftrightarrow> (\<exists>k < LENGTH('a). n = 2 ^ k)" for n :: "'a::len word"
proof (cases "n = 0")
  case True
  then show ?thesis by (auto simp: IsPowerOfTwo_def exp_eq_zero_iff)
next
  case False
  then have u: "unat (n - 1) = unat n - 1" "unat n \<noteq> 0" by (simp_all add: unat_minus_one unat_eq_zero)
  have "n AND (n - 1) = 0 \<longleftrightarrow> unat (n AND (n - 1)) = 0" by (simp only: unsigned_eq_0_iff)
  also have "\<dots> \<longleftrightarrow> unat n AND (unat n - 1) = 0" by (simp only: unsigned_and_eq u)
  also have "\<dots> \<longleftrightarrow> (\<exists>k. unat n = 2 ^ k)" by (rule and_pred_nat[OF u(2)])
  also have "\<dots> \<longleftrightarrow> (\<exists>k < LENGTH('a). n = 2 ^ k)"
  proof
    assume "\<exists>k. unat n = 2 ^ k"
    then obtain k where k: "unat n = 2 ^ k" by blast
    have "unat n < 2 ^ LENGTH('a)" by (rule unsigned_less)
    then have "k < LENGTH('a)" unfolding k by simp
    moreover have "n = 2 ^ k" using arg_cong[OF k, of "of_nat :: nat \<Rightarrow> 'a word"] by simp
    ultimately show "\<exists>k < LENGTH('a). n = 2 ^ k" by blast
  next
    assume "\<exists>k < LENGTH('a). n = 2 ^ k"
    then show "\<exists>k. unat n = 2 ^ k" by (auto simp: unat_exp)
  qed
  finally show ?thesis using False by (simp add: IsPowerOfTwo_def)
qed

lemma highest_bit:
  fixes w :: "'a::len word"
  assumes "w \<noteq> 0"
  obtains k where "k < LENGTH('a)" "bit w k" "\<And>j. bit w j \<Longrightarrow> j \<le> k" "2 ^ k \<le> unat w" "unat w < 2 ^ Suc k"
proof -
  let ?S = "{j. bit w j}"
  have fin: "finite ?S" by (rule finite_subset[of _ "{..<LENGTH('a)}"]) (auto dest: bit_imp_le_length)
  have ne: "?S \<noteq> {}" using assms by (auto simp: bit_eq_iff)
  define k where "k = Max ?S"
  have k: "bit w k" "\<And>j. bit w j \<Longrightarrow> j \<le> k" using Max_in[OF fin ne] Max_ge[OF fin] by (auto simp: k_def)
  have "take_bit (Suc k) w = w" using k(2) by (intro bit_word_eqI) (auto simp: bit_simps less_Suc_eq_le)
  then have "take_bit (Suc k) (unat w) = unat w" by (metis unsigned_take_bit_eq)
  then have "unat w < 2 ^ Suc k" by (simp only: take_bit_nat_eq_self_iff)
  moreover have "bit (unat w) k" using k(1) by (simp add: bit_unsigned_iff)
  then have "2 ^ k \<le> unat w" by (metis bit_iff_odd div_less even_zero not_le)
  ultimately show ?thesis using that[of k] k bit_imp_le_length[OF k(1)] by blast
qed

text \<open>\<open>smeared n w v\<close>: each bit of \<open>v\<close> tells whether one of \<open>n\<close> consecutive bits of \<open>w\<close> is set.\<close>

definition smeared :: "nat \<Rightarrow> 'a::len word \<Rightarrow> 'a word \<Rightarrow> bool" where
  "smeared n w v \<longleftrightarrow> (\<forall>i. bit v i \<longleftrightarrow> (\<exists>j < n. bit w (i + j)))"

lemma smeared_1: "smeared 1 w w"
  by (auto simp: smeared_def)

lemma smeared_double:
  assumes s: "smeared n w v" and m: "m = n + n"
  shows "smeared m w (v OR drop_bit n v)"
proof -
  have "(\<exists>j < n + n. bit w (i + j)) \<longleftrightarrow> (\<exists>j < n. bit w (i + j)) \<or> (\<exists>j < n. bit w (n + i + j))" for i
  proof
    assume "\<exists>j < n + n. bit w (i + j)"
    then obtain j where j: "j < n + n" "bit w (i + j)" by blast
    show "(\<exists>j < n. bit w (i + j)) \<or> (\<exists>j < n. bit w (n + i + j))"
    proof (cases "j < n")
      case False
      then have "j - n < n" "bit w (n + i + (j - n))" using j by (auto simp: ac_simps)
      then show ?thesis by blast
    qed (use j in blast)
  next
    assume "(\<exists>j < n. bit w (i + j)) \<or> (\<exists>j < n. bit w (n + i + j))"
    then consider j where "j < n" "bit w (i + j)" | j where "j < n" "bit w (n + i + j)" by blast
    then show "\<exists>j < n + n. bit w (i + j)"
    proof cases
      case (1 j)
      then show ?thesis by (intro exI[of _ j]) simp
    next
      case (2 j)
      then show ?thesis by (intro exI[of _ "n + j"]) (simp add: ac_simps)
    qed
  qed
  then show ?thesis using s m by (simp add: smeared_def bit_or_iff bit_drop_bit_eq)
qed

lemma smeared_all:
  fixes w v :: "'a::len word"
  assumes "smeared LENGTH('a) w v" "bit w k" "\<And>j. bit w j \<Longrightarrow> j \<le> k"
  shows "v + 1 = 2 ^ Suc k"
proof -
  have "bit v i \<longleftrightarrow> i \<le> k" for i
  proof -
    have "bit v i \<longleftrightarrow> (\<exists>j < LENGTH('a). bit w (i + j))" using assms(1) by (simp add: smeared_def)
    also have "\<dots> \<longleftrightarrow> i \<le> k"
    proof
      assume "i \<le> k"
      moreover have "k < LENGTH('a)" using assms(2) by (rule bit_imp_le_length)
      ultimately show "\<exists>j < LENGTH('a). bit w (i + j)" using assms(2) by (intro exI[of _ "k - i"]) auto
    qed (use assms(3) in force)
    finally show ?thesis .
  qed
  then have "v = mask (Suc k)" by (intro bit_word_eqI) (simp add: bit_simps less_Suc_eq_le)
  then show ?thesis by (simp add: mask_eq_exp_minus_1)
qed

text \<open>The two variants of \<open>NextPow2\<close> smear the bits of \<open>value - 1\<close> to the right.\<close>

lemma smear_steps:
  fixes w :: "'a::len word"
  defines "v1 \<equiv> w OR drop_bit 1 w" defines "v2 \<equiv> v1 OR drop_bit 2 v1" defines "v4 \<equiv> v2 OR drop_bit 4 v2"
  defines "v8 \<equiv> v4 OR drop_bit 8 v4" defines "v16 \<equiv> v8 OR drop_bit 16 v8"
  shows "smeared 32 w v16" "smeared 64 w (v16 OR drop_bit 32 v16)"
proof -
  have "smeared 2 w v1" unfolding v1_def by (rule smeared_double[OF smeared_1]) simp
  then have "smeared 4 w v2" unfolding v2_def by (rule smeared_double) simp
  then have "smeared 8 w v4" unfolding v4_def by (rule smeared_double) simp
  then have "smeared 16 w v8" unfolding v8_def by (rule smeared_double) simp
  then show s: "smeared 32 w v16" unfolding v16_def by (rule smeared_double) simp
  show "smeared 64 w (v16 OR drop_bit 32 v16)" by (rule smeared_double[OF s]) simp
qed

lemma smeared_u32: "x \<noteq> 0 \<Longrightarrow> \<exists>v. smeared LENGTH(32) (x - 1) v \<and> NextPow2_u32 x = v + 1"
  using smear_steps(1)[of "x - 1"] by (fastforce simp: NextPow2_u32_def Let_def)

lemma smeared_u64: "y \<noteq> 0 \<Longrightarrow> \<exists>v. smeared LENGTH(64) (y - 1) v \<and> NextPow2_u64 y = v + 1"
  using smear_steps(2)[of "y - 1"] by (fastforce simp: NextPow2_u64_def Let_def)

lemma next_power:
  fixes x p :: "'a::len word"
  assumes "x \<noteq> 0" "\<exists>v. smeared LENGTH('a) (x - 1) v \<and> p = v + 1"
  shows "unat p = (if unat x \<le> 2 ^ (LENGTH('a) - 1) then LEAST q. (\<exists>k. q = 2 ^ k) \<and> unat x \<le> q else 0)"
proof -
  obtain v where v: "smeared LENGTH('a) (x - 1) v" "p = v + 1" using assms(2) by blast
  have u: "unat (x - 1) = unat x - 1" "0 < unat x"
    using assms(1) by (simp_all add: unat_minus_one unat_gt_0)
  show ?thesis
  proof (cases "x = 1")
    case True
    then have "x - 1 = 0" by simp
    then have "bit v i \<longleftrightarrow> False" for i using v(1) unfolding smeared_def by simp
    then have "v = 0" by (simp add: bit_eq_iff)
    moreover have "(LEAST q. (\<exists>k. q = 2 ^ k) \<and> Suc 0 \<le> q) = (1 :: nat)"
      by (rule Least_equality) (auto intro: exI[of _ 0])
    ultimately show ?thesis using True v(2) by simp
  next
    case False
    then have "x - 1 \<noteq> 0" by simp
    then obtain k where k: "k < LENGTH('a)" "bit (x - 1) k" "\<And>j. bit (x - 1) j \<Longrightarrow> j \<le> k"
      "2 ^ k \<le> unat (x - 1)" "unat (x - 1) < 2 ^ Suc k" by (rule highest_bit) blast
    have p: "p = 2 ^ Suc k" using smeared_all[OF v(1) k(2,3)] v(2) by simp
    have b: "2 ^ k < unat x" "unat x \<le> 2 ^ Suc k" using k(4,5) u by linarith+
    have L: "(LEAST q. (\<exists>k. q = 2 ^ k) \<and> unat x \<le> q) = 2 ^ Suc k"
    proof (rule Least_equality)
      fix q assume "(\<exists>k. q = 2 ^ k) \<and> unat x \<le> (q :: nat)"
      then obtain l where l: "q = 2 ^ l" "unat x \<le> 2 ^ l" by blast
      then have "(2 :: nat) ^ k < 2 ^ l" using b by linarith
      then have "Suc k \<le> l" by simp
      then show "2 ^ Suc k \<le> q" unfolding l(1) by (rule power_increasing) simp
    qed (use b in blast)
    show ?thesis
    proof (cases "Suc k < LENGTH('a)")
      case True
      then have "unat x \<le> 2 ^ (LENGTH('a) - 1)"
        using b(2) power_increasing[of "Suc k" "LENGTH('a) - 1" "2 :: nat"] by linarith
      then show ?thesis using True L unfolding p by (simp add: unat_exp del: power_Suc)
    next
      case False
      then have "Suc k = LENGTH('a)" using k(1) by simp
      moreover from this have "(2 :: 'a word) ^ Suc k = 0" by (simp only: exp_eq_zero_iff)
      moreover from calculation have "LENGTH('a) - 1 = k" by simp
      ultimately show ?thesis using b(1) unfolding p by (simp del: power_Suc)
    qed
  qed
qed

text \<open>
  C36. \<open>NextPow2\<close> is the least power of two that is not below its argument, in both widths; above the
  greatest power of two of the type it wraps around to 0.
\<close>

theorem NextPow2_least:
  "unat (NextPow2_u32 x) = (if unat x \<le> 2 ^ 31 then LEAST p. (\<exists>k. p = 2 ^ k) \<and> unat x \<le> p else 0) \<and>
   unat (NextPow2_u64 y) = (if unat y \<le> 2 ^ 63 then LEAST p. (\<exists>k. p = 2 ^ k) \<and> unat y \<le> p else 0)"
proof -
  have "(LEAST q. (\<exists>k. q = 2 ^ k)) = (1 :: nat)"
    by (rule Least_equality) (auto intro: exI[of _ 0])
  then show ?thesis
    using next_power[OF _ smeared_u32, of x] next_power[OF _ smeared_u64, of y]
    by (cases "x = 0"; cases "y = 0") (auto simp: NextPow2_u32_def NextPow2_u64_def)
qed

section \<open>Alignment\<close>

lemma unat_align_down: "unat (v AND NOT (2 ^ k - 1)) = unat v div 2 ^ k * 2 ^ k" for v :: u64
proof -
  have "v AND NOT (2 ^ k - 1) = v - take_bit k v"
    by (subst disjunctive_diff) (auto simp: bit_simps intro!: bit_word_eqI simp flip: mask_eq_exp_minus_1)
  moreover have "unat (take_bit k v) = unat v mod 2 ^ k" by (simp only: unsigned_take_bit_eq take_bit_nat_def)
  moreover have "take_bit k v \<le> v" by (simp add: word_le_nat_alt calculation(2))
  ultimately show ?thesis by (simp add: unat_sub minus_mod_eq_div_mult)
qed

text \<open>
  C37. Alignment to a power of two: \<open>AlignDown\<close> is the greatest multiple that is not above the value,
  \<open>AlignUp\<close> the least that is not below it (0 when that multiple does not fit in the type), and
  \<open>IsMultipleOf\<close> decides divisibility. Any other alignment fails the assert.
\<close>

theorem align_multiples:
  "if IsPowerOfTwo a then
     \<exists>d u. AlignDown v a = Inr d \<and> unat a dvd unat d \<and> unat d \<le> unat v \<and> unat v < unat d + unat a \<and>
       AlignUp v a = Inr u \<and>
       (if unat v + unat a \<le> 2 ^ 64 then unat a dvd unat u \<and> unat v \<le> unat u \<and> unat u < unat v + unat a
        else u = 0) \<and>
       IsMultipleOf v a = Inr (unat a dvd unat v)
   else AlignDown v a = Inl Assert_Failed \<and> AlignUp v a = Inl Assert_Failed \<and> IsMultipleOf v a = Inl Assert_Failed"
proof (cases "IsPowerOfTwo a")
  case True
  then obtain k where k: "k < 64" "a = 2 ^ k" using IsPowerOfTwo_iff[of a] by auto
  have a: "unat a = 2 ^ k" using k unat_exp[of k, where ?'a = 64] by simp
  let ?d = "v AND NOT (a - 1)" and ?w = "v + a - 1"
  let ?u = "?w AND NOT (a - 1)"
  have d: "unat ?d = unat v div 2 ^ k * 2 ^ k" "unat ?u = unat ?w div 2 ^ k * 2 ^ k"
    unfolding k(2) by (rule unat_align_down)+
  have v: "unat v < 2 ^ 64" using unsigned_less[of v] by simp
  let ?D = "2 ^ k :: nat" and ?V = "unat v"
  have D: "?D * 2 ^ (64 - k) = 2 ^ 64" "0 < ?D" using k(1) by (simp_all flip: power_add)
  have "of_nat (?V + ?D - 1) = (of_nat ?V + of_nat ?D - 1 :: u64)" 
  proof -
    have "1 \<le> ?V + ?D" using D(2) by linarith
    then show ?thesis by (simp only: of_nat_diff of_nat_add) simp
  qed
  then have "?w = of_nat (?V + ?D - 1)" using k(2) by simp
  then have w: "unat ?w = (?V + ?D - 1) mod 2 ^ 64" by (simp only: unat_of_nat) simp
  have down: "?D dvd unat ?d" "unat ?d \<le> ?V" "?V < unat ?d + ?D"
    using mod_less_divisor[OF D(2), of ?V] div_mult_mod_eq[of ?V ?D] unfolding d(1) by (simp, linarith, linarith)
  have up: "(if ?V + ?D \<le> 2 ^ 64 then ?D dvd unat ?u \<and> ?V \<le> unat ?u \<and> unat ?u < ?V + ?D else ?u = 0) \<and>
      (?u = v \<longleftrightarrow> ?D dvd ?V)"
  proof (cases "?V + ?D \<le> 2 ^ 64")
    case True
    then have w: "unat ?w = ?V + ?D - 1" using w D(2) by simp
    have u: "?D dvd unat ?u" "?V \<le> unat ?u" "unat ?u < ?V + ?D"
      using D(2) mod_less_divisor[OF D(2), of "unat ?w"] div_mult_mod_eq[of "unat ?w" ?D] unfolding d(2) w
      by (simp, linarith, linarith)
    have "?u = v \<longleftrightarrow> ?D dvd ?V"
    proof
      assume "?D dvd ?V"
      then have "?D dvd unat ?u - ?V" using u(1) by (rule dvd_diff_nat[rotated])
      then have "unat ?u = ?V" using u(2,3) nat_dvd_not_less[of "unat ?u - ?V" ?D] by linarith
      then show "?u = v" by (rule unsigned_word_eqI)
    qed (use u(1) in auto)
    then show ?thesis using True u by simp
  next
    case False
    have "?D \<le> 2 ^ 64" using k(1) by (intro power_increasing) auto
    then have "(?V + ?D - 1) mod 2 ^ 64 = ?V + ?D - 1 - 2 ^ 64" "?V + ?D - 1 - 2 ^ 64 < ?D" using False v
      by (simp_all add: le_mod_geq)
    then have u: "?u = 0" using w d(2) by (simp add: unat_eq_zero)
    have "\<not> ?D dvd ?V"
    proof
      assume "?D dvd ?V"
      then obtain q where q: "?V = ?D * q" by (elim dvdE)
      have "?D * q < ?D * 2 ^ (64 - k)" using v D(1) q by simp
      then have "Suc q \<le> 2 ^ (64 - k)" using D(2) by simp
      then have "?D * Suc q \<le> ?D * 2 ^ (64 - k)" by (rule mult_le_mono2)
      then show False using False D(1) q by simp
    qed
    moreover have "v \<noteq> 0" using False \<open>?D \<le> 2 ^ 64\<close> by auto
    ultimately show ?thesis using False u by auto
  qed
  show ?thesis using True down up unfolding AlignDown_def AlignUp_def IsMultipleOf_def a by auto
qed (simp add: AlignDown_def AlignUp_def IsMultipleOf_def)

section \<open>Logarithm\<close>

text \<open>The state before the step of width \<open>2 ^ k\<close>.\<close>

definition logb2_inv :: "u32 \<Rightarrow> nat \<Rightarrow> u32 \<times> u32 \<Rightarrow> bool" where
  "logb2_inv x k st \<longleftrightarrow> (case st of (v, r) \<Rightarrow> v = drop_bit (unat r) x \<and> unat v < 2 ^ 2 ^ k \<and>
     (x \<noteq> 0 \<longrightarrow> v \<noteq> 0) \<and> (\<forall>i < k. \<not> bit r i))"

lemma logb2_step_inv:
  assumes "logb2_inv x (Suc k) st" "k < 5" "\<And>i. bit m i \<longleftrightarrow> 2 ^ k \<le> i \<and> i < 2 ^ Suc k"
  shows "logb2_inv x k (logb2_step m k st)"
proof -
  obtain v r where st: "st = (v, r)" by (cases st)
  have v: "v = drop_bit (unat r) x" "unat v < 2 ^ 2 ^ Suc k" "x \<noteq> 0 \<longrightarrow> v \<noteq> 0" "\<forall>i < Suc k. \<not> bit r i"
    using assms(1) st by (auto simp: logb2_inv_def)
  have "take_bit (2 ^ Suc k) (unat v) = unat v" using v(2) by (simp only: take_bit_nat_eq_self_iff)
  moreover have "bit (unat v) i" if "bit v i" for i using that by (simp add: bit_unsigned_iff)
  ultimately have high: "i < 2 ^ Suc k" if "bit v i" for i using that by (metis bit_take_bit_iff)
  have "v AND m = 0 \<longleftrightarrow> take_bit (2 ^ k) v = v"
    using high by (auto simp: bit_eq_iff bit_simps assms(3) not_le)
  also have "\<dots> \<longleftrightarrow> take_bit (2 ^ k) (unat v) = unat v" by (metis unsigned_take_bit_eq unsigned_word_eqI)
  finally have test: "v AND m = 0 \<longleftrightarrow> unat v < 2 ^ 2 ^ k" by (simp only: take_bit_nat_eq_self_iff)
  show ?thesis
  proof (cases "v AND m = 0")
    case True
    then show ?thesis using test v st by (simp add: logb2_step_def logb2_inv_def)
  next
    case False
    have s: "unat (push_bit k 1 :: u32) = 2 ^ k" using unat_exp[of k, where ?'a = 32] assms(2) by (simp add: push_bit_eq_mult)
    have "unat (r OR push_bit k 1) = unat r OR unat (push_bit k 1 :: u32)" by (rule unsigned_or_eq)
    also have "\<dots> = unat r + 2 ^ k"
      unfolding s using v(4) by (subst disjunctive_add) (auto simp: bit_simps)
    finally have r: "unat (r OR push_bit k 1) = unat r + 2 ^ k" .
    have d: "drop_bit (2 ^ k) v = drop_bit (unat r + 2 ^ k) x" by (simp add: v(1) add.commute)
    have "unat (drop_bit (2 ^ k) v) = unat v div 2 ^ 2 ^ k" by (rule unat_drop_bit_eq[unfolded drop_bit_nat_def])
    moreover have "unat v div 2 ^ 2 ^ k < 2 ^ 2 ^ k"
      using v(2) by (simp add: less_mult_imp_div_less power_add[symmetric] mult_2)
    moreover have "0 < unat v div 2 ^ 2 ^ k" using False test by (simp add: div_greater_zero_iff)
    ultimately show ?thesis
      using False st v(4) r d s by (auto simp: logb2_step_def logb2_inv_def bit_simps unat_gt_0 less_Suc_eq)
  qed
qed

lemma logb2_masks:
  "(0xFFFF0000 :: u32) = push_bit (2 ^ 4) (mask (2 ^ 4))" "(0xFF00 :: u32) = push_bit (2 ^ 3) (mask (2 ^ 3))"
  "(0xF0 :: u32) = push_bit (2 ^ 2) (mask (2 ^ 2))" "(0xC :: u32) = push_bit (2 ^ 1) (mask (2 ^ 1))"
  "(0x2 :: u32) = push_bit (2 ^ 0) (mask (2 ^ 0))"
  by code_simp+

lemma logb2_mask_step:
  assumes "logb2_inv x (Suc k) st" "k < 5" "m = push_bit (2 ^ k) (mask (2 ^ k))"
  shows "logb2_inv x k (logb2_step m k st)"
proof (rule logb2_step_inv[OF assms(1,2)])
  have "(2 :: nat) ^ Suc k \<le> 2 ^ 5" using assms(2) by (intro power_increasing) auto
  then show "bit m i \<longleftrightarrow> 2 ^ k \<le> i \<and> i < 2 ^ Suc k" for i
    unfolding assms(3) by (auto simp: bit_simps)
qed

text \<open>
  \<open>LOGB2\<close> is the integer part of the logarithm to the base 2, and 0 for 0.
\<close>

lemma LOGB2_floor:
  "if v = 0 then LOGB2 v = 0 else 2 ^ unat (LOGB2 v) \<le> unat v \<and> unat v < 2 ^ Suc (unat (LOGB2 v))"
proof -
  have "logb2_inv v (Suc 4) (v, 0)" using unsigned_less[of v] by (simp add: logb2_inv_def)
  from logb2_mask_step[OF this _ logb2_masks(1)]
  have "logb2_inv v (Suc 3) (logb2_step 0xFFFF0000 4 (v, 0))" by simp
  from logb2_mask_step[OF this _ logb2_masks(2)]
  have "logb2_inv v (Suc 2) (logb2_step 0xFF00 3 (logb2_step 0xFFFF0000 4 (v, 0)))" by simp
  from logb2_mask_step[OF this _ logb2_masks(3)]
  have "logb2_inv v (Suc 1) (logb2_step 0xF0 2 (logb2_step 0xFF00 3 (logb2_step 0xFFFF0000 4 (v, 0))))" by (simp add: numeral_2_eq_2)
  from logb2_mask_step[OF this _ logb2_masks(4)]
  have "logb2_inv v (Suc 0) (logb2_step 0xC 1 (logb2_step 0xF0 2 (logb2_step 0xFF00 3 (logb2_step 0xFFFF0000 4 (v, 0)))))" by simp
  from logb2_mask_step[OF this _ logb2_masks(5)]
  obtain u where u: "logb2_inv v 0 (u, LOGB2 v)" by (metis LOGB2_def prod.collapse zero_less_numeral)
  show ?thesis
  proof (cases "v = 0")
    case True
    then show ?thesis by simp (code_simp)
  next
    case False
    with u have "unat (drop_bit (unat (LOGB2 v)) v) = 1" by (auto simp: logb2_inv_def less_2_cases_iff unat_eq_zero)
    then have "unat v div 2 ^ unat (LOGB2 v) = 1" by (simp only: unat_drop_bit_eq drop_bit_nat_def)
    moreover have "unat v mod 2 ^ unat (LOGB2 v) < 2 ^ unat (LOGB2 v)" by simp
    moreover have "2 ^ unat (LOGB2 v) + unat v mod 2 ^ unat (LOGB2 v) = unat v"
      using calculation(1) div_mult_mod_eq[of "unat v" "2 ^ unat (LOGB2 v)"] by (metis mult_1)
    ultimately have "2 ^ unat (LOGB2 v) \<le> unat v" "unat v < 2 * 2 ^ unat (LOGB2 v)" by linarith+
    then show ?thesis using False by simp
  qed
qed

end
