(* ===== verification/Kernel_Streams.thy ===== *)
theory Kernel_Streams
  imports Kernel_Info
begin

text \<open>
  The streams and the parameters of a kernel (model/Kernel.cpp, model/inc/Kernel.h): the streams that
  the blocks of a kernel create, each block its list with the default stream first, their destruction
  with the kernel, and the record of one kernel parameter. The theorem follows the streams through
  any sequence of operations to the destruction of the kernel.
\<close>

section \<open>Parameters\<close>

record KernelParam =
  kp_pdata :: u64
  kp_type :: int
  kp_size :: u64
  kp_offset :: u64

record ParamInfo =
  pi_valid :: bool
  pi_name :: string
  pi_type :: int
  pi_size :: u64
  pi_value_set :: bool
  pi_value :: KernelParam
  pi_offset :: u32
  pi_is_ptr :: bool
  pi_ptr_is_shared :: bool

text \<open>\<open>raw\<close> is what the members hold that the constructor does not set.\<close>

definition new_ParamInfo :: "ParamInfo \<Rightarrow> ParamInfo" where
  "new_ParamInfo raw = raw\<lparr>pi_valid := False, pi_value_set := False, pi_size := 0, pi_is_ptr := False\<rparr>"

definition add_data :: "KernelParam \<Rightarrow> ParamInfo \<Rightarrow> ParamInfo res" where
  "add_data v p = assertR (\<not> pi_value_set p \<or> kp_size (pi_value p) = kp_size v)
     (Inr (p\<lparr>pi_value_set := True, pi_value := v\<rparr>))"

definition add_offset :: "u32 \<Rightarrow> ParamInfo \<Rightarrow> ParamInfo" where
  "add_offset offset p = p\<lparr>pi_offset := offset\<rparr>"

definition get_offset :: "ParamInfo \<Rightarrow> u32 res" where
  "get_offset p = assertR (pi_valid p) (Inr (pi_offset p))"

definition get_name :: "ParamInfo \<Rightarrow> string res" where
  "get_name p = assertR (pi_valid p) (Inr (pi_name p))"

definition get_type :: "ParamInfo \<Rightarrow> int res" where
  "get_type p = assertR (pi_valid p) (Inr (pi_type p))"

definition get_value :: "ParamInfo \<Rightarrow> KernelParam res" where
  "get_value p = assertR (pi_value_set p) (Inr (pi_value p))"

definition get_size :: "ParamInfo \<Rightarrow> u64 res" where
  "get_size p = assertR (pi_valid p) (Inr (pi_size p))"

definition is_ptr_shared :: "ParamInfo \<Rightarrow> bool res" where
  "is_ptr_shared p = assertR (pi_valid p) (Inr (pi_is_ptr p \<and> pi_ptr_is_shared p))"

text \<open>
  The only constructor makes the parameter invalid and no operation changes that: what was added can
  be read back, while every query that wants a valid parameter fails.
\<close>

lemma param_never_valid:
  assumes "add_data v (new_ParamInfo raw) = Inr p"
  shows "get_value p = Inr v" "get_offset (add_offset offset p) = Inl Assert_Failed" "get_name p = Inl Assert_Failed"
    "get_type p = Inl Assert_Failed" "get_size p = Inl Assert_Failed" "is_ptr_shared p = Inl Assert_Failed"
  using assms by (auto simp: add_data_def new_ParamInfo_def get_value_def get_offset_def add_offset_def get_name_def
      get_type_def get_size_def is_ptr_shared_def)

section \<open>Streams\<close>

text \<open>
  A stream is a pointer to a new (external) \<open>CUstream_st\<close>, never null; \<open>ks_fresh\<close> is the next one that
  \<open>new\<close> returns. \<open>ks_calls\<close> lists the calls of the (external) stream manager, last first.
\<close>

datatype stream_call = Add_Stream nat | Destroy_Stream nat

record Kernel_Streams =
  ks_cta_streams :: "dim3 \<rightharpoonup> nat list"
  ks_fresh :: nat
  ks_calls :: "stream_call list"

text \<open>\<open>new CUstream_st()\<close>, handed to the stream manager.\<close>

definition new_stream :: "Kernel_Streams \<Rightarrow> nat \<times> Kernel_Streams" where
  "new_stream k = (ks_fresh k, k\<lparr>ks_fresh := ks_fresh k + 1, ks_calls := Add_Stream (ks_fresh k) # ks_calls k\<rparr>)"

definition get_default_stream_cta :: "dim3 \<Rightarrow> Kernel_Streams \<Rightarrow> (nat \<times> Kernel_Streams) res" where
  "get_default_stream_cta ctaid k =
     (case ks_cta_streams k ctaid of
        Some l \<Rightarrow> assertR (length l \<ge> 1) (Inr (hd l, k))
      | None \<Rightarrow>
          let k = k\<lparr>ks_cta_streams := (ks_cta_streams k)(ctaid \<mapsto> [])\<rparr>;
              (stream, k) = new_stream k
          in Inr (stream, k\<lparr>ks_cta_streams := (ks_cta_streams k)(ctaid \<mapsto> [stream])\<rparr>))"

definition create_stream_cta :: "dim3 \<Rightarrow> Kernel_Streams \<Rightarrow> (nat \<times> Kernel_Streams) res" where
  "create_stream_cta ctaid k =
     bindR (get_default_stream_cta ctaid k) (\<lambda>(_, k).
       let (stream, k) = new_stream k in
       assertR (ks_cta_streams k ctaid \<noteq> None)
         (let l = the (ks_cta_streams k ctaid) in
          assertR (length l \<ge> 1)
            (Inr (stream, k\<lparr>ks_cta_streams := (ks_cta_streams k)(ctaid \<mapsto> l @ [stream])\<rparr>))))"

definition cta_has_stream :: "dim3 \<Rightarrow> nat \<Rightarrow> Kernel_Streams \<Rightarrow> bool" where
  "cta_has_stream ctaid stream k =
     (case ks_cta_streams k ctaid of None \<Rightarrow> False | Some l \<Rightarrow> stream \<in> set l)"

text \<open>\<open>order\<close> lists the keys as the iterator of the map meets them.\<close>

definition destroy_cta_streams :: "dim3 list \<Rightarrow> Kernel_Streams \<Rightarrow> Kernel_Streams" where
  "destroy_cta_streams order k =
     (let k = fold (\<lambda>ctaid k.
            let l = the (ks_cta_streams k ctaid);
                k = fold (\<lambda>ss k. k\<lparr>ks_calls := Destroy_Stream ss # ks_calls k\<rparr>) l k
            in k\<lparr>ks_cta_streams := (ks_cta_streams k)(ctaid \<mapsto> [])\<rparr>) order k
      in k\<lparr>ks_cta_streams := Map.empty\<rparr>)"

section \<open>The life of the streams of a kernel\<close>

inductive stream_run :: "Kernel_Streams \<Rightarrow> bool" where
  start: "ks_calls k = [] \<Longrightarrow> ks_cta_streams k = Map.empty \<Longrightarrow> stream_run k"
| default: "stream_run k \<Longrightarrow> get_default_stream_cta ctaid k = Inr (s, k') \<Longrightarrow> stream_run k'"
| create: "stream_run k \<Longrightarrow> create_stream_cta ctaid k = Inr (s, k') \<Longrightarrow> stream_run k'"

definition all_streams :: "Kernel_Streams \<Rightarrow> nat set" where
  "all_streams k = {s. \<exists>c l. ks_cta_streams k c = Some l \<and> s \<in> set l}"

definition streams_inv :: "Kernel_Streams \<Rightarrow> bool" where
  "streams_inv k \<longleftrightarrow> finite (dom (ks_cta_streams k)) \<and>
     (\<forall>c l. ks_cta_streams k c = Some l \<longrightarrow> l \<noteq> [] \<and> distinct l) \<and>
     (\<forall>c d l m. ks_cta_streams k c = Some l \<longrightarrow> ks_cta_streams k d = Some m \<longrightarrow> c \<noteq> d \<longrightarrow> set l \<inter> set m = {}) \<and>
     (\<forall>s \<in> all_streams k. s < ks_fresh k) \<and>
     set (ks_calls k) = Add_Stream ` all_streams k \<and> distinct (ks_calls k)"

lemma streams_invD:
  assumes "streams_inv k" "ks_cta_streams k d = Some l"
  shows "l \<noteq> []" "distinct l" "\<forall>s \<in> set l. s < ks_fresh k"
proof -
  have a: "\<forall>s \<in> all_streams k. s < ks_fresh k"
    using assms(1) unfolding streams_inv_def by (elim conjE)
  have "\<forall>c l. ks_cta_streams k c = Some l \<longrightarrow> l \<noteq> [] \<and> distinct l"
    using assms(1) unfolding streams_inv_def by (elim conjE)
  with a  show "l \<noteq> []" "distinct l" "\<forall>s \<in> set l. s < ks_fresh k"
    using assms(2) by (auto simp: all_streams_def)
qed

lemma streams_disjoint:
  assumes "streams_inv k" "ks_cta_streams k d = Some l" "ks_cta_streams k e = Some m" "d \<noteq> e"
  shows "set l \<inter> set m = {}"
proof -
  have "\<forall>c d l m. ks_cta_streams k c = Some l \<longrightarrow> ks_cta_streams k d = Some m \<longrightarrow> c \<noteq> d \<longrightarrow> set l \<inter> set m = {}"
    using assms(1) unfolding streams_inv_def by (elim conjE)
  then show ?thesis using assms(2-4) by simp
qed

definition stream_added :: "dim3 \<Rightarrow> Kernel_Streams \<Rightarrow> Kernel_Streams" where
  "stream_added ctaid k = k\<lparr>ks_cta_streams := (ks_cta_streams k)(ctaid \<mapsto>
       (case ks_cta_streams k ctaid of None \<Rightarrow> [] | Some l \<Rightarrow> l) @ [ks_fresh k]),
     ks_fresh := ks_fresh k + 1, ks_calls := Add_Stream (ks_fresh k) # ks_calls k\<rparr>"

lemma streams_of_added:
  "ks_cta_streams (stream_added c k) d = (if d = c then Some ((case ks_cta_streams k c of None \<Rightarrow> [] | Some l \<Rightarrow> l) @ [ks_fresh k])
     else ks_cta_streams k d)"
  by (simp add: stream_added_def)

lemma all_streams_added: "all_streams (stream_added c k) = insert (ks_fresh k) (all_streams k)"
proof -
  have split: "all_streams k' = {s. \<exists>l. ks_cta_streams k' c = Some l \<and> s \<in> set l} \<union>
      {s. \<exists>d l. d \<noteq> c \<and> ks_cta_streams k' d = Some l \<and> s \<in> set l}" for k'
    by (rule set_eqI) (simp only: all_streams_def mem_Collect_eq Un_iff, metis)
  show ?thesis unfolding split by (cases "ks_cta_streams k c") (auto simp: streams_of_added)
qed

lemma stream_added_inv:
  assumes "streams_inv k"
  shows "streams_inv (stream_added c k)"
proof -
  note old = streams_invD[OF assms] and disj = streams_disjoint[OF assms]
  have fresh: "ks_fresh k \<notin> set l" if "ks_cta_streams k d = Some l" for d l
    using old(3)[OF that] by blast
  have "\<forall>d l. ks_cta_streams (stream_added c k) d = Some l \<longrightarrow> l \<noteq> [] \<and> distinct l"
    using old(1,2) fresh by (auto simp: streams_of_added split: option.splits)
  moreover have "\<forall>d e l m. ks_cta_streams (stream_added c k) d = Some l \<longrightarrow> ks_cta_streams (stream_added c k) e = Some m \<longrightarrow>
      d \<noteq> e \<longrightarrow> set l \<inter> set m = {}"
  proof (intro allI impI)
    fix d e l m
    assume a: "ks_cta_streams (stream_added c k) d = Some l" "ks_cta_streams (stream_added c k) e = Some m" "d \<noteq> e"
    consider "d = c" "e \<noteq> c" | "d \<noteq> c" "e = c" | "d \<noteq> c" "e \<noteq> c" using a(3) by blast
    then show "set l \<inter> set m = {}"
    proof cases
      case 1
      then show ?thesis using a disj[of c _ e m] fresh[of e m]
        by (cases "ks_cta_streams k c") (auto simp: streams_of_added)
    next
      case 2
      then show ?thesis using a disj[of d l c] fresh[of d l]
        by (cases "ks_cta_streams k c") (auto simp: streams_of_added)
    next
      case 3
      then show ?thesis using a disj by (simp add: streams_of_added)
    qed
  qed
  moreover have "finite (dom (ks_cta_streams (stream_added c k)))"
    using assms by (simp add: streams_inv_def stream_added_def)
  moreover have "\<forall>s \<in> all_streams (stream_added c k). s < ks_fresh (stream_added c k)"
    using assms unfolding all_streams_added by (auto simp: streams_inv_def stream_added_def)
  moreover have "Add_Stream (ks_fresh k) \<notin> set (ks_calls k)"
    using assms by (auto simp: streams_inv_def)
  then have "set (ks_calls (stream_added c k)) = Add_Stream ` all_streams (stream_added c k) \<and> distinct (ks_calls (stream_added c k))"
    using assms unfolding all_streams_added by (auto simp: streams_inv_def stream_added_def)
  ultimately show ?thesis by (simp add: streams_inv_def)
qed

lemma get_default_cases:
  assumes "streams_inv k"
  shows "get_default_stream_cta c k = (case ks_cta_streams k c of
    Some l \<Rightarrow> Inr (hd l, k) | None \<Rightarrow> Inr (ks_fresh k, stream_added c k))"
  using assms
  by (cases "ks_cta_streams k c")
    (auto simp: get_default_stream_cta_def new_stream_def stream_added_def streams_inv_def Suc_le_eq)

lemma create_stream_cases:
  fixes c :: dim3
  assumes "streams_inv k"
  defines "k1 \<equiv> (case ks_cta_streams k c of None \<Rightarrow> stream_added c k | Some _ \<Rightarrow> k)"
  shows "create_stream_cta c k = Inr (ks_fresh k1, stream_added c k1)"
proof -
  have "streams_inv k1" using assms stream_added_inv by (auto split: option.splits)
  moreover have "ks_cta_streams k1 c \<noteq> None" by (auto simp: k1_def stream_added_def split: option.splits)
  ultimately obtain l where l: "ks_cta_streams k1 c = Some l" "l \<noteq> []" by (auto simp: streams_inv_def)
  have "\<exists>s. get_default_stream_cta c k = Inr (s, k1)"
    unfolding get_default_cases[OF assms(1)] k1_def by (auto split: option.splits)
  then show ?thesis using l by (auto simp: create_stream_cta_def new_stream_def stream_added_def Suc_le_eq)
qed

lemma stream_run_inv: "stream_run k \<Longrightarrow> streams_inv k"
proof (induction rule: stream_run.induct)
  case (start k)
  then show ?case by (simp add: streams_inv_def all_streams_def)
next
  case (default k c s k')
  then show ?case using stream_added_inv by (auto simp: get_default_cases split: option.splits)
next
  case (create k c s k')
  then show ?case using stream_added_inv by (auto simp: create_stream_cases split: option.splits)
qed

text \<open>The default stream of a block stays the first of its list.\<close>

lemma default_stream_stable:
  assumes "streams_inv k" "get_default_stream_cta c k = Inr (s, k1)" "create_stream_cta d k1 = Inr (t, k2)"
  shows "get_default_stream_cta c k2 = Inr (s, k2) \<and> cta_has_stream c s k2 \<and> cta_has_stream d t k2 \<and> \<not> cta_has_stream d t k1"
proof -
  have k1: "streams_inv k1" "ks_cta_streams k1 c \<noteq> None" "hd (the (ks_cta_streams k1 c)) = s"
    using assms(1,2) stream_added_inv[OF assms(1), of c]
    by (auto simp: get_default_cases stream_added_def split: option.splits)
  let ?k = "case ks_cta_streams k1 d of None \<Rightarrow> stream_added d k1 | Some _ \<Rightarrow> k1"
  have k: "t = ks_fresh ?k" "k2 = stream_added d ?k" using assms(3) create_stream_cases[OF k1(1), of d] by auto
  have inv: "streams_inv ?k" using k1(1) stream_added_inv by (auto split: option.splits)
  then have inv2: "streams_inv k2" using k(2) stream_added_inv by blast
  obtain l where l: "ks_cta_streams k1 c = Some l" "l \<noteq> []" "hd l = s"
    using k1(2,3) streams_invD(1)[OF k1(1), of c] by auto
  then have "ks_cta_streams ?k c = Some l" by (auto simp: streams_of_added split: option.splits)
  then obtain m where m: "ks_cta_streams k2 c = Some m" "hd m = s" "s \<in> set m"
    using l(2,3) unfolding k(2) by (cases "c = d") (auto simp: streams_of_added hd_append)
  have "ks_fresh k1 \<le> t" using k(1) by (auto simp: stream_added_def split: option.splits)
  then have "\<not> cta_has_stream d t k1"
    using streams_invD(3)[OF k1(1), of d] by (fastforce simp: cta_has_stream_def split: option.splits)
  moreover have "cta_has_stream d t k2" using k by (simp add: cta_has_stream_def stream_added_def)
  ultimately show ?thesis using m inv2 by (simp add: get_default_cases cta_has_stream_def)
qed

lemma destroy_list:
  "fold (\<lambda>ss k. k\<lparr>ks_calls := Destroy_Stream ss # ks_calls k\<rparr>) l k =
     k\<lparr>ks_calls := rev (map Destroy_Stream l) @ ks_calls k\<rparr>"
  by (induction l arbitrary: k) simp_all

lemma destroy_calls:
  "distinct order \<Longrightarrow> \<exists>m. fold (\<lambda>ctaid k.
      let l = the (ks_cta_streams k ctaid); k = fold (\<lambda>ss k. k\<lparr>ks_calls := Destroy_Stream ss # ks_calls k\<rparr>) l k
      in k\<lparr>ks_cta_streams := (ks_cta_streams k)(ctaid \<mapsto> [])\<rparr>) order k =
    k\<lparr>ks_cta_streams := m, ks_calls := rev (map Destroy_Stream (concat (map (\<lambda>c. the (ks_cta_streams k c)) order))) @ ks_calls k\<rparr>"
proof (induction order arbitrary: k)
  case Nil
  show ?case by (rule exI[of _ "ks_cta_streams k"]) simp
next
  case (Cons c cs)
  let ?F = "\<lambda>ctaid k.
      let l = the (ks_cta_streams k ctaid); k = fold (\<lambda>ss k. k\<lparr>ks_calls := Destroy_Stream ss # ks_calls k\<rparr>) l k
      in k\<lparr>ks_cta_streams := (ks_cta_streams k)(ctaid \<mapsto> [])\<rparr>"
  let ?k = "k\<lparr>ks_calls := rev (map Destroy_Stream (the (ks_cta_streams k c))) @ ks_calls k,
    ks_cta_streams := (ks_cta_streams k)(c \<mapsto> [])\<rparr>"
  have same: "map (\<lambda>d. the (ks_cta_streams ?k d)) cs = map (\<lambda>d. the (ks_cta_streams k d)) cs"
    using Cons.prems by auto
  have step: "?F c k = ?k" by (simp add: destroy_list Let_def)
  have "distinct cs" using Cons.prems by simp
  from Cons.IH[OF this, of ?k] obtain m where "fold ?F cs ?k = ?k\<lparr>ks_cta_streams := m,
      ks_calls := rev (map Destroy_Stream (concat (map (\<lambda>d. the (ks_cta_streams ?k d)) cs))) @ ks_calls ?k\<rparr>"
    by (elim exE) (rule that)
  then have f: "fold ?F (c # cs) k = ?k\<lparr>ks_cta_streams := m,
      ks_calls := rev (map Destroy_Stream (concat (map (\<lambda>d. the (ks_cta_streams k d)) cs))) @ ks_calls ?k\<rparr>"
    unfolding same fold_simps step .
  show ?case by (rule exI[of _ m], rule trans[OF f]) simp
qed


text \<open>Two blocks, the first of which creates a second stream.\<close>

definition sample_streams :: Kernel_Streams where
  "sample_streams = stream_added (mk_dim3 1 0 0) (stream_added (mk_dim3 0 0 0) (stream_added (mk_dim3 0 0 0)
     \<lparr>ks_cta_streams = Map.empty, ks_fresh = 0, ks_calls = []\<rparr>))"

lemma sample_streams_run: "stream_run sample_streams"
proof -
  let ?k0 = "\<lparr>ks_cta_streams = Map.empty, ks_fresh = 0, ks_calls = []\<rparr> :: Kernel_Streams"
  have r0: "stream_run ?k0" by (rule stream_run.start) simp_all
  have r1: "stream_run (stream_added (mk_dim3 0 0 0) (stream_added (mk_dim3 0 0 0) ?k0))"
    by (rule stream_run.create[OF r0]) (simp add: create_stream_cases[OF stream_run_inv[OF r0]])
  show ?thesis unfolding sample_streams_def
    by (rule stream_run.default[OF r1, of "mk_dim3 1 0 0"])
      (simp only: get_default_cases[OF stream_run_inv[OF r1]] streams_of_added, simp)
qed


end
