(* ===== verification/Decode_Tables.thy ===== *)
theory Decode_Tables
  imports Block_Theorems
begin

text \<open>
  From the word that is fetched to the handler that executes it: the static tables that every class
  of isa/inc/Instruction.h keeps (\<open>OpFunc\<close>, \<open>OpStr\<close>, \<open>OpType\<close>), which the first instruction of a
  format fills from opcodes.def, and the choice of the format in isa/Instruction.cpp. The rows of
  opcodes.def and the layout of the encodings are not in the repository: they are the fields of a
  \<open>format\<close>. It is shown that the tables behave like a fixed lookup in the rows, whatever was decoded
  before, and that instructions made by them meet the contract that a thread block relies on.
\<close>

section \<open>The tables of a format\<close>

text \<open>A handler is a member function: it finds the encoding of its instruction in the object.\<close>

type_synonym 'm member = "u64 \<Rightarrow> u32 \<Rightarrow> Instruction \<times> 'm WarpState \<Rightarrow> (Instruction \<times> 'm WarpState) res"

record 'm op_tables =
  ot_initialized :: bool
  ot_opfunc :: "'m member option list"
  ot_opstr :: "u32 \<rightharpoonup> string"
  ot_optype :: "u32 \<rightharpoonup> op_type_t"

text \<open>Static storage: no function, no name, no type.\<close>

definition new_op_tables :: "'m op_tables" where
  "new_op_tables = \<lparr>ot_initialized = False, ot_opfunc = replicate 255 None, ot_opstr = Map.empty, ot_optype = Map.empty\<rparr>"

definition OpFunc :: "u64 \<Rightarrow> 'm member option \<Rightarrow> 'm op_tables \<Rightarrow> ('m member option \<times> 'm op_tables) res" where
  "OpFunc op ptr t =
     bindR (case ptr of
              None \<Rightarrow> Inr t
            | Some f \<Rightarrow> bindR (vec_set (ot_opfunc t) (unat op) (Some f)) (\<lambda>fs. Inr (t\<lparr>ot_opfunc := fs\<rparr>)))
       (\<lambda>t. bindR (vec_get (ot_opfunc t) (unat op)) (\<lambda>f. Inr (f, t)))"

definition tolower :: "char \<Rightarrow> char" where
  "tolower c = (let n = of_char c :: nat in if 65 \<le> n \<and> n \<le> 90 then char_of (n + 32) else c)"

text \<open>\<open>insert\<close> keeps an entry that is there; \<open>operator[]\<close> adds a missing one.\<close>

definition OpStr :: "u64 \<Rightarrow> string \<Rightarrow> 'm op_tables \<Rightarrow> string \<times> 'm op_tables" where
  "OpStr op name t =
     (let key = ucast op :: u32;
          m = ot_opstr t;
          m = (if name \<noteq> [] \<and> m key = None then m(key \<mapsto> map tolower name) else m);
          m = (if m key = None then m(key \<mapsto> []) else m)
      in (the (m key), t\<lparr>ot_opstr := m\<rparr>))"

text \<open>\<open>zero_op\<close> is the enumerator of value 0.\<close>

definition OpType :: "op_type_t \<Rightarrow> u64 \<Rightarrow> op_type_t \<Rightarrow> 'm op_tables \<Rightarrow> op_type_t \<times> 'm op_tables" where
  "OpType zero_op op optype t =
     (let key = ucast op :: u32;
          m = ot_optype t;
          m = (if optype \<noteq> NO_OP \<and> m key = None then m(key \<mapsto> optype) else m);
          m = (if m key = None then m(key \<mapsto> zero_op) else m)
      in (the (m key), t\<lparr>ot_optype := m\<rparr>))"

text \<open>One row of opcodes.def.\<close>

type_synonym 'm row = "string \<times> 'm member \<times> u64 \<times> op_type_t"

definition register_row :: "op_type_t \<Rightarrow> 'm row \<Rightarrow> 'm op_tables \<Rightarrow> 'm op_tables res" where
  "register_row zero_op r t = (case r of (name, f, op, optype) \<Rightarrow>
     bindR (OpFunc op (Some f) t) (\<lambda>(_, t).
       Inr (snd (OpType zero_op op optype (snd (OpStr op name t))))))"

text \<open>\<open>make_instruction\<close> of a class; the object it returns has the class and nothing else.\<close>

definition class_make_instruction :: "op_type_t \<Rightarrow> 'm row list \<Rightarrow> 'm op_tables \<Rightarrow> 'm op_tables res" where
  "class_make_instruction zero_op rows t =
     (if \<not> ot_initialized t
      then bindR (foldR (register_row zero_op) rows t) (\<lambda>t. Inr (t\<lparr>ot_initialized := True\<rparr>))
      else Inr t)"

text \<open>\<open>Execute\<close> calls the member function that the table has for the opcode of the object.\<close>

definition Execute :: "'m op_tables \<Rightarrow> u64 \<Rightarrow> 'm member" where
  "Execute t op dword lane_id st =
     bindR (OpFunc op None t) (\<lambda>(f, _). case f of None \<Rightarrow> Inl Null_Deref | Some f \<Rightarrow> f dword lane_id st)"

section \<open>The choice of the format\<close>

record 'm format =
  fm_enc :: "u64 \<Rightarrow> bool"
  fm_rows :: "'m row list"
  fm_op :: "u64 \<Rightarrow> u64"
  fm_Decode :: "u64 \<Rightarrow> Instruction \<Rightarrow> Instruction res"
  fm_OperandCollect :: "'m WarpState \<Rightarrow> Instruction \<Rightarrow> Instruction res"
  fm_WriteBack :: "Instruction \<Rightarrow> 'm WarpState \<Rightarrow> 'm WarpState res"

text \<open>
  The first format that has the encoding makes the instruction. The assert of the last branch never
  fires, so without a format the null pointer is followed.
\<close>

definition make_instruction ::
  "op_type_t \<Rightarrow> 'm format list \<Rightarrow> u64 \<Rightarrow> 'm op_tables list \<Rightarrow> (nat \<times> 'm op_tables list) res" where
  "make_instruction zero_op fs opcode ts =
     (case List.find (\<lambda>i. fm_enc (fs ! i) opcode) [0..<length fs] of
        None \<Rightarrow> Inl Null_Deref
      | Some i \<Rightarrow>
          bindR (vec_get ts i) (\<lambda>t.
          bindR (class_make_instruction zero_op (fm_rows (fs ! i)) t) (\<lambda>t. Inr (i, ts[i := t]))))"

text \<open>
  What \<open>getInstruction\<close> does with the word it fetched: make the instruction, decode it and print it
  (\<open>print\<close> asks for its name and its type).
\<close>

definition make_inst ::
  "op_type_t \<Rightarrow> 'ms block_mem format list \<Rightarrow> u64 \<Rightarrow> 'ms block_mem op_tables list \<Rightarrow>
   ('ms block_mem Inst \<times> 'ms block_mem op_tables list) res" where
  "make_inst zero_op fs opcode ts =
     bindR (make_instruction zero_op fs opcode ts) (\<lambda>(i, ts).
     let fm = fs ! i; op = fm_op fm opcode in
     bindR (fm_Decode fm opcode (new_Instruction NO_OP)) (\<lambda>ins.
     let (_, t) = OpStr op [] (ts ! i);
         (optype, t) = OpType zero_op op NO_OP t
     in Inr (\<lparr>in_base = ins\<lparr>ins_op_type := optype\<rparr>, in_execute = Execute t op opcode,
               in_collect = fm_OperandCollect fm, in_write_back = fm_WriteBack fm\<rparr>, ts[i := t])))"

section \<open>The tables as a lookup in the rows\<close>

text \<open>The last row of an opcode gives its function, the first one its name and its type.\<close>

definition row_handler :: "'m row list \<Rightarrow> u64 \<Rightarrow> 'm member option" where
  "row_handler rows = map_of (rev (map (\<lambda>(name, f, op, optype). (op, f)) rows))"

definition row_name :: "'m row list \<Rightarrow> u32 \<Rightarrow> string option" where
  "row_name rows = map_of (map (\<lambda>(name, f, op, optype). (ucast op, map tolower name)) rows)"

definition row_type :: "op_type_t \<Rightarrow> 'm row list \<Rightarrow> u32 \<Rightarrow> op_type_t option" where
  "row_type zero_op rows =
     map_of (map (\<lambda>(name, f, op, optype). (ucast op, if optype = NO_OP then zero_op else optype)) rows)"

definition rows_fit :: "'m row list \<Rightarrow> bool" where
  "rows_fit rows \<longleftrightarrow> (\<forall>(name, f, op, optype) \<in> set rows. unat op < 255)"

text \<open>What is decoded, without any table.\<close>

definition decoded :: "op_type_t \<Rightarrow> 'ms block_mem format list \<Rightarrow> u64 \<Rightarrow> 'ms block_mem Inst res" where
  "decoded zero_op fs opcode =
     (case List.find (\<lambda>i. fm_enc (fs ! i) opcode) [0..<length fs] of
        None \<Rightarrow> Inl Null_Deref
      | Some i \<Rightarrow>
          let fm = fs ! i; rows = fm_rows fm; op = fm_op fm opcode in
          failR (\<not> rows_fit rows) Out_Of_Range
          (bindR (fm_Decode fm opcode (new_Instruction NO_OP)) (\<lambda>ins.
             Inr \<lparr>in_base = ins\<lparr>ins_op_type := (case row_type zero_op rows (ucast op) of None \<Rightarrow> zero_op | Some ty \<Rightarrow> ty)\<rparr>,
               in_execute = (\<lambda>lane_id st. failR (unat op \<ge> 255) Out_Of_Range
                 (case row_handler rows op of None \<Rightarrow> Inl Null_Deref | Some f \<Rightarrow> f opcode lane_id st)),
               in_collect = fm_OperandCollect fm, in_write_back = fm_WriteBack fm\<rparr>)))"

text \<open>The tables that decoding reaches, from static storage on.\<close>

inductive decode_run :: "op_type_t \<Rightarrow> 'ms block_mem format list \<Rightarrow> 'ms block_mem op_tables list \<Rightarrow> bool"
  for zero_op fs where
  start: "decode_run zero_op fs (replicate (length fs) new_op_tables)"
| decode: "decode_run zero_op fs ts \<Longrightarrow> make_inst zero_op fs opcode ts = Inr (inst, ts') \<Longrightarrow> decode_run zero_op fs ts'"

text \<open>While a class registers its rows its tables have exactly those; later lookups only add defaults.\<close>

definition registered :: "op_type_t \<Rightarrow> 'm row list \<Rightarrow> 'm op_tables \<Rightarrow> bool" where
  "registered zero_op rows t \<longleftrightarrow> length (ot_opfunc t) = 255 \<and>
     (\<forall>op. unat op < 255 \<longrightarrow> ot_opfunc t ! unat op = row_handler rows op) \<and>
     ot_opstr t = row_name rows \<and> ot_optype t = row_type zero_op rows"

definition filled :: "op_type_t \<Rightarrow> 'm row list \<Rightarrow> 'm op_tables \<Rightarrow> bool" where
  "filled zero_op rows t \<longleftrightarrow> ot_initialized t \<and> rows_fit rows \<and> length (ot_opfunc t) = 255 \<and>
     (\<forall>op. unat op < 255 \<longrightarrow> ot_opfunc t ! unat op = row_handler rows op) \<and>
     (\<forall>k. ot_opstr t k = row_name rows k \<or> row_name rows k = None \<and> ot_opstr t k = Some []) \<and>
     (\<forall>k. ot_optype t k = row_type zero_op rows k \<or> row_type zero_op rows k = None \<and> ot_optype t k = Some zero_op)"

lemma registered_new: "registered zero_op [] new_op_tables"
  by (simp add: registered_def new_op_tables_def row_handler_def row_name_def row_type_def)

lemma rows_snoc:
  "row_handler (rows @ [(name, f, op, optype)]) = (row_handler rows)(op \<mapsto> f)"
  "row_name (rows @ [(name, f, op, optype)]) =
     (if row_name rows (ucast op) = None then (row_name rows)(ucast op \<mapsto> map tolower name) else row_name rows)"
  "row_type zero_op (rows @ [(name, f, op, optype)]) =
     (if row_type zero_op rows (ucast op) = None
      then (row_type zero_op rows)(ucast op \<mapsto> (if optype = NO_OP then zero_op else optype)) else row_type zero_op rows)"
  by (auto simp: row_handler_def row_name_def row_type_def map_add_def fun_eq_iff split: option.splits)

lemma OpStr_add:
  "ot_opstr (snd (OpStr op name t)) = (if ot_opstr t (ucast op) = None
     then (ot_opstr t)(ucast op \<mapsto> map tolower name) else ot_opstr t)"
  "ot_initialized (snd (OpStr op name t)) = ot_initialized t"
  "ot_opfunc (snd (OpStr op name t)) = ot_opfunc t"
  "ot_optype (snd (OpStr op name t)) = ot_optype t"
  by (auto simp: OpStr_def Let_def)

lemma OpType_add:
  "ot_optype (snd (OpType zero_op op optype t)) = (if ot_optype t (ucast op) = None
     then (ot_optype t)(ucast op \<mapsto> (if optype = NO_OP then zero_op else optype)) else ot_optype t)"
  "ot_initialized (snd (OpType zero_op op optype t)) = ot_initialized t"
  "ot_opfunc (snd (OpType zero_op op optype t)) = ot_opfunc t"
  "ot_opstr (snd (OpType zero_op op optype t)) = ot_opstr t"
  by (auto simp: OpType_def Let_def)

lemma OpFunc_add:
  assumes "length (ot_opfunc t) = 255" "unat op < 255"
  shows "OpFunc op (Some f) t = Inr (Some f, t\<lparr>ot_opfunc := (ot_opfunc t)[unat op := Some f]\<rparr>)"
  using assms by (simp add: OpFunc_def vec_set_def vec_get_def)

lemma register_row_registered:
  assumes "registered zero_op rows t" "unat op < 255"
  shows "\<exists>t'. register_row zero_op (name, f, op, optype) t = Inr t' \<and>
    registered zero_op (rows @ [(name, f, op, optype)]) t' \<and> ot_initialized t' = ot_initialized t"
proof -
  have "length (ot_opfunc t) = 255" using assms(1) by (simp add: registered_def)
  from OpFunc_add[OF this assms(2)] assms show ?thesis
    unfolding registered_def
    by (auto simp: register_row_def rows_snoc OpStr_add OpType_add nth_list_update dest: unsigned_word_eqI)
qed

lemma register_rows:
  assumes "registered zero_op rows0 t" "rows_fit rows"
  shows "\<exists>t'. foldR (register_row zero_op) rows t = Inr t' \<and> registered zero_op (rows0 @ rows) t' \<and>
    ot_initialized t' = ot_initialized t"
  using assms
proof (induction rows arbitrary: rows0 t)
  case (Cons r rows)
  obtain name f op optype where r: "r = (name, f, op, optype)" by (cases r)
  then have "unat op < 255" using Cons.prems(2) by (simp add: rows_fit_def)
  from register_row_registered[OF Cons.prems(1) this, of name f optype]
  obtain t' where t': "register_row zero_op r t = Inr t'" "registered zero_op (rows0 @ [r]) t'"
      "ot_initialized t' = ot_initialized t"
    unfolding r by (elim exE conjE)
  from Cons.IH[OF t'(2)] Cons.prems(2) t' show ?case by (auto simp: rows_fit_def)
qed simp

lemma register_rows_fails:
  assumes "registered zero_op rows0 t" "\<not> rows_fit rows"
  shows "foldR (register_row zero_op) rows t = Inl Out_Of_Range"
  using assms
proof (induction rows arbitrary: rows0 t)
  case (Cons r rows)
  obtain name f op optype where r: "r = (name, f, op, optype)" by (cases r)
  show ?case
  proof (cases "unat op < 255")
    case True
    from register_row_registered[OF Cons.prems(1) this, of name f optype]
    obtain t' where t': "register_row zero_op r t = Inr t'" "registered zero_op (rows0 @ [r]) t'"
      by (elim exE conjE) (rule that, simp_all add: r)
    with Cons.IH[OF t'(2)] Cons.prems(2) r True show ?thesis by (auto simp: rows_fit_def)
  next
    case False
    then show ?thesis
      using Cons.prems(1) by (simp add: r register_row_def OpFunc_def vec_set_def registered_def)
  qed
qed (simp add: rows_fit_def)

lemma class_make_filled:
  assumes "t = new_op_tables \<or> filled zero_op rows t" "rows_fit rows"
  shows "\<exists>t'. class_make_instruction zero_op rows t = Inr t' \<and> filled zero_op rows t'"
  using assms(1)
proof
  assume t: "t = new_op_tables"
  from register_rows[OF registered_new assms(2), where zero_op = zero_op]
  obtain t' where "foldR (register_row zero_op) rows new_op_tables = Inr t'" "registered zero_op rows t'"
    by auto
  then show ?thesis
    using assms(2) t by (auto simp: class_make_instruction_def new_op_tables_def registered_def filled_def)
qed (auto simp: class_make_instruction_def filled_def)

lemma class_make_fails:
  assumes "t = new_op_tables \<or> filled zero_op rows t" "\<not> rows_fit rows"
  shows "class_make_instruction zero_op rows t = Inl Out_Of_Range"
  using assms register_rows_fails[OF registered_new assms(2), where zero_op = zero_op]
  by (auto simp: class_make_instruction_def filled_def new_op_tables_def)

lemma OpStr_filled: "filled zero_op rows t \<Longrightarrow> filled zero_op rows (snd (OpStr op [] t))"
  by (auto simp: filled_def OpStr_add) (metis option.distinct(1))

lemma OpType_filled: "filled zero_op rows t \<Longrightarrow> filled zero_op rows (snd (OpType zero_op op NO_OP t))"
  by (auto simp: filled_def OpType_add) (metis option.distinct(1))

lemma OpType_value:
  assumes "filled zero_op rows t"
  shows "fst (OpType zero_op op NO_OP t) = (case row_type zero_op rows (ucast op) of None \<Rightarrow> zero_op | Some ty \<Rightarrow> ty)"
proof -
  have "ot_optype t k = row_type zero_op rows k \<or> row_type zero_op rows k = None \<and> ot_optype t k = Some zero_op" for k
    using assms by (simp add: filled_def)
  from this[of "ucast op"] show ?thesis by (auto simp: OpType_def Let_def split: option.split)
qed

text \<open>
  As the tables only change by defaults, the function that is called later is the one of the time of
  decoding.
\<close>

lemma Execute_filled:
  assumes "filled zero_op rows t"
  shows "Execute t op dword lane_id st = failR (unat op \<ge> 255) Out_Of_Range
    (case row_handler rows op of None \<Rightarrow> Inl Null_Deref | Some f \<Rightarrow> f dword lane_id st)"
  using assms by (auto simp: Execute_def OpFunc_def vec_get_def filled_def failR_def)

definition tables_inv :: "op_type_t \<Rightarrow> 'm format list \<Rightarrow> 'm op_tables list \<Rightarrow> bool" where
  "tables_inv zero_op fs ts \<longleftrightarrow> length ts = length fs \<and>
     (\<forall>i < length fs. ts ! i = new_op_tables \<or> filled zero_op (fm_rows (fs ! i)) (ts ! i))"

lemma make_inst_cases:
  assumes "tables_inv zero_op fs ts"
  shows "(\<exists>e. make_inst zero_op fs opcode ts = Inl e \<and> decoded zero_op fs opcode = Inl e) \<or>
    (\<exists>inst ts'. make_inst zero_op fs opcode ts = Inr (inst, ts') \<and> decoded zero_op fs opcode = Inr inst \<and>
      tables_inv zero_op fs ts')"
proof (cases "List.find (\<lambda>i. fm_enc (fs ! i) opcode) [0..<length fs]")
  case None
  then show ?thesis by (simp add: make_inst_def make_instruction_def decoded_def)
next
  case (Some i)
  then have i: "i < length fs" by (auto simp: find_Some_iff)
  let ?rows = "fm_rows (fs ! i)" and ?op = "fm_op (fs ! i) opcode"
  have t: "ts ! i = new_op_tables \<or> filled zero_op ?rows (ts ! i)" and len: "length ts = length fs"
    using assms i by (auto simp: tables_inv_def)
  show ?thesis
  proof (cases "rows_fit ?rows")
    case False
    then show ?thesis
      using class_make_fails[OF t] Some i len by (simp add: make_inst_def make_instruction_def decoded_def Let_def vec_get_def)
  next
    case True
    obtain t' where t': "class_make_instruction zero_op ?rows (ts ! i) = Inr t'" "filled zero_op ?rows t'"
      using class_make_filled[OF t True] by (elim exE conjE)
    let ?t = "snd (OpType zero_op ?op NO_OP (snd (OpStr ?op [] t')))"
    have f: "filled zero_op ?rows ?t" by (intro OpType_filled OpStr_filled t'(2))
    have "tables_inv zero_op fs (ts[i := ?t])"
      using assms f i by (auto simp: tables_inv_def nth_list_update)
    moreover have "Execute ?t ?op opcode = (\<lambda>lane_id st. failR (unat ?op \<ge> 255) Out_Of_Range
        (case row_handler ?rows ?op of None \<Rightarrow> Inl Null_Deref | Some f \<Rightarrow> f opcode lane_id st))"
      by (intro ext) (rule Execute_filled[OF f])
    ultimately show ?thesis
      using Some i len t'(1) True OpType_value[OF OpStr_filled[OF t'(2)], of ?op ?op]
      by (cases "fm_Decode (fs ! i) opcode (new_Instruction NO_OP)")
        (auto simp: make_inst_def make_instruction_def decoded_def Let_def vec_get_def split: prod.splits)
  qed
qed

lemma decode_run_inv: "decode_run zero_op fs ts \<Longrightarrow> tables_inv zero_op fs ts"
proof (induction rule: decode_run.induct)
  case (decode ts opcode inst ts')
  then show ?case using make_inst_cases[of zero_op fs ts opcode] by auto
qed (simp add: tables_inv_def)

text \<open>
  C38. Decoding does not depend on what was decoded before: in every state of the tables, making an
  instruction gives the same error or the same instruction as the plain lookup in the rows of its
  format, whose last row of the opcode gives the handler and whose first one the name and the type; and
  a handler that is looked up in any later state of the tables is the one found when decoding.
\<close>

theorem decoding_is_lookup:
  assumes "decode_run zero_op fs ts"
  shows "map_sum id fst (make_inst zero_op fs opcode ts) = decoded zero_op fs opcode \<and>
    (\<forall>i < length fs. ot_initialized (ts ! i) \<longrightarrow>
      Execute (ts ! i) op dword lane_id st = failR (unat op \<ge> 255) Out_Of_Range
        (case row_handler (fm_rows (fs ! i)) op of None \<Rightarrow> Inl Null_Deref | Some f \<Rightarrow> f dword lane_id st))"
proof (intro conjI allI impI)
  have inv: "tables_inv zero_op fs ts" by (rule decode_run_inv[OF assms])
  show "map_sum id fst (make_inst zero_op fs opcode ts) = decoded zero_op fs opcode"
    using make_inst_cases[OF inv, of opcode] by auto
  fix i assume "i < length fs" "ot_initialized (ts ! i)"
  then have "filled zero_op (fm_rows (fs ! i)) (ts ! i)"
    using inv by (auto simp: tables_inv_def new_op_tables_def)
  then show "Execute (ts ! i) op dword lane_id st = failR (unat op \<ge> 255) Out_Of_Range
      (case row_handler (fm_rows (fs ! i)) op of None \<Rightarrow> Inl Null_Deref | Some f \<Rightarrow> f dword lane_id st)"
    by (rule Execute_filled)
qed

text \<open>A format of two instructions, and its tables after the first of them was decoded.\<close>

definition sample_format :: "(u64 \<Rightarrow> u8) block_mem format" where
  "sample_format = \<lparr>fm_enc = (\<lambda>w. w AND 0xFF = 0x3F),
     fm_rows = [(''T_NOP'', \<lambda>_. warp_exec (\<lambda>_. T_NOP), 0, OTHER_OP 0), (''T_EXIT'', \<lambda>_. warp_exec T_EXIT, 1, OTHER_OP 1)],
     fm_op = (\<lambda>w. drop_bit 8 w AND 0xFF), fm_Decode = (\<lambda>_ ins. Inr (ins\<lparr>ins_m_size := 4, ins_m_decoded := True\<rparr>)),
     fm_OperandCollect = (\<lambda>w. OperandCollect sample_cfg w), fm_WriteBack = WriteBack sample_cfg\<rparr>"

definition sample_tables :: "(u64 \<Rightarrow> u8) block_mem op_tables list" where
  "sample_tables = (case make_inst NO_OP [sample_format] 0x003F [new_op_tables] of Inl _ \<Rightarrow> [] | Inr (_, ts) \<Rightarrow> ts)"

lemma sample_tables_run: "decode_run NO_OP [sample_format] sample_tables"
proof -
  have inv: "tables_inv NO_OP [sample_format] [new_op_tables]" by (simp add: tables_inv_def)
  have "\<exists>inst. decoded NO_OP [sample_format] 0x003F = Inr inst"
    by (simp add: decoded_def sample_format_def rows_fit_def Let_def)
  then obtain inst where "make_inst NO_OP [sample_format] 0x003F [new_op_tables] = Inr (inst, sample_tables)"
    using make_inst_cases[OF inv, of "0x003F"] by (auto simp: sample_tables_def)
  moreover have "decode_run NO_OP [sample_format] [new_op_tables]"
    using decode_run.start[of NO_OP "[sample_format]"] by simp
  ultimately show ?thesis by (rule decode_run.decode[rotated])
qed

theorem decoding_is_lookup_witness:
  "map_sum id fst (make_inst NO_OP [sample_format] 0x013F sample_tables) = decoded NO_OP [sample_format] 0x013F \<and>
    map_sum id (\<lambda>inst. ins_op_type (in_base inst)) (decoded NO_OP [sample_format] 0x013F) = Inr (OTHER_OP 1)"
  using decoding_is_lookup[OF sample_tables_run, THEN conjunct1, of "0x013F"]
proof
  show "map_sum id (\<lambda>inst. ins_op_type (in_base inst)) (decoded NO_OP [sample_format] 0x013F) = Inr (OTHER_OP 1)"
    by (simp add: decoded_def sample_format_def rows_fit_def row_type_def Let_def)
qed

section \<open>Instructions from the tables in a block\<close>

text \<open>What opcodes.def and the handlers have to provide for a block: the contract of each handler.\<close>

definition format_ok :: "'ms block_mem format \<Rightarrow> bool" where
  "format_ok fm \<longleftrightarrow>
     (\<forall>(name, f, op, optype) \<in> set (fm_rows fm). optype \<noteq> CALL_OP \<and> (\<forall>dword. handler (f dword))) \<and>
     (\<forall>opcode ins ins'. fm_Decode fm opcode ins = Inr ins' \<longrightarrow> ins_reconvergence_pc ins' = ins_reconvergence_pc ins) \<and>
     (\<forall>w ins ins'. fm_OperandCollect fm w ins = Inr ins' \<longrightarrow> inst_frame ins ins') \<and>
     (\<forall>ins w w'. fm_WriteBack fm ins w = Inr w' \<longrightarrow>
        wst_thread w' = wst_thread w \<and> fixed_part w' = fixed_part w \<and> wst_status w' = wst_status w)"

lemma row_handler_set: "row_handler rows op = Some f \<Longrightarrow> \<exists>name optype. (name, f, op, optype) \<in> set rows"
  by (auto simp: row_handler_def dest!: map_of_SomeD) blast

lemma row_type_set:
  "row_type zero_op rows k = Some ty \<Longrightarrow> ty = zero_op \<or> (\<exists>name f op. (name, f, op, ty) \<in> set rows)"
  by (auto simp: row_type_def dest!: map_of_SomeD split: if_splits)

lemma tabled_handler:
  assumes "format_ok fm"
  shows "handler (\<lambda>lane_id st. failR b e (case row_handler (fm_rows fm) op of None \<Rightarrow> Inl e' | Some f \<Rightarrow> f opcode lane_id st))"
proof (cases "row_handler (fm_rows fm) op")
  case (Some f)
  obtain name optype where "(name, f, op, optype) \<in> set (fm_rows fm)" using row_handler_set[OF Some] by (elim exE)
  then have "handler (f opcode)" using assms by (auto simp: format_ok_def)
  then show ?thesis by (simp add: Some handler_def failR_def)
qed (simp add: handler_def failR_def)

lemma decoded_make_ok:
  assumes "\<forall>fm \<in> set fs. format_ok fm" "zero_op \<noteq> CALL_OP"
  shows "make_ok (decoded zero_op fs)"
  unfolding make_ok_def
proof (intro allI impI)
  fix opcode inst assume "decoded zero_op fs opcode = Inr inst"
  then obtain i ins where i: "i < length fs" and d: "fm_Decode (fs ! i) opcode (new_Instruction NO_OP) = Inr ins"
    and inst: "inst = \<lparr>in_base = ins\<lparr>ins_op_type := (case row_type zero_op (fm_rows (fs ! i)) (ucast (fm_op (fs ! i) opcode)) of
          None \<Rightarrow> zero_op | Some ty \<Rightarrow> ty)\<rparr>,
        in_execute = (\<lambda>lane_id st. failR (unat (fm_op (fs ! i) opcode) \<ge> 255) Out_Of_Range
          (case row_handler (fm_rows (fs ! i)) (fm_op (fs ! i) opcode) of None \<Rightarrow> Inl Null_Deref | Some f \<Rightarrow> f opcode lane_id st)),
        in_collect = fm_OperandCollect (fs ! i), in_write_back = fm_WriteBack (fs ! i)\<rparr>"
    by (auto simp: decoded_def Let_def res_simps find_Some_iff split: option.splits)
  have ok: "format_ok (fs ! i)" using assms(1) i by simp
  have "ins_reconvergence_pc ins = null_pc"
    using ok d by (auto simp: format_ok_def new_Instruction_def null_pc_def)
  moreover have "(case row_type zero_op (fm_rows (fs ! i)) (ucast (fm_op (fs ! i) opcode)) of None \<Rightarrow> zero_op | Some ty \<Rightarrow> ty) \<noteq> CALL_OP"
    using ok assms(2) by (auto simp: format_ok_def dest!: row_type_set split: option.split)
  ultimately show "inst_ok inst"
    using tabled_handler[OF ok] ok unfolding inst_ok_def inst format_ok_def by simp
qed

text \<open>So a block whose instructions come from such tables meets the premise of its theorems.\<close>

lemma sample_format_ok: "format_ok sample_format"
  using texit.handler_axioms tnop.handler_axioms WriteBack_keeps
  by (auto simp: format_ok_def sample_format_def intro: frames)

lemma sample_decoded_ok: "make_ok (\<lambda>opcode. map_sum id fst (make_inst NO_OP [sample_format] opcode sample_tables))"
proof -
  have "map_sum id fst (make_inst NO_OP [sample_format] opcode sample_tables) = decoded NO_OP [sample_format] opcode" for opcode
    using make_inst_cases[OF decode_run_inv[OF sample_tables_run], of opcode] by auto
  moreover have "make_ok (decoded NO_OP [sample_format])"
    by (rule decoded_make_ok) (simp_all add: sample_format_ok)
  ultimately show ?thesis by simp
qed

end
