(* ===== verification/Smart_Ptr.thy ===== *)
theory Smart_Ptr
  imports Sim_Prelude
begin

text \<open>
  The shared pointers of common/string_utils.h. All pointers that share an object are linked in a
  ring through their members \<open>next_\<close>, so the heap of these nodes is explicit here. It is shown that the
  operations refine a plain map from pointers to objects, that their loops end, and that an object
  is deleted exactly when its last pointer leaves it.
\<close>

section \<open>The heap\<close>

text \<open>
  A \<open>smart_ptr\<close> object lives under an address, the objects it manages are numbered. \<open>sh_deleted\<close> lists
  the objects that \<open>delete\<close> was called for, last first. A loop over \<open>next_\<close> may not end: then the value
  of the operation is \<open>None\<close>.
\<close>

record smart_ptr =
  sn_ptr :: "nat option"
  sn_next :: "nat option"

record smart_heap =
  sh_nodes :: "nat \<rightharpoonup> smart_ptr"
  sh_deleted :: "nat list"

definition bindO :: "'a res option \<Rightarrow> ('a \<Rightarrow> 'b res option) \<Rightarrow> 'b res option" where
  "bindO m f = (case m of None \<Rightarrow> None | Some (Inl e) \<Rightarrow> Some (Inl e) | Some (Inr x) \<Rightarrow> f x)"

lemma bindO_simps [simp]: "bindO (Some (Inr x)) f = f x" "bindO (Some (Inl e)) f = Some (Inl e)" "bindO None f = None"
  by (simp_all add: bindO_def)

lemma bindO_mono [partial_function_mono]:
  assumes "mono_option B" "\<And>y. mono_option (\<lambda>f. C y f)"
  shows "mono_option (\<lambda>f. bindO (B f) (\<lambda>y. C y f))"
proof (rule monotoneI, goal_cases)
  case fg: (1 f g)
  have b: "option_ord (B f) (B g)" and c: "\<And>y. option_ord (C y f) (C y g)"
    using assms fg unfolding monotone_def by blast+
  then show "option_ord (bindO (B f) (\<lambda>y. C y f)) (bindO (B g) (\<lambda>y. C y g))"
    using b c by (cases "B f"; cases "B g") (auto simp: bindO_def flat_ord_def split: sum.splits)
qed

definition node :: "smart_heap \<Rightarrow> nat \<Rightarrow> smart_ptr res option" where
  "node h a = Some (deref (sh_nodes h) a)"

text \<open>The node that a pointer \<open>next_\<close> leads to.\<close>

definition follow :: "smart_heap \<Rightarrow> nat option \<Rightarrow> smart_ptr res option" where
  "follow h p = (case p of None \<Rightarrow> Some (Inl Null_Deref) | Some a \<Rightarrow> node h a)"

definition modify_node :: "nat \<Rightarrow> (smart_ptr \<Rightarrow> smart_ptr) \<Rightarrow> smart_heap \<Rightarrow> smart_heap res option" where
  "modify_node a f h = bindO (node h a) (\<lambda>n. Some (Inr (h\<lparr>sh_nodes := (sh_nodes h)(a \<mapsto> f n)\<rparr>)))"

text \<open>\<open>delete\<close> of a null pointer does nothing.\<close>

definition delete_obj :: "nat option \<Rightarrow> smart_heap \<Rightarrow> smart_heap" where
  "delete_obj p h = (case p of None \<Rightarrow> h | Some obj \<Rightarrow> h\<lparr>sh_deleted := obj # sh_deleted h\<rparr>)"

section \<open>Operations\<close>

text \<open>\<open>while (entry->next_ != this) entry = entry->next_\<close>\<close>

partial_function (option) find_prev :: "smart_heap \<Rightarrow> nat \<Rightarrow> nat \<Rightarrow> nat res option" where
  "find_prev h this entry =
     (case sh_nodes h entry of
        None \<Rightarrow> Some (Inl Null_Deref)
      | Some n \<Rightarrow>
          (if sn_next n = Some this then Some (Inr entry)
           else case sn_next n of None \<Rightarrow> Some (Inl Null_Deref) | Some e \<Rightarrow> find_prev h this e))"

definition unlink_prev :: "nat \<Rightarrow> nat \<Rightarrow> nat option \<Rightarrow> smart_heap \<Rightarrow> smart_heap res option" where
  "unlink_prev this entry next_this h =
     bindO (node h entry) (\<lambda>n.
     bindO (follow h (sn_next n)) (\<lambda>n2.
       modify_node entry (\<lambda>n. n\<lparr>sn_next := (if Some entry = sn_next n2 then None else next_this)\<rparr>) h))"

definition release :: "nat \<Rightarrow> smart_heap \<Rightarrow> smart_heap res option" where
  "release this h =
     bindO (node h this) (\<lambda>n.
       if sn_ptr n = None then Some (Inr h)
       else
         bindO (case sn_next n of
             Some entry \<Rightarrow>
               bindO (find_prev h this entry) (\<lambda>entry.
               bindO (unlink_prev this entry (sn_next n) h) (modify_node this (\<lambda>n. n\<lparr>sn_next := None\<rparr>)))
           | None \<Rightarrow> Some (Inr (delete_obj (sn_ptr n) h)))
         (modify_node this (\<lambda>n. n\<lparr>sn_ptr := None\<rparr>)))"

definition new_smart_ptr :: "nat option \<Rightarrow> nat \<Rightarrow> smart_heap \<Rightarrow> smart_heap" where
  "new_smart_ptr ptr this h = h\<lparr>sh_nodes := (sh_nodes h)(this \<mapsto> \<lparr>sn_ptr = ptr, sn_next = None\<rparr>)\<rparr>"

definition assign :: "nat \<Rightarrow> nat \<Rightarrow> smart_heap \<Rightarrow> smart_heap res option" where
  "assign this other h =
     bindO (release this h) (\<lambda>h.
     bindO (node h other) (\<lambda>src.
       if sn_ptr src = None then Some (Inr h)
       else
         bindO (modify_node this (\<lambda>n. n\<lparr>sn_ptr := sn_ptr src\<rparr>) h) (\<lambda>h.
         let otherNext = sn_next src in
         bindO (modify_node other (\<lambda>n. n\<lparr>sn_next := Some this\<rparr>) h) (\<lambda>h.
           modify_node this (\<lambda>n. n\<lparr>sn_next := (case otherNext of None \<Rightarrow> Some other | Some e \<Rightarrow> Some e)\<rparr>) h))))"

definition copy_smart_ptr :: "nat \<Rightarrow> nat \<Rightarrow> smart_heap \<Rightarrow> smart_heap res option" where
  "copy_smart_ptr this other h = assign this other (new_smart_ptr None this h)"

definition destroy_smart_ptr :: "nat \<Rightarrow> smart_heap \<Rightarrow> smart_heap res option" where
  "destroy_smart_ptr this h =
     bindO (release this h) (\<lambda>h. Some (Inr (h\<lparr>sh_nodes := (sh_nodes h)(this := None)\<rparr>)))"

text \<open>\<open>while (entry != this) { ++count; entry = entry->next_; }\<close>\<close>

partial_function (option) count_ring :: "smart_heap \<Rightarrow> nat \<Rightarrow> nat option \<Rightarrow> u32 \<Rightarrow> u32 res option" where
  "count_ring h this entry count =
     (if entry = Some this then Some (Inr count)
      else bindO (follow h entry) (\<lambda>n. count_ring h this (sn_next n) (count + 1)))"

definition use_count :: "nat \<Rightarrow> smart_heap \<Rightarrow> u32 res option" where
  "use_count this h =
     bindO (node h this) (\<lambda>n.
       if sn_ptr n = None then Some (Inr 0)
       else if sn_next n = None then Some (Inr 1)
       else count_ring h this (sn_next n) 1)"

definition reset :: "nat option \<Rightarrow> nat \<Rightarrow> smart_heap \<Rightarrow> smart_heap res option" where
  "reset ptr this h = bindO (release this h) (modify_node this (\<lambda>n. n\<lparr>sn_ptr := ptr\<rparr>))"

text \<open>The loops of \<open>reset_all\<close>: all other pointers of the ring get the new object, or are reset.\<close>

partial_function (option) set_ring :: "nat \<Rightarrow> nat \<Rightarrow> nat option \<Rightarrow> smart_heap \<Rightarrow> smart_heap res option" where
  "set_ring ptr this entry h =
     (if entry = Some this then Some (Inr h)
      else case entry of
        None \<Rightarrow> Some (Inl Null_Deref)
      | Some e \<Rightarrow>
          bindO (modify_node e (\<lambda>n. n\<lparr>sn_ptr := Some ptr\<rparr>) h) (\<lambda>h.
          bindO (node h e) (\<lambda>n. set_ring ptr this (sn_next n) h)))"

partial_function (option) reset_ring :: "nat \<Rightarrow> nat option \<Rightarrow> smart_heap \<Rightarrow> smart_heap res option" where
  "reset_ring this entry h =
     (if entry = Some this then Some (Inr h)
      else case entry of
        None \<Rightarrow> Some (Inl Null_Deref)
      | Some e \<Rightarrow>
          bindO (node h e) (\<lambda>n.
          bindO (reset None e h) (\<lambda>h. reset_ring this (sn_next n) h)))"

definition reset_all :: "nat option \<Rightarrow> nat \<Rightarrow> smart_heap \<Rightarrow> smart_heap res option" where
  "reset_all ptr this h =
     bindO (node h this) (\<lambda>n.
     bindO (if sn_next n = None then Some (Inr h)
            else (case ptr of Some p \<Rightarrow> set_ring p this (sn_next n) h | None \<Rightarrow> reset_ring this (sn_next n) h)) (\<lambda>h.
     bindO (node h this) (\<lambda>n.
       modify_node this (\<lambda>n. n\<lparr>sn_ptr := ptr\<rparr>) (delete_obj (sn_ptr n) h))))"

definition reset_all_to :: "nat \<Rightarrow> nat \<Rightarrow> smart_heap \<Rightarrow> smart_heap res option" where
  "reset_all_to other this h =
     bindO (node h other) (\<lambda>src.
     bindO (reset_all (sn_ptr src) this h) (\<lambda>h.
     bindO (node h other) (\<lambda>src.
     let otherNext = (case sn_next src of None \<Rightarrow> other | Some e \<Rightarrow> e) in
     bindO (modify_node other (\<lambda>n. n\<lparr>sn_next := Some this\<rparr>) h) (\<lambda>h.
     bindO (node h this) (\<lambda>n.
       case sn_next n of
         None \<Rightarrow> modify_node this (\<lambda>n. n\<lparr>sn_next := Some otherNext\<rparr>) h
       | Some entry \<Rightarrow>
           bindO (find_prev h this entry) (\<lambda>entry. modify_node entry (\<lambda>n. n\<lparr>sn_next := Some otherNext\<rparr>) h))))))"

section \<open>Rings\<close>

text \<open>What the heap says about an address.\<close>

definition alive :: "smart_heap \<Rightarrow> nat \<Rightarrow> bool" where
  "alive h a \<longleftrightarrow> sh_nodes h a \<noteq> None"

definition owner :: "smart_heap \<Rightarrow> nat \<Rightarrow> nat option" where
  "owner h a = (case sh_nodes h a of None \<Rightarrow> None | Some n \<Rightarrow> sn_ptr n)"

definition nxt :: "smart_heap \<Rightarrow> nat \<Rightarrow> nat option" where
  "nxt h a = (case sh_nodes h a of None \<Rightarrow> None | Some n \<Rightarrow> sn_next n)"

fun linked :: "(nat \<Rightarrow> nat option) \<Rightarrow> nat list \<Rightarrow> bool" where
  "linked nx (a # b # as) = (nx a = Some b \<and> linked nx (b # as))"
| "linked nx as = True"

definition ring :: "(nat \<Rightarrow> nat option) \<Rightarrow> nat list \<Rightarrow> bool" where
  "ring nx as = (case as of [] \<Rightarrow> True | [a] \<Rightarrow> nx a = None | a # b # _ \<Rightarrow> linked nx (as @ [a]))"

definition rings :: "smart_heap \<Rightarrow> (nat \<Rightarrow> nat list) \<Rightarrow> bool" where
  "rings h R \<longleftrightarrow> (\<forall>p. distinct (R p) \<and> set (R p) = {a. owner h a = Some p} \<and> ring (nxt h) (R p)) \<and>
     (\<forall>a. owner h a = None \<longrightarrow> nxt h a = None)"

lemma linked_append: "linked nx (as @ b # bs) \<longleftrightarrow> linked nx (as @ [b]) \<and> linked nx (b # bs)"
proof (induction as)
  case (Cons a as)
  then show ?case by (cases as) auto
qed simp

lemma linked_cong: "\<forall>a \<in> set (butlast as). nx a = nx' a \<Longrightarrow> linked nx as = linked nx' as"
  by (induction nx as rule: linked.induct) auto

lemma linked_off: "x \<notin> set (butlast as) \<Longrightarrow> linked (nx(x := y)) as = linked nx as"
  by (rule linked_cong) auto

lemma ring_single [simp]: "ring nx [a] \<longleftrightarrow> nx a = None" "ring nx []"
  by (simp_all add: ring_def)

lemma ring_cons: "as \<noteq> [] \<Longrightarrow> ring nx (a # as) \<longleftrightarrow> linked nx (a # as @ [a])"
  by (cases as) (simp_all add: ring_def)

lemma ring_cong: "\<forall>a \<in> set as. nx a = nx' a \<Longrightarrow> ring nx as = ring nx' as"
proof (cases as)
  case (Cons a bs)
  assume "\<forall>a \<in> set as. nx a = nx' a"
  then show ?thesis
    using linked_cong[of "a # bs @ [a]" nx nx'] by (cases "bs = []") (auto simp: Cons ring_cons butlast_append)
qed simp

lemma ring_rotate: "ring nx (as @ bs) \<Longrightarrow> ring nx (bs @ as)"
proof (cases as; cases bs)
  fix a as' b bs' assume "ring nx (as @ bs)" and ab: "as = a # as'" "bs = b # bs'"
  then have "linked nx ((a # as') @ b # bs' @ [a])" by (simp add: ring_cons)
  then have "linked nx ((a # as') @ [b])" "linked nx ((b # bs') @ [a])"
    using linked_append[of nx "a # as'" b "bs' @ [a]"] by simp_all
  then show "ring nx (bs @ as)"
    using linked_append[of nx "b # bs'" a "as' @ [b]"] by (simp add: ring_cons ab)
qed simp_all

text \<open>The ring of an object, seen from one of its pointers.\<close>

lemma ring_at:
  assumes "rings h R" "owner h a = Some p"
  obtains as where "distinct (a # as)" "set (a # as) = {b. owner h b = Some p}" "ring (nxt h) (a # as)"
proof -
  have R: "distinct (R p)" "set (R p) = {b. owner h b = Some p}" "ring (nxt h) (R p)"
    using assms(1) by (auto simp: rings_def)
  then have "a \<in> set (R p)" using assms(2) by simp
  then obtain xs ys where R_p: "R p = xs @ a # ys" by (meson split_list)
  show ?thesis
  proof (rule that[of "ys @ xs"])
    show "distinct (a # ys @ xs)" using R(1) by (auto simp: R_p)
    show "set (a # ys @ xs) = {b. owner h b = Some p}" using R(2) by (auto simp: R_p)
    show "ring (nxt h) (a # ys @ xs)" using ring_rotate[of "nxt h" xs "a # ys"] R(3) by (simp add: R_p)
  qed
qed

lemma ringsI:
  assumes "\<And>p. \<exists>as. distinct as \<and> set as = {a. owner h a = Some p} \<and> ring (nxt h) as"
    and "\<And>a. owner h a = None \<Longrightarrow> nxt h a = None"
  shows "\<exists>R. rings h R"
proof -
  have "\<forall>p. \<exists>as. distinct as \<and> set as = {a. owner h a = Some p} \<and> ring (nxt h) as" using assms(1) by blast
  from choice[OF this] show ?thesis using assms(2) by (auto simp: rings_def)
qed

section \<open>Steps on the heap\<close>

definition set_next :: "nat \<Rightarrow> nat option \<Rightarrow> smart_heap \<Rightarrow> smart_heap" where
  "set_next a x h = h\<lparr>sh_nodes := (sh_nodes h)(a \<mapsto> (the (sh_nodes h a))\<lparr>sn_next := x\<rparr>)\<rparr>"

definition set_ptr :: "nat \<Rightarrow> nat option \<Rightarrow> smart_heap \<Rightarrow> smart_heap" where
  "set_ptr a x h = h\<lparr>sh_nodes := (sh_nodes h)(a \<mapsto> (the (sh_nodes h a))\<lparr>sn_ptr := x\<rparr>)\<rparr>"

lemma modify_alive:
  assumes "alive h a"
  shows "modify_node a (\<lambda>n. n\<lparr>sn_next := x\<rparr>) h = Some (Inr (set_next a x h))"
    and "modify_node a (\<lambda>n. n\<lparr>sn_ptr := x\<rparr>) h = Some (Inr (set_ptr a x h))"
    and "node h a = Some (Inr \<lparr>sn_ptr = owner h a, sn_next = nxt h a\<rparr>)"
    and "follow h (Some a) = node h a"
    and "sh_nodes h a = Some \<lparr>sn_ptr = owner h a, sn_next = nxt h a\<rparr>"
  using assms by (auto simp: modify_node_def node_def follow_def alive_def set_next_def set_ptr_def owner_def nxt_def)

lemma set_fields:
  assumes "alive h a"
  shows "owner (set_next a x h) = owner h" "nxt (set_next a x h) = (nxt h)(a := x)"
    and "owner (set_ptr a x h) = (owner h)(a := x)" "nxt (set_ptr a x h) = nxt h"
    and "alive (set_next a x h) = alive h" "alive (set_ptr a x h) = alive h"
    and "sh_deleted (set_next a x h) = sh_deleted h" "sh_deleted (set_ptr a x h) = sh_deleted h"
  using assms by (auto simp: fun_eq_iff set_next_def set_ptr_def owner_def nxt_def alive_def)

lemma delete_fields [simp]:
  "owner (delete_obj p h) = owner h" "nxt (delete_obj p h) = nxt h" "alive (delete_obj p h) = alive h"
  "sh_deleted (delete_obj p h) = (case p of None \<Rightarrow> sh_deleted h | Some q \<Rightarrow> q # sh_deleted h)"
  by (auto simp: delete_obj_def owner_def nxt_def alive_def fun_eq_iff split: option.splits)

lemma owner_alive: "owner h a = Some p \<Longrightarrow> alive h a"
  by (auto simp: owner_def alive_def split: option.splits)

lemma find_prev_ring:
  assumes "linked (nxt h) (as @ [this])" "this \<notin> set as" "\<forall>a \<in> set as. alive h a" "as \<noteq> []"
  shows "find_prev h this (hd as) = Some (Inr (last as))"
  using assms
proof (induction as)
  case (Cons a as)
  then have a: "sh_nodes h a = Some \<lparr>sn_ptr = owner h a, sn_next = nxt h a\<rparr>" by (simp add: modify_alive(5))
  show ?case
  proof (cases as)
    case Nil
    then show ?thesis using Cons.prems a by (subst find_prev.simps) simp
  next
    case (Cons b bs)
    then have "find_prev h this (hd as) = Some (Inr (last as))" using Cons.prems Cons.IH by simp
    moreover have "nxt h a = Some b" "b \<noteq> this" using Cons.prems Cons by auto
    ultimately show ?thesis using Cons.prems a Cons by (subst find_prev.simps) simp
  qed
qed simp

text \<open>A step that rearranges the rings of the objects in \<open>P\<close> leaves the others as they are.\<close>

lemma rings_change:
  assumes "rings h R"
    and "\<And>a q. q \<notin> P \<Longrightarrow> owner h' a = Some q \<longleftrightarrow> owner h a = Some q"
    and "\<And>a q. owner h a = Some q \<Longrightarrow> q \<notin> P \<Longrightarrow> nxt h' a = nxt h a"
    and "\<And>q. q \<in> P \<Longrightarrow> \<exists>as. distinct as \<and> set as = {a. owner h' a = Some q} \<and> ring (nxt h') as"
    and "\<And>a. owner h' a = None \<Longrightarrow> nxt h' a = None"
  shows "\<exists>R'. rings h' R'"
proof (rule ringsI)
  fix q
  show "\<exists>as. distinct as \<and> set as = {a. owner h' a = Some q} \<and> ring (nxt h') as"
  proof (cases "q \<in> P")
    case False
    have R: "distinct (R q)" "set (R q) = {a. owner h a = Some q}" "ring (nxt h) (R q)"
      using assms(1) by (auto simp: rings_def)
    have "ring (nxt h) (R q) = ring (nxt h') (R q)"
      by (rule ring_cong) (use R(2) assms(3) False in auto)
    then show ?thesis using R assms(2)[OF False] by (intro exI[of _ "R q"]) auto
  qed (rule assms(4))
qed (rule assms(5))

lemma rings_unowned: "rings h R \<Longrightarrow> owner h a = None \<Longrightarrow> nxt h a = None"
  by (simp add: rings_def)

lemma ring_next: "ring nx (a # as) \<Longrightarrow> nx a = (if as = [] then None else Some (hd as))"
  by (cases as) (simp_all add: ring_cons)

lemma release_ring:
  assumes "rings h R" "owner h a = Some p" "distinct (a # as)" "set (a # as) = {b. owner h b = Some p}"
    and "ring (nxt h) (a # as)"
  shows "\<exists>h'. release a h = Some (Inr h') \<and> owner h' = (owner h)(a := None) \<and> alive h' = alive h \<and>
    sh_deleted h' = (if as = [] then p # sh_deleted h else sh_deleted h) \<and> nxt h' a = None \<and>
    ring (nxt h') as \<and> (\<forall>b. b \<notin> set (a # as) \<longrightarrow> nxt h' b = nxt h b)"
proof (cases "as = []")
  case True
  have a: "alive h a" by (rule owner_alive[OF assms(2)])
  let ?h = "set_ptr a None (delete_obj (Some p) h)"
  have "release a h = Some (Inr ?h)"
    using assms True a by (simp add: release_def modify_alive)
  then show ?thesis using assms(5) a True by (intro exI[of _ ?h]) (simp add: set_fields)
next
  case False
  define l where "l = last as"
  define x where "x = (if l = hd as then None else Some (hd as))"
  have live: "\<forall>b \<in> set (a # as). alive h b" using assms(4) owner_alive by blast
  have lk: "linked (nxt h) (as @ [a])" "nxt h a = Some (hd as)"
    using assms(5) False by (cases as; simp add: ring_cons)+
  have l: "l \<in> set as" "l \<noteq> a" using False assms(3) by (auto simp: l_def)
  have "as = butlast as @ [l]" using False by (simp add: l_def)
  then have nl: "nxt h l = Some a"
    using lk(1) linked_append[of "nxt h" "butlast as" l "[a]"] by (metis append.assoc append_Cons append_Nil linked.simps(1))
  let ?h = "set_ptr a None (set_next a None (set_next l x h))"
  have fp: "find_prev h a (hd as) = Some (Inr l)"
    unfolding l_def by (rule find_prev_ring) (use lk(1) assms(3) live False in auto)
  have alive: "alive h a" "alive h l" using live l by auto
  have "unlink_prev a l (Some (hd as)) h = Some (Inr (set_next l x h))"
    using alive lk(2) nl by (simp add: unlink_prev_def modify_alive x_def)
  then have "release a h = Some (Inr ?h)"
    using assms(2) alive fp lk(2) by (simp add: release_def modify_alive set_fields)
  moreover have n: "nxt ?h = (nxt h)(l := x, a := None)" using alive by (simp add: set_fields)
  moreover have "ring (nxt ?h) as"
  proof (cases "as = [l]")
    case True
    then have "x = None" by (simp add: x_def)
    then have "nxt ?h l = None" unfolding n using l by simp
    then show ?thesis by (simp add: True)
  next
    case more: False
    obtain b bs where as: "as = b # bs" "bs \<noteq> []"
      using False more by (cases as; cases "tl as") (auto simp: l_def)
    then obtain cs where bs: "bs = cs @ [l]" by (metis append_butlast_last_id l_def last_ConsR)
    have "linked (nxt h) ((b # cs) @ [l])"
      using lk(1) linked_append[of "nxt h" "b # cs" l "[a]"] by (simp add: as bs)
    moreover have "linked (nxt ?h) ((b # cs) @ [l]) = linked (nxt h) ((b # cs) @ [l])"
      by (rule linked_cong) (use assms(3) as bs n in auto)
    moreover have "x = Some b" using assms(3) by (auto simp: x_def as bs)
    then have "nxt ?h l = Some b" unfolding n using l by simp
    ultimately show ?thesis
      using linked_append[of "nxt ?h" "b # cs" l "[b]"] by (simp add: as bs ring_cons)
  qed
  ultimately show ?thesis
    using alive l False by (intro exI[of _ ?h]) (auto simp: set_fields)
qed

text \<open>Without an owned object there is nothing to release.\<close>

lemma release_step:
  assumes "rings h R" "alive h a"
  shows "\<exists>h' R'. release a h = Some (Inr h') \<and> rings h' R' \<and> owner h' = (owner h)(a := None) \<and> alive h' = alive h \<and>
    nxt h' a = None \<and> sh_deleted h' = (case owner h a of None \<Rightarrow> sh_deleted h
      | Some p \<Rightarrow> if \<exists>b. b \<noteq> a \<and> owner h b = Some p then sh_deleted h else p # sh_deleted h)"
proof (cases "owner h a")
  case None
  then have "release a h = Some (Inr h)" using assms(2) by (simp add: release_def modify_alive)
  moreover have "(owner h)(a := None) = owner h" using None by auto
  ultimately show ?thesis using None assms(1) rings_unowned[OF assms(1) None] by auto
next
  case (Some p)
  obtain as where as: "distinct (a # as)" "set (a # as) = {b. owner h b = Some p}" "ring (nxt h) (a # as)"
    by (rule ring_at[OF assms(1) Some])
  obtain h' where h': "release a h = Some (Inr h')" "owner h' = (owner h)(a := None)" "alive h' = alive h"
      "sh_deleted h' = (if as = [] then p # sh_deleted h else sh_deleted h)" "nxt h' a = None"
      "ring (nxt h') as" "\<forall>b. b \<notin> set (a # as) \<longrightarrow> nxt h' b = nxt h b"
    using release_ring[OF assms(1) Some as] by (elim exE conjE) (rule that)
  have "\<exists>R'. rings h' R'"
  proof (rule rings_change[OF assms(1), where P = "{p}"])
    fix q assume "q \<in> {p}"
    then show "\<exists>bs. distinct bs \<and> set bs = {b. owner h' b = Some q} \<and> ring (nxt h') bs"
      using as h'(2,6) by (intro exI[of _ as]) auto
  next
    fix b assume "owner h' b = None"
    then show "nxt h' b = None"
      using h'(2,5,7) as(2) rings_unowned[OF assms(1)] by (cases "b = a") auto
  next
    fix b q assume "owner h b = Some q" "q \<notin> {p}"
    then have "b \<notin> set (a # as)" unfolding as(2) by simp
    then show "nxt h' b = nxt h b" using h'(7) by simp
  qed (use h'(2) Some in auto)
  moreover have "as = [] \<longleftrightarrow> \<not> (\<exists>b. b \<noteq> a \<and> owner h b = Some p)"
    using as(1,2) by (cases as) auto
  ultimately show ?thesis using h' Some by auto
qed

text \<open>A pointer that owns nothing is linked in behind another one.\<close>

lemma join_step:
  assumes "rings h R" "owner h a = None" "alive h a" "owner h b = Some q"
  defines "h' \<equiv> set_next a (Some (case nxt h b of None \<Rightarrow> b | Some e \<Rightarrow> e)) (set_next b (Some a) (set_ptr a (Some q) h))"
  shows "\<exists>R'. rings h' R'" "owner h' = (owner h)(a \<mapsto> q)" "alive h' = alive h" "sh_deleted h' = sh_deleted h"
proof -
  have b: "alive h b" "a \<noteq> b" using assms(2,4) owner_alive by auto
  show owner: "owner h' = (owner h)(a \<mapsto> q)" and "alive h' = alive h" "sh_deleted h' = sh_deleted h"
    using assms(3) b by (simp_all add: h'_def set_fields)
  obtain zs where zs: "distinct (b # zs)" "set (b # zs) = {c. owner h c = Some q}" "ring (nxt h) (b # zs)"
    by (rule ring_at[OF assms(1,4)])
  have a: "a \<notin> set (b # zs)" unfolding zs(2) using assms(2) by simp
  have n: "nxt h' = (nxt h)(b := Some a, a := Some (hd (zs @ [b])))"
    using assms(3) b ring_next[OF zs(3)] by (cases zs) (simp_all add: h'_def set_fields)
  have "linked (nxt h) (zs @ [b])" using zs(3) by (cases zs) (simp_all add: ring_cons)
  then have "linked (nxt h') (zs @ [b])"
    using zs(1) a by (simp add: n linked_off)
  then have "ring (nxt h') (b # a # zs)"
    using b(2) by (cases zs) (simp_all add: ring_cons n)
  then have new: "\<exists>as. distinct as \<and> set as = {c. owner h' c = Some q} \<and> ring (nxt h') as"
    using zs(1,2) a by (intro exI[of _ "b # a # zs"]) (auto simp: owner)
  show "\<exists>R'. rings h' R'"
  proof (rule rings_change[OF assms(1), where P = "{q}"])
    fix c r assume "owner h c = Some r" "r \<notin> {q}"
    then show "nxt h' c = nxt h c" using assms(2,4) by (auto simp: n)
  next
    fix c assume "owner h' c = None"
    then show "nxt h' c = None"
      using rings_unowned[OF assms(1), of c] assms(4) by (auto simp: n owner split: if_splits)
  qed (use new in \<open>auto simp: owner assms(2)\<close>)
qed

lemma assign_step:
  assumes "rings h R" "alive h a" "alive h b"
  shows "\<exists>h' R'. assign a b h = Some (Inr h') \<and> rings h' R' \<and> alive h' = alive h \<and>
    owner h' = (owner h)(a := (if a = b then None else owner h b)) \<and>
    sh_deleted h' = (case owner h a of None \<Rightarrow> sh_deleted h
      | Some p \<Rightarrow> if \<exists>b. b \<noteq> a \<and> owner h b = Some p then sh_deleted h else p # sh_deleted h)"
proof -
  obtain h1 R1 where h1: "release a h = Some (Inr h1)" "rings h1 R1" "owner h1 = (owner h)(a := None)"
      "alive h1 = alive h" "nxt h1 a = None"
      "sh_deleted h1 = (case owner h a of None \<Rightarrow> sh_deleted h
        | Some p \<Rightarrow> if \<exists>b. b \<noteq> a \<and> owner h b = Some p then sh_deleted h else p # sh_deleted h)"
    using release_step[OF assms(1,2)] by (elim exE conjE) (rule that)
  show ?thesis
  proof (cases "owner h1 b")
    case None
    then have "assign a b h = Some (Inr h1)" using h1(1,4) assms(3) by (simp add: assign_def modify_alive)
    moreover have "owner h1 = (owner h)(a := (if a = b then None else owner h b))"
      using None h1(3) by (auto split: if_splits)
    ultimately show ?thesis using h1 by auto
  next
    case (Some q)
    then have ab: "a \<noteq> b" and q: "owner h b = Some q" using h1(3) by (auto split: if_splits)
    have o: "owner h1 a = None" and live: "alive h1 a" "alive h1 b" using h1(3,4) assms(2,3) by simp_all
    let ?h = "set_next a (Some (case nxt h1 b of None \<Rightarrow> b | Some e \<Rightarrow> e)) (set_next b (Some a) (set_ptr a (Some q) h1))"
    note j = join_step[OF h1(2) o live(1) Some]
    have "(case nxt h1 b of None \<Rightarrow> Some b | Some e \<Rightarrow> Some e) = Some (case nxt h1 b of None \<Rightarrow> b | Some e \<Rightarrow> e)"
      by (simp split: option.split)
    then have "assign a b h = Some (Inr ?h)"
      using h1(1) live Some by (simp add: assign_def modify_alive set_fields)
    moreover obtain R' where "rings ?h R'" using j(1) by (elim exE)
    ultimately show ?thesis using j(2-4) h1(3,4,6) ab q by (intro exI[of _ ?h] exI[of _ R']) simp
  qed
qed

lemma count_ring_length:
  assumes "linked (nxt h) (as @ [this])" "this \<notin> set as" "\<forall>a \<in> set as. alive h a"
  shows "count_ring h this (Some (hd (as @ [this]))) n = Some (Inr (n + of_nat (length as)))"
  using assms
proof (induction as arbitrary: n)
  case Nil
  then show ?case by (subst count_ring.simps) simp
next
  case (Cons a as)
  have "nxt h a = Some (hd (as @ [this]))" using Cons.prems by (cases as) auto
  moreover have "linked (nxt h) (as @ [this])" using Cons.prems(1) by (cases as) auto
  ultimately show ?case
    using Cons by (subst count_ring.simps) (simp add: modify_alive algebra_simps)
qed

lemma use_count_owners:
  assumes "rings h R" "alive h a"
  shows "use_count a h = Some (Inr (case owner h a of None \<Rightarrow> 0 | Some p \<Rightarrow> of_nat (card {b. owner h b = Some p})))"
proof (cases "owner h a")
  case None
  then show ?thesis using assms(2) by (simp add: use_count_def modify_alive)
next
  case (Some p)
  obtain as where as: "distinct (a # as)" "set (a # as) = {b. owner h b = Some p}" "ring (nxt h) (a # as)"
    by (rule ring_at[OF assms(1) Some])
  have live: "\<forall>b \<in> set as. alive h b" using as(2) owner_alive by (metis (mono_tags) list.set_intros(2) mem_Collect_eq)
  have card: "card {b. owner h b = Some p} = Suc (length as)"
    using distinct_card[OF as(1)] unfolding as(2) by simp
  show ?thesis
  proof (cases "as = []")
    case True
    then show ?thesis using assms(2) Some as(3) card by (simp add: use_count_def modify_alive)
  next
    case False
    then have "linked (nxt h) (as @ [a])" using as(3) by (cases as) (simp_all add: ring_cons)
    then show ?thesis
      using assms(2) Some as(1) card count_ring_length[OF _ _ live, of a 1] ring_next[OF as(3)] False
      by (simp add: use_count_def modify_alive)
  qed
qed

lemma set_ring_step:
  assumes "linked (nxt h) (as @ [this])" "this \<notin> set as" "\<forall>a \<in> set as. alive h a"
  shows "\<exists>h'. set_ring p this (Some (hd (as @ [this]))) h = Some (Inr h') \<and>
    owner h' = (\<lambda>b. if b \<in> set as then Some p else owner h b) \<and> nxt h' = nxt h \<and> alive h' = alive h \<and>
    sh_deleted h' = sh_deleted h"
  using assms
proof (induction as arbitrary: h)
  case Nil
  show ?case by (rule exI[of _ h]) (simp add: set_ring.simps)
next
  case (Cons a as)
  let ?h = "set_ptr a (Some p) h"
  have a: "alive h a" "a \<noteq> this" using Cons.prems by auto
  have nx: "nxt h a = Some (hd (as @ [this]))" using Cons.prems(1) by (cases as) auto
  have "linked (nxt ?h) (as @ [this])" using Cons.prems(1) a by (cases as) (simp_all add: set_fields)
  then obtain h' where h': "set_ring p this (Some (hd (as @ [this]))) ?h = Some (Inr h')"
      "owner h' = (\<lambda>b. if b \<in> set as then Some p else owner ?h b)" "nxt h' = nxt ?h" "alive h' = alive ?h"
      "sh_deleted h' = sh_deleted ?h"
    using Cons.IH[of ?h] Cons.prems(2,3) a by (auto simp: set_fields)
  have "set_ring p this (Some (hd ((a # as) @ [this]))) h = Some (Inr h')"
    using a h'(1) nx by (subst set_ring.simps) (simp add: modify_alive set_fields)
  then show ?case using h' a by (intro exI[of _ h']) (auto simp: set_fields fun_eq_iff)
qed

lemma reset_ring_step:
  assumes "rings h R" "owner h this = Some p" "distinct (this # as)" "set (this # as) = {b. owner h b = Some p}"
    and "ring (nxt h) (this # as)"
  shows "\<exists>h' R'. reset_ring this (Some (hd (as @ [this]))) h = Some (Inr h') \<and> rings h' R' \<and>
    owner h' = (\<lambda>b. if b \<in> set as then None else owner h b) \<and> nxt h' this = None \<and> alive h' = alive h \<and>
    sh_deleted h' = sh_deleted h"
  using assms
proof (induction as arbitrary: h R)
  case Nil
  then show ?case by (intro exI[of _ h] exI[of _ R]) (simp add: reset_ring.simps)
next
  case (Cons a as)
  have a: "owner h a = Some p" "a \<noteq> this" "alive h a"
    using Cons.prems(3,4) owner_alive[of h a p] by auto
  have rot: "ring (nxt h) (a # as @ [this])" using ring_rotate[of "nxt h" "[this]" "a # as"] Cons.prems(5) by simp
  have "distinct (a # as @ [this])" "set (a # as @ [this]) = {b. owner h b = Some p}"
    using Cons.prems(3,4) by auto
  from release_ring[OF Cons.prems(1) a(1) this rot] obtain h1 where
    h1: "release a h = Some (Inr h1)" "owner h1 = (owner h)(a := None)" "alive h1 = alive h"
      "sh_deleted h1 = sh_deleted h" "nxt h1 a = None" "ring (nxt h1) (as @ [this])"
    by auto
  obtain R1 where R1: "rings h1 R1" using release_step[OF Cons.prems(1) a(3)] h1(1) by auto
  let ?h = "set_ptr a None h1"
  have same: "owner ?h = owner h1" "nxt ?h = nxt h1" "alive ?h = alive h1" "sh_deleted ?h = sh_deleted h1"
    using a(3) h1(2,3) by (auto simp: set_fields)
  have r: "rings ?h R1" using R1 by (simp add: rings_def same)
  have own: "owner ?h this = Some p" using Cons.prems(2) a(2) h1(2) by (simp add: same)
  have set_as: "set (this # as) = {b. owner ?h b = Some p}" using Cons.prems(3,4) h1(2) by (auto simp: same)
  have rg: "ring (nxt ?h) (this # as)" using ring_rotate[OF h1(6)] by (simp add: same)
  have "distinct (this # as)" using Cons.prems(3) by simp
  from Cons.IH[OF r own this set_as rg] obtain h' R' where h': "reset_ring this (Some (hd (as @ [this]))) ?h = Some (Inr h')" "rings h' R'"
      "owner h' = (\<lambda>b. if b \<in> set as then None else owner ?h b)" "nxt h' this = None" "alive h' = alive ?h"
      "sh_deleted h' = sh_deleted ?h"
    by (elim exE conjE) (rule that)
  have nx: "nxt h a = Some (hd (as @ [this]))" using ring_next[OF rot] by simp
  have "reset_ring this (Some (hd ((a # as) @ [this]))) h = Some (Inr h')"
    using a h1(1,3) nx h'(1) by (subst reset_ring.simps) (simp add: modify_alive reset_def)
  then show ?case
    using h' h1 by (intro exI[of _ h'] exI[of _ R']) (auto simp: same fun_eq_iff)
qed

text \<open>Giving a new object to all pointers of a ring, and deleting the old one.\<close>

definition free_obj :: "smart_heap \<Rightarrow> nat option \<Rightarrow> bool" where
  "free_obj h p \<longleftrightarrow> (\<forall>q. p = Some q \<longrightarrow> (\<forall>b. owner h b \<noteq> Some q))"

lemma give_step:
  assumes "rings h R" "owner h a = None" "alive h a" "free_obj h ptr"
  shows "\<exists>R'. rings (set_ptr a ptr h) R'"
proof (rule rings_change[OF assms(1), where P = "set_option ptr"])
  have n: "nxt h a = None" by (rule rings_unowned[OF assms(1,2)])
  show "\<exists>as. distinct as \<and> set as = {b. owner (set_ptr a ptr h) b = Some q} \<and> ring (nxt (set_ptr a ptr h)) as"
    if "q \<in> set_option ptr" for q
    using assms(3,4) n that by (intro exI[of _ "[a]"]) (auto simp: set_fields free_obj_def)
  show "nxt (set_ptr a ptr h) b = None" if "owner (set_ptr a ptr h) b = None" for b
    using assms(3) n that rings_unowned[OF assms(1), of b] by (auto simp: set_fields split: if_splits)
qed (use assms(2,3) in \<open>auto simp: set_fields\<close>)

lemma reset_all_Some:
  assumes "alive h a" "distinct (a # as)" "ring (nxt h) (a # as)" "\<forall>b \<in> set as. alive h b"
  shows "\<exists>h'. reset_all (Some q) a h = Some (Inr h') \<and> nxt h' = nxt h \<and> alive h' = alive h \<and>
    owner h' = (\<lambda>b. if b \<in> set (a # as) then Some q else owner h b) \<and>
    sh_deleted h' = (case owner h a of None \<Rightarrow> sh_deleted h | Some p \<Rightarrow> p # sh_deleted h)"
proof -
  have "as \<noteq> [] \<longrightarrow> linked (nxt h) (as @ [a])" using assms(3) by (cases as) (simp_all add: ring_cons)
  then obtain h1 where h1: "as \<noteq> [] \<longrightarrow> set_ring q a (Some (hd (as @ [a]))) h = Some (Inr h1)" "as = [] \<longrightarrow> h1 = h"
      "owner h1 = (\<lambda>b. if b \<in> set as then Some q else owner h b)" "nxt h1 = nxt h" "alive h1 = alive h"
      "sh_deleted h1 = sh_deleted h"
    using set_ring_step[of h as a q] assms(2,4) by (cases "as = []") auto
  let ?h = "set_ptr a (Some q) (delete_obj (owner h a) h1)"
  have o1: "owner h1 a = owner h a" using h1(3) assms(2) by simp
  have "reset_all (Some q) a h = Some (Inr ?h)"
    using assms(1) h1(1,2,5) o1 ring_next[OF assms(3)]
    by (cases as) (simp_all add: reset_all_def modify_alive)
  then show ?thesis using assms(1) h1(3-6) by (intro exI[of _ ?h]) (auto simp: set_fields fun_eq_iff split: option.split)
qed

lemma reset_all_step:
  assumes "rings h R" "alive h a" "free_obj h ptr"
  shows "\<exists>h' R'. reset_all ptr a h = Some (Inr h') \<and> rings h' R' \<and> alive h' = alive h \<and>
    owner h' = (\<lambda>b. if b = a \<or> owner h a \<noteq> None \<and> owner h b = owner h a then ptr else owner h b) \<and>
    sh_deleted h' = (case owner h a of None \<Rightarrow> sh_deleted h | Some p \<Rightarrow> p # sh_deleted h)"
proof (cases "owner h a")
  case None
  let ?h = "set_ptr a ptr h"
  have n: "nxt h a = None" by (rule rings_unowned[OF assms(1) None])
  have "reset_all ptr a h = Some (Inr ?h)"
    using assms(2) None n by (simp add: reset_all_def modify_alive delete_obj_def)
  moreover have "\<exists>R'. rings ?h R'" by (rule give_step[OF assms(1) None assms(2,3)])
  ultimately show ?thesis using assms(2) None by (auto simp: set_fields fun_eq_iff)
next
  case (Some p)
  obtain as where as: "distinct (a # as)" "set (a # as) = {b. owner h b = Some p}" "ring (nxt h) (a # as)"
    by (rule ring_at[OF assms(1) Some])
  have own: "owner h b = Some p \<longleftrightarrow> b \<in> set (a # as)" for b unfolding as(2) by simp
  have live: "\<forall>b \<in> set as. alive h b" using own owner_alive by auto
  have lk: "as \<noteq> [] \<longrightarrow> linked (nxt h) (as @ [a])" using as(3) by (cases as) (simp_all add: ring_cons)
  show ?thesis
  proof (cases ptr)
    case ptr: None
    obtain h1 R1 where h1: "reset_ring a (Some (hd (as @ [a]))) h = Some (Inr h1)" "rings h1 R1"
        "owner h1 = (\<lambda>b. if b \<in> set as then None else owner h b)" "nxt h1 a = None" "alive h1 = alive h"
        "sh_deleted h1 = sh_deleted h"
      using reset_ring_step[OF assms(1) Some as] by (elim exE conjE) (rule that)
    let ?h = "set_ptr a None (delete_obj (Some p) h1)"
    have o1: "owner h1 a = Some p" using h1(3) as(1) Some by simp
    have "as = [] \<Longrightarrow> h1 = h" using h1(1) by (simp add: reset_ring.simps)
    then have "reset_all ptr a h = Some (Inr ?h)"
      using assms(2) ptr h1(1,5) o1 ring_next[OF as(3)]
      by (cases as) (simp_all add: reset_all_def modify_alive)
    moreover have "\<exists>R'. rings ?h R'"
    proof (rule rings_change[OF h1(2), where P = "{p}"])
      fix q assume "q \<in> {p}"
      then show "\<exists>bs. distinct bs \<and> set bs = {b. owner ?h b = Some q} \<and> ring (nxt ?h) bs"
        using assms(2) h1(3,5) own by (intro exI[of _ "[]"]) (auto simp: set_fields)
    next
      fix b assume "owner ?h b = None"
      then show "nxt ?h b = None"
        using assms(2) h1(4,5) rings_unowned[OF h1(2), of b] by (auto simp: set_fields split: if_splits)
    qed (use assms(2) h1(3,5) o1 in \<open>auto simp: set_fields\<close>)
    moreover have "owner ?h = (\<lambda>b. if b \<in> set (a # as) then None else owner h b)" "alive ?h = alive h"
      "sh_deleted ?h = p # sh_deleted h"
      using assms(2) h1(3,5,6) by (auto simp: set_fields fun_eq_iff)
    ultimately show ?thesis by (auto simp: Some ptr own fun_eq_iff)
  next
    case ptr: (Some q)
    obtain h1 where h1: "reset_all (Some q) a h = Some (Inr h1)" "nxt h1 = nxt h" "alive h1 = alive h"
        "owner h1 = (\<lambda>b. if b \<in> set (a # as) then Some q else owner h b)"
        "sh_deleted h1 = (case owner h a of None \<Rightarrow> sh_deleted h | Some p \<Rightarrow> p # sh_deleted h)"
      using reset_all_Some[OF assms(2) as(1,3) live, of q] by (elim exE conjE) (rule that)
    have free: "owner h b \<noteq> Some q" for b using assms(3) ptr by (simp add: free_obj_def)
    have "\<exists>R'. rings h1 R'"
    proof (rule rings_change[OF assms(1), where P = "{p, q}"])
      fix r assume "r \<in> {p, q}"
      then show "\<exists>bs. distinct bs \<and> set bs = {b. owner h1 b = Some r} \<and> ring (nxt h1) bs"
        using own free as(1,3) Some unfolding h1(2,4)
        by (intro exI[of _ "if r = q then a # as else []"]) auto
    next
      fix b assume "owner h1 b = None"
      then show "nxt h1 b = None" unfolding h1(2,4) using rings_unowned[OF assms(1), of b] by (auto split: if_splits)
    next
      fix b r assume "r \<notin> {p, q}"
      then show "owner h1 b = Some r \<longleftrightarrow> owner h b = Some r" using own[of b] unfolding h1(4) by auto
    qed (simp add: h1(2))
    then show ?thesis using h1(1,3-5) by (auto simp: Some ptr own fun_eq_iff)
  qed
qed

lemma group_at:
  assumes "rings h R" "alive h a"
  obtains as where "distinct (a # as)" "ring (nxt h) (a # as)"
    "set (a # as) = {b. b = a \<or> owner h a \<noteq> None \<and> owner h b = owner h a}" "\<forall>b \<in> set (a # as). alive h b"
proof (cases "owner h a")
  case None
  then show ?thesis using that[of "[]"] rings_unowned[OF assms(1) None] assms(2) by simp
next
  case (Some p)
  obtain as where as: "distinct (a # as)" "set (a # as) = {b. owner h b = Some p}" "ring (nxt h) (a # as)"
    by (rule ring_at[OF assms(1) Some])
  have set_as: "set (a # as) = {b. b = a \<or> owner h a \<noteq> None \<and> owner h b = owner h a}"
    unfolding as(2) using Some by auto
  moreover have "\<forall>b \<in> set (a # as). alive h b" unfolding as(2) by (simp add: owner_alive)
  ultimately show ?thesis by (rule that[OF as(1,3)])
qed

text \<open>The ring of the second pointer takes in the one of the first.\<close>

lemma merge_rings:
  assumes "ring nx (a # as)" "ring nx (b # bs)" "distinct ((b # bs) @ a # as)"
  shows "ring (nx(b := Some a, last (a # as) := Some (hd (bs @ [b])))) ((b # a # as) @ bs)"
proof -
  let ?l = "last (a # as)"
  let ?nx = "nx(b := Some a, ?l := Some (hd (bs @ [b])))"
  have l: "?l \<in> set (a # as)" by (rule last_in_set) simp
  then have lb: "?l \<notin> set (b # bs)" using assms(3) by auto
  have as: "a # as = butlast (a # as) @ [?l]" by (rule append_butlast_last_id[symmetric]) simp
  have "linked nx (a # as)"
  proof (cases "as = []")
    case False
    then have "linked nx ((a # as) @ [a])" using assms(1) by (simp add: ring_cons)
    then show ?thesis using linked_append[of nx "butlast (a # as)" ?l "[a]"] as by (metis append.assoc append_Cons append_Nil)
  qed simp
  moreover have "?l \<notin> set (butlast (a # as))" using assms(3) as by (metis distinct_append not_distinct_conv_prefix)
  moreover have "b \<notin> set (a # as)" using assms(3) by auto
  ultimately have "linked ?nx (a # as)"
    using in_set_butlastD[of b "a # as"] by (subst linked_cong[of _ _ nx]) auto
  then have "linked ?nx (butlast (b # a # as) @ [?l])"
    using lb by (cases as) (auto simp: as[symmetric])
  moreover have "linked nx (bs @ [b])" using assms(2) by (cases bs) (simp_all add: ring_cons)
  then have "linked ?nx (bs @ [b])" using assms(3) lb by (subst linked_off; auto)+
  then have "linked ?nx (?l # bs @ [b])" by (cases bs) auto
  ultimately have "linked ?nx (butlast (b # a # as) @ ?l # bs @ [b])" using linked_append by blast
  moreover have "butlast (b # a # as) @ ?l # bs @ [b] = b # (a # as @ bs) @ [b]"
    using as by (metis append.assoc append_Cons append_Nil butlast.simps(2) list.distinct(1))
  ultimately have "linked ?nx (b # (a # as @ bs) @ [b])" by (simp only:)
  then have "ring ?nx (b # (a # as @ bs))" by (rule ring_cons[THEN iffD2, rotated]) simp
  then show ?thesis by (simp only: append_Cons)
qed

lemma reset_all_to_step:
  assumes "rings h R" "alive h a" "owner h b = Some q" "owner h a \<noteq> Some q"
  shows "\<exists>h' R'. reset_all_to b a h = Some (Inr h') \<and> rings h' R' \<and> alive h' = alive h \<and>
    owner h' = (\<lambda>c. if c = a \<or> owner h a \<noteq> None \<and> owner h c = owner h a then Some q else owner h c) \<and>
    sh_deleted h' = (case owner h a of None \<Rightarrow> sh_deleted h | Some p \<Rightarrow> p # sh_deleted h)"
proof -
  obtain as where as: "distinct (a # as)" "ring (nxt h) (a # as)"
      "set (a # as) = {c. c = a \<or> owner h a \<noteq> None \<and> owner h c = owner h a}" "\<forall>c \<in> set (a # as). alive h c"
    by (rule group_at[OF assms(1,2)])
  have group: "c \<in> set (a # as) \<longleftrightarrow> c = a \<or> owner h a \<noteq> None \<and> owner h c = owner h a" for c unfolding as(3) by simp
  obtain bs where bs: "distinct (b # bs)" "set (b # bs) = {c. owner h c = Some q}" "ring (nxt h) (b # bs)"
    by (rule ring_at[OF assms(1,3)])
  have other: "c \<in> set (b # bs) \<longleftrightarrow> owner h c = Some q" for c unfolding bs(2) by simp
  have disj: "set (b # bs) \<inter> set (a # as) = {}"
    by (rule equals0I) (metis IntE group other assms(4))
  then have ab: "b \<noteq> a" "b \<notin> set as" by auto
  have live: "alive h b" by (rule owner_alive[OF assms(3)])
  have "\<forall>c \<in> set as. alive h c" using as(4) by simp
  from reset_all_Some[OF assms(2) as(1,2) this, of q] obtain h1 where
    h1: "reset_all (Some q) a h = Some (Inr h1)" "nxt h1 = nxt h" "alive h1 = alive h"
      "owner h1 = (\<lambda>c. if c \<in> set (a # as) then Some q else owner h c)"
      "sh_deleted h1 = (case owner h a of None \<Rightarrow> sh_deleted h | Some p \<Rightarrow> p # sh_deleted h)"
    by (elim exE conjE) (rule that)
  let ?on = "hd (bs @ [b])" and ?l = "last (a # as)" and ?h2 = "set_next b (Some a) h1"
  let ?h = "set_next ?l (Some ?on) ?h2"
  have on: "(case nxt h b of None \<Rightarrow> b | Some e \<Rightarrow> e) = ?on" using ring_next[OF bs(3)] by (cases bs) simp_all
  have l: "?l \<in> set (a # as)" by (rule last_in_set) simp
  have live_l: "alive h ?l" using as(4) l by blast
  have n2: "nxt ?h2 = (nxt h)(b := Some a)" "alive ?h2 = alive h" using live h1(2,3) by (simp_all add: set_fields)
  have fp: "find_prev ?h2 a (hd as) = Some (Inr (last as))" if "as \<noteq> []"
  proof (rule find_prev_ring)
    have "linked (nxt h) (as @ [a])" using as(2) that by (cases as) (simp_all add: ring_cons)
    then show "linked (nxt ?h2) (as @ [a])" using ab by (simp add: n2 linked_off)
  qed (use as(1,4) that n2(2) in auto)
  have eq: "reset_all_to b a h = Some (Inr ?h)"
  proof (cases "as = []")
    case True
    then show ?thesis
      using assms(2,3) live h1(1-3) on ab n2 ring_next[OF as(2)]
      by (simp add: reset_all_to_def modify_alive Let_def)
  next
    case False
    then show ?thesis
      using assms(2,3) live h1(1-3) on ab n2 ring_next[OF as(2)] fp[OF False] live_l
      by (simp add: reset_all_to_def modify_alive Let_def)
  qed
  define h' where "h' = ?h"
  have n: "nxt ?h = (nxt h)(b := Some a, ?l := Some ?on)" and own: "owner ?h = owner h1" and al: "alive ?h = alive h"
    and del: "sh_deleted ?h = sh_deleted h1"
    using live live_l h1(3) n2 by (simp_all add: set_fields)
  note [folded h'_def] = eq n own al del
  note eq = this(1) and n = this(2) and own = this(3) and al = this(4) and del = this(5)
  have mr: "ring (nxt h') ((b # a # as) @ bs)"
    unfolding n using merge_rings[OF as(2) bs(3)] as(1) bs(1) disj by auto
  have "\<exists>R'. rings h' R'"
  proof (rule rings_change[OF assms(1), where P = "insert q (set_option (owner h a))"])
    fix r assume r: "r \<in> insert q (set_option (owner h a))"
    have "set ((b # a # as) @ bs) = {c. owner h' c = Some q}" using other by (auto simp: own h1(4))
    moreover have "distinct ((b # a # as) @ bs)" using as(1) bs(1) disj by auto
    moreover have "{c. owner h' c = Some r} = {}" if "r \<noteq> q" using r that group by (auto simp: own h1(4))
    ultimately show "\<exists>cs. distinct cs \<and> set cs = {c. owner h' c = Some r} \<and> ring (nxt h') cs"
      using mr by (cases "r = q") (blast, metis distinct.simps(1) list.set(1) ring_single(2))
  next
    fix c assume "owner h' c = None"
    then have "owner h c = None" "c \<notin> set (a # as)" by (auto simp: own h1(4) split: if_splits)
    then show "nxt h' c = None"
      unfolding n using rings_unowned[OF assms(1)] l assms(3) by auto
  next
    fix c r assume "owner h c = Some r" "r \<notin> insert q (set_option (owner h a))"
    then have "c \<notin> set (a # as)" "c \<noteq> b" using group assms(3) n2 by (auto simp: assms(4))
    then show "nxt h' c = nxt h c" unfolding n using l by auto
  next
    fix c r assume "r \<notin> insert q (set_option (owner h a))"
    then show "owner h' c = Some r \<longleftrightarrow> owner h c = Some r" using group[of c] by (auto simp: own h1(4))
  qed
  then show ?thesis using eq al del h1(4,5) own group by (intro exI[of _ h']) auto
qed

section \<open>The specification: a map from pointers to objects\<close>

datatype smart_op = New "nat option" nat | Copy nat nat | Destroy nat | Assign nat nat | Reset "nat option" nat
  | Reset_All "nat option" nat | Reset_All_To nat nat

definition exec_op :: "smart_op \<Rightarrow> smart_heap \<Rightarrow> smart_heap res option" where
  "exec_op oper h = (case oper of
     New ptr a \<Rightarrow> Some (Inr (new_smart_ptr ptr a h))
   | Copy a b \<Rightarrow> copy_smart_ptr a b h
   | Destroy a \<Rightarrow> destroy_smart_ptr a h
   | Assign a b \<Rightarrow> assign a b h
   | Reset ptr a \<Rightarrow> reset ptr a h
   | Reset_All ptr a \<Rightarrow> reset_all ptr a h
   | Reset_All_To b a \<Rightarrow> reset_all_to b a h)"

text \<open>
  The state of the specification: what each living pointer owns, and the deleted objects. A pointer
  that leaves its object deletes it when no other one owns it.
\<close>

type_synonym shared = "(nat \<rightharpoonup> nat option) \<times> nat list"

definition abs_heap :: "smart_heap \<Rightarrow> shared" where
  "abs_heap h = (\<lambda>a. map_option sn_ptr (sh_nodes h a), sh_deleted h)"

definition leave :: "nat \<Rightarrow> shared \<Rightarrow> shared" where
  "leave a s = (case s of (m, d) \<Rightarrow>
     (m(a \<mapsto> None), case m a of Some (Some p) \<Rightarrow> if \<exists>b. b \<noteq> a \<and> m b = Some (Some p) then d else p # d | _ \<Rightarrow> d))"

definition leave_all :: "nat option \<Rightarrow> nat \<Rightarrow> shared \<Rightarrow> shared" where
  "leave_all ptr a s = (case s of (m, d) \<Rightarrow>
     (\<lambda>b. if b = a \<or> (\<exists>p. m a = Some (Some p) \<and> m b = Some (Some p)) then Some ptr else m b,
      case m a of Some (Some p) \<Rightarrow> p # d | _ \<Rightarrow> d))"

definition spec_op :: "smart_op \<Rightarrow> shared \<Rightarrow> shared" where
  "spec_op oper s = (case s of (m, d) \<Rightarrow> (case oper of
     New ptr a \<Rightarrow> (m(a \<mapsto> ptr), d)
   | Copy a b \<Rightarrow> (m(a \<mapsto> the (m b)), d)
   | Destroy a \<Rightarrow> apfst (\<lambda>m. m(a := None)) (leave a s)
   | Assign a b \<Rightarrow> apfst (\<lambda>m'. m'(a \<mapsto> (if a = b then None else the (m b)))) (leave a s)
   | Reset ptr a \<Rightarrow> apfst (\<lambda>m. m(a \<mapsto> ptr)) (leave a s)
   | Reset_All ptr a \<Rightarrow> leave_all ptr a s
   | Reset_All_To b a \<Rightarrow> leave_all (the (m b)) a s))"

text \<open>
  The uses that the class allows: pointers are alive (a new one takes an unused address), an object is
  given to a pointer only when it is new (\<open>objs\<close> are the objects so far), and the last operation is used
  between pointers of different objects.
\<close>

fun made :: "smart_op \<Rightarrow> nat set" where
  "made (New ptr a) = set_option ptr"
| "made (Reset ptr a) = set_option ptr"
| "made (Reset_All ptr a) = set_option ptr"
| "made _ = {}"

definition valid_op :: "nat set \<Rightarrow> smart_op \<Rightarrow> shared \<Rightarrow> bool" where
  "valid_op objs oper s \<longleftrightarrow> made oper \<inter> objs = {} \<and> (case s of (m, d) \<Rightarrow> (case oper of
     New ptr a \<Rightarrow> m a = None
   | Copy a b \<Rightarrow> m a = None \<and> m b \<noteq> None
   | Destroy a \<Rightarrow> m a \<noteq> None
   | Assign a b \<Rightarrow> m a \<noteq> None \<and> m b \<noteq> None
   | Reset ptr a \<Rightarrow> m a \<noteq> None
   | Reset_All ptr a \<Rightarrow> m a \<noteq> None
   | Reset_All_To b a \<Rightarrow> m a \<noteq> None \<and> (\<exists>q. m b = Some (Some q) \<and> m a \<noteq> Some (Some q))))"

inductive smart_run :: "nat set \<Rightarrow> smart_heap \<Rightarrow> bool" where
  start: "smart_run {} \<lparr>sh_nodes = Map.empty, sh_deleted = []\<rparr>"
| step: "smart_run objs h \<Longrightarrow> valid_op objs oper (abs_heap h) \<Longrightarrow> exec_op oper h = Some (Inr h') \<Longrightarrow>
    smart_run (objs \<union> made oper) h'"

definition shared_ok :: "nat set \<Rightarrow> shared \<Rightarrow> bool" where
  "shared_ok objs s \<longleftrightarrow> (case s of (m, d) \<Rightarrow> distinct d \<and> (\<forall>a p. m a = Some (Some p) \<longrightarrow> p \<in> objs) \<and>
     set d = {p \<in> objs. \<forall>a. m a \<noteq> Some (Some p)})"

lemma leave_ok: "shared_ok objs s \<Longrightarrow> shared_ok objs (leave a s)"
  by (cases s; auto simp: shared_ok_def leave_def split: option.splits; metis option.distinct(1) option.inject)

lemma point_ok:
  assumes "shared_ok objs (m, d)" "m a = None \<or> m a = Some None" "set_option ptr \<inter> objs = {}"
  shows "shared_ok (objs \<union> set_option ptr) (m(a \<mapsto> ptr), d)"
  using assms by (cases ptr; auto simp: shared_ok_def; metis option.distinct(1) option.inject)

lemma share_ok:
  assumes "shared_ok objs (m, d)" "m a = None \<or> m a = Some None" "m b = Some x"
  shows "shared_ok objs (m(a \<mapsto> x), d)"
  using assms by (cases x; auto simp: shared_ok_def split: if_splits; metis option.distinct(1) option.inject)

lemma leave_all_ok:
  assumes "shared_ok objs (m, d)" "m a \<noteq> None" "set_option ptr \<inter> objs = {} \<or> (\<exists>b q. ptr = Some q \<and> m b = Some (Some q) \<and> m a \<noteq> Some (Some q))"
  shows "shared_ok (objs \<union> set_option ptr) (leave_all ptr a (m, d))"
  using assms by (cases ptr; cases "m a"; cases "the (m a)"; auto simp: shared_ok_def leave_all_def split: if_splits; metis option.distinct(1) option.inject)

section \<open>The operations refine the specification\<close>

lemma abs_heap_eq: "abs_heap h = (\<lambda>a. if alive h a then Some (owner h a) else None, sh_deleted h)"
  by (auto simp: abs_heap_def alive_def owner_def fun_eq_iff)

lemma new_step:
  assumes "rings h R" "\<not> alive h a" "free_obj h ptr"
  shows "\<exists>R'. rings (new_smart_ptr ptr a h) R'" "owner (new_smart_ptr ptr a h) = (owner h)(a := ptr)"
    "alive (new_smart_ptr ptr a h) = (alive h)(a := True)" "sh_deleted (new_smart_ptr ptr a h) = sh_deleted h"
proof -
  let ?n = "new_smart_ptr None a h"
  have dead: "owner h a = None" "nxt h a = None" using assms(2) by (auto simp: alive_def owner_def nxt_def)
  have n: "owner ?n = owner h" "nxt ?n = nxt h" "alive ?n = (alive h)(a := True)"
    using dead by (auto simp: new_smart_ptr_def owner_def nxt_def alive_def fun_eq_iff)
  then have "rings ?n R" using assms(1) by (simp add: rings_def)
  moreover have "new_smart_ptr ptr a h = set_ptr a ptr ?n" by (simp add: new_smart_ptr_def set_ptr_def)
  ultimately show "\<exists>R'. rings (new_smart_ptr ptr a h) R'"
    using give_step[of ?n R a ptr] dead n assms(3) by (simp add: free_obj_def)
qed (auto simp: new_smart_ptr_def owner_def alive_def fun_eq_iff)

lemma destroy_step:
  assumes "rings h R" "owner h a = None"
  defines "h' \<equiv> h\<lparr>sh_nodes := (sh_nodes h)(a := None)\<rparr>"
  shows "rings h' R" "owner h' = owner h" "alive h' = (alive h)(a := False)" "sh_deleted h' = sh_deleted h"
proof -
  have "nxt h a = None" by (rule rings_unowned[OF assms(1,2)])
  then have n: "nxt h' = nxt h" by (auto simp: h'_def nxt_def fun_eq_iff)
  show own: "owner h' = owner h" "alive h' = (alive h)(a := False)" "sh_deleted h' = sh_deleted h"
    using assms(2) by (auto simp: h'_def owner_def alive_def fun_eq_iff)
  show "rings h' R" using assms(1) by (simp add: rings_def n own)
qed

text \<open>What \<open>release\<close> does to the specification's state.\<close>

lemma release_refines:
  assumes "rings h R" "alive h a"
  shows "\<exists>h' R'. release a h = Some (Inr h') \<and> rings h' R' \<and> alive h' = alive h \<and> owner h' = (owner h)(a := None) \<and>
    abs_heap h' = leave a (abs_heap h)"
proof -
  obtain h' R' where h': "release a h = Some (Inr h')" "rings h' R'" "owner h' = (owner h)(a := None)" "alive h' = alive h"
      "sh_deleted h' = (case owner h a of None \<Rightarrow> sh_deleted h
        | Some p \<Rightarrow> if \<exists>b. b \<noteq> a \<and> owner h b = Some p then sh_deleted h else p # sh_deleted h)"
    using release_step[OF assms] by (elim exE conjE) (rule that)
  have "(\<exists>b. b \<noteq> a \<and> owner h b = Some p) \<longleftrightarrow> (\<exists>b. b \<noteq> a \<and> alive h b \<and> owner h b = Some p)" for p
    using owner_alive by blast
  then have "abs_heap h' = leave a (abs_heap h)"
    using assms(2) h'(3-5) by (auto simp: abs_heap_eq leave_def fun_eq_iff split: option.split)
  then show ?thesis using h' by blast
qed

lemma assign_refines:
  assumes "rings h R" "alive h a" "alive h b"
  shows "\<exists>h' R'. assign a b h = Some (Inr h') \<and> rings h' R' \<and>
    abs_heap h' = apfst (\<lambda>m. m(a \<mapsto> (if a = b then None else owner h b))) (leave a (abs_heap h))"
proof -
  obtain h' R' where h': "assign a b h = Some (Inr h')" "rings h' R'" "alive h' = alive h"
      "owner h' = (owner h)(a := (if a = b then None else owner h b))"
      "sh_deleted h' = (case owner h a of None \<Rightarrow> sh_deleted h
        | Some p \<Rightarrow> if \<exists>b. b \<noteq> a \<and> owner h b = Some p then sh_deleted h else p # sh_deleted h)"
    using assign_step[OF assms] by (elim exE conjE) (rule that)
  obtain h1 R1 where h1: "rings h1 R1" "alive h1 = alive h" "owner h1 = (owner h)(a := None)"
      "abs_heap h1 = leave a (abs_heap h)" "release a h = Some (Inr h1)"
    using release_refines[OF assms(1,2)] by (elim exE conjE) (rule that)
  have "sh_deleted h1 = sh_deleted h'" using release_step[OF assms(1,2)] h1(5) h'(5) by auto
  then have "snd (leave a (abs_heap h)) = sh_deleted h'" unfolding h1(4)[symmetric] by (simp add: abs_heap_eq)
  moreover have "fst (leave a (abs_heap h)) = (\<lambda>c. if alive h c then Some (owner h1 c) else None)"
    unfolding h1(4)[symmetric] by (simp add: abs_heap_eq h1(2))
  ultimately have "abs_heap h' = apfst (\<lambda>m. m(a \<mapsto> (if a = b then None else owner h b))) (leave a (abs_heap h))"
    using assms(2) h'(3,4) h1(3) by (auto simp: prod_eq_iff abs_heap_eq fun_eq_iff)
  then show ?thesis using h' by blast
qed

lemma leave_all_refines:
  assumes "alive h a" "alive h' = alive h"
    and "owner h' = (\<lambda>b. if b = a \<or> owner h a \<noteq> None \<and> owner h b = owner h a then ptr else owner h b)"
    and "sh_deleted h' = (case owner h a of None \<Rightarrow> sh_deleted h | Some p \<Rightarrow> p # sh_deleted h)"
  shows "abs_heap h' = leave_all ptr a (abs_heap h)"
proof -
  have "b = a \<or> owner h a \<noteq> None \<and> owner h b = owner h a \<longleftrightarrow> b = a \<or> (\<exists>p. owner h a = Some p \<and> alive h b \<and> owner h b = Some p)"
    for b by (auto simp: owner_alive)
  then show ?thesis
    using assms by (auto simp: abs_heap_eq leave_all_def fun_eq_iff split: option.split)
qed

lemma copy_refines:
  assumes "rings h R" "\<not> alive h a" "alive h b"
  shows "\<exists>h' R'. copy_smart_ptr a b h = Some (Inr h') \<and> rings h' R' \<and>
    abs_heap h' = apfst (\<lambda>m. m(a \<mapsto> owner h b)) (abs_heap h)"
proof -
  let ?n = "new_smart_ptr None a h"
  have f: "free_obj h None" by (simp add: free_obj_def)
  obtain R1 where R1: "rings ?n R1" using new_step(1)[OF assms(1,2) f] by (elim exE)
  note n = new_step(2-4)[OF assms(1,2) f]
  have "alive ?n a" "alive ?n b" using assms(3) n by simp_all
  from assign_refines[OF R1 this] obtain h' R' where h': "assign a b ?n = Some (Inr h')" "rings h' R'"
    "abs_heap h' = apfst (\<lambda>m. m(a \<mapsto> (if a = b then None else owner ?n b))) (leave a (abs_heap ?n))"
    by (elim exE conjE) (rule that)
  have "abs_heap h' = apfst (\<lambda>m. m(a \<mapsto> owner h b)) (abs_heap h)"
    unfolding h'(3) using assms(2,3) n by (auto simp: abs_heap_eq leave_def fun_eq_iff)
  then show ?thesis using h'(1,2) by (auto simp: copy_smart_ptr_def)
qed

lemma destroy_refines:
  assumes "rings h R" "alive h a"
  shows "\<exists>h' R'. destroy_smart_ptr a h = Some (Inr h') \<and> rings h' R' \<and>
    abs_heap h' = apfst (\<lambda>m. m(a := None)) (leave a (abs_heap h))"
proof -
  obtain h1 R1 where h1: "release a h = Some (Inr h1)" "rings h1 R1" "alive h1 = alive h" "owner h1 = (owner h)(a := None)"
      "abs_heap h1 = leave a (abs_heap h)"
    using release_refines[OF assms] by (elim exE conjE) (rule that)
  have "owner h1 a = None" using h1(4) by simp
  note d = destroy_step[OF h1(2) this]
  have "abs_heap (h1\<lparr>sh_nodes := (sh_nodes h1)(a := None)\<rparr>) = apfst (\<lambda>m. m(a := None)) (leave a (abs_heap h))"
    unfolding h1(5)[symmetric] unfolding abs_heap_eq d by (auto simp: fun_eq_iff)
  then show ?thesis using h1(1) d(1) by (auto simp: destroy_smart_ptr_def)
qed

lemma reset_refines:
  assumes "rings h R" "alive h a" "free_obj h ptr"
  shows "\<exists>h' R'. reset ptr a h = Some (Inr h') \<and> rings h' R' \<and>
    abs_heap h' = apfst (\<lambda>m. m(a \<mapsto> ptr)) (leave a (abs_heap h))"
proof -
  obtain h1 R1 where h1: "release a h = Some (Inr h1)" "rings h1 R1" "alive h1 = alive h" "owner h1 = (owner h)(a := None)"
      "abs_heap h1 = leave a (abs_heap h)"
    using release_refines[OF assms(1,2)] by (elim exE conjE) (rule that)
  have "owner h1 a = None" "alive h1 a" "free_obj h1 ptr" using assms(2,3) h1(3,4) by (auto simp: free_obj_def)
  from give_step[OF h1(2) this] obtain R' where "rings (set_ptr a ptr h1) R'" by (elim exE)
  moreover have "abs_heap (set_ptr a ptr h1) = apfst (\<lambda>m. m(a \<mapsto> ptr)) (leave a (abs_heap h))"
    unfolding h1(5)[symmetric] using assms(2) h1(3) by (auto simp: abs_heap_eq set_fields fun_eq_iff)
  ultimately show ?thesis using h1(1,3) assms(2) by (auto simp: reset_def modify_alive)
qed

definition heap_ok :: "nat set \<Rightarrow> smart_heap \<Rightarrow> bool" where
  "heap_ok objs h \<longleftrightarrow> (\<exists>R. rings h R) \<and> shared_ok objs (abs_heap h)"

lemma heap_ok_free:
  assumes "heap_ok objs h" "set_option ptr \<inter> objs = {}"
  shows "free_obj h ptr"
proof -
  have "p \<in> objs" if "owner h a = Some p" for a p
  proof -
    have "fst (abs_heap h) a = Some (Some p)" using that owner_alive[OF that] by (simp add: abs_heap_eq)
    then show ?thesis using assms(1) by (auto simp: heap_ok_def shared_ok_def split: prod.splits)
  qed
  then show ?thesis using assms(2) by (auto simp: free_obj_def)
qed

lemma exec_refines:
  assumes "heap_ok objs h" "valid_op objs oper (abs_heap h)"
  shows "\<exists>h' R'. exec_op oper h = Some (Inr h') \<and> rings h' R' \<and> abs_heap h' = spec_op oper (abs_heap h)"
proof -
  obtain R where R: "rings h R" using assms(1) by (auto simp: heap_ok_def)
  note v = assms(2)[unfolded valid_op_def abs_heap_eq, simplified] and free = heap_ok_free[OF assms(1)]
  show ?thesis
  proof (cases oper)
    case (New ptr a)
    then have a: "\<not> alive h a" "free_obj h ptr" using v free by (auto split: if_splits)
    then show ?thesis
      using new_step[OF R a] New by (auto simp: exec_op_def spec_op_def abs_heap_eq fun_eq_iff)
  next
    case (Copy a b)
    then have ab: "\<not> alive h a" "alive h b" using v by (auto split: if_splits)
    then show ?thesis using copy_refines[OF R ab] Copy by (auto simp: exec_op_def spec_op_def abs_heap_eq)
  next
    case (Destroy a)
    then have a: "alive h a" using v by (auto split: if_splits)
    then show ?thesis
      using destroy_refines[OF R a] Destroy by (auto simp: exec_op_def spec_op_def split: prod.split)
  next
    case (Assign a b)
    then have ab: "alive h a" "alive h b" using v by (auto split: if_splits)
    then show ?thesis using assign_refines[OF R ab] Assign by (auto simp: exec_op_def spec_op_def abs_heap_eq)
  next
    case (Reset ptr a)
    then have a: "alive h a" "free_obj h ptr" using v free by (auto split: if_splits)
    then show ?thesis
      using reset_refines[OF R a] Reset by (auto simp: exec_op_def spec_op_def split: prod.split)
  next
    case (Reset_All ptr a)
    then have a: "alive h a" "free_obj h ptr" using v free by (auto split: if_splits)
    show ?thesis
      using reset_all_step[OF R a] leave_all_refines[OF a(1)] Reset_All
      by (auto simp: exec_op_def spec_op_def split: prod.split)
  next
    case (Reset_All_To b a)
    then obtain q where a: "alive h a" "owner h b = Some q" "owner h a \<noteq> Some q"
      using v by (auto split: if_splits)
    show ?thesis
      using reset_all_to_step[OF R a] leave_all_refines[OF a(1), of _ "Some q"] Reset_All_To owner_alive[OF a(2)] a(2)
      by (auto simp: exec_op_def spec_op_def abs_heap_eq)
  qed
qed

lemma forget_ok: "shared_ok objs (m, d) \<Longrightarrow> m a = Some None \<Longrightarrow> shared_ok objs (m(a := None), d)"
  by (auto simp: shared_ok_def; metis option.distinct(1) option.inject)

lemma left_ok:
  assumes "shared_ok objs (m, d)"
  obtains d' where "leave a (m, d) = (m(a \<mapsto> None), d')" "shared_ok objs (m(a \<mapsto> None), d')"
  using leave_ok[OF assms, of a] by (simp add: leave_def)

lemma spec_ok:
  assumes "shared_ok objs (m, d)" "valid_op objs oper (m, d)"
  shows "shared_ok (objs \<union> made oper) (spec_op oper (m, d))"
proof (cases oper)
  case (New ptr a)
  then show ?thesis using assms(2) point_ok[OF assms(1)] by (auto simp: valid_op_def spec_op_def)
next
  case (Copy a b)
  then obtain x where "m a = None" "m b = Some x" using assms(2) by (auto simp: valid_op_def)
  then show ?thesis using share_ok[OF assms(1), of a b x] Copy by (simp add: spec_op_def)
next
  case (Destroy a)
  obtain d' where "leave a (m, d) = (m(a \<mapsto> None), d')" "shared_ok objs (m(a \<mapsto> None), d')"
    by (rule left_ok[OF assms(1)])
  then show ?thesis using forget_ok[of objs "m(a \<mapsto> None)" d' a] Destroy by (simp add: spec_op_def)
next
  case (Assign a b)
  then obtain x where x: "m b = Some x" using assms(2) by (auto simp: valid_op_def)
  obtain d' where d': "leave a (m, d) = (m(a \<mapsto> None), d')" "shared_ok objs (m(a \<mapsto> None), d')"
    by (rule left_ok[OF assms(1)])
  show ?thesis
    using share_ok[OF d'(2), of a b "if a = b then None else x"] x d' Assign
    by (cases "a = b") (simp_all add: spec_op_def)
next
  case (Reset ptr a)
  obtain d' where d': "leave a (m, d) = (m(a \<mapsto> None), d')" "shared_ok objs (m(a \<mapsto> None), d')"
    by (rule left_ok[OF assms(1)])
  show ?thesis using point_ok[OF d'(2), of a ptr] d'(1) assms(2) Reset by (simp add: spec_op_def valid_op_def)
next
  case (Reset_All ptr a)
  then show ?thesis using leave_all_ok[OF assms(1), of a ptr] assms(2) by (simp add: spec_op_def valid_op_def)
next
  case (Reset_All_To b a)
  then obtain q where q: "m a \<noteq> None" "m b = Some (Some q)" "m a \<noteq> Some (Some q)"
    using assms(2) by (auto simp: valid_op_def)
  have "q \<in> objs" using assms(1) q(2) by (auto simp: shared_ok_def)
  then show ?thesis using leave_all_ok[OF assms(1) q(1), of "Some q"] q Reset_All_To by (auto simp: spec_op_def insert_absorb)
qed

lemma smart_run_ok: "smart_run objs h \<Longrightarrow> heap_ok objs h"
proof (induction rule: smart_run.induct)
  case start
  have "rings \<lparr>sh_nodes = Map.empty, sh_deleted = []\<rparr> (\<lambda>_. [])"
    by (simp add: rings_def owner_def nxt_def)
  then show ?case by (auto simp: heap_ok_def shared_ok_def abs_heap_def)
next
  case (step objs h oper h')
  obtain R' where "rings h' R'" "abs_heap h' = spec_op oper (abs_heap h)"
    using exec_refines[OF step.IH step.hyps(2)] step.hyps(3) by auto
  then show ?case
    using spec_ok[of objs "fst (abs_heap h)" "snd (abs_heap h)" oper] step.IH step.hyps(2) by (auto simp: heap_ok_def)
qed

text \<open>
  C39. The shared pointers refine a map from pointers to objects: after any sequence of valid uses, a further
  one returns (its loops over the ring end), without following a dangling pointer, and changes owners
  and deletions as the map does, in which a pointer that leaves an object deletes it if it was the last.
\<close>

theorem smart_ptr_refines:
  assumes "smart_run objs h" "valid_op objs oper (abs_heap h)"
  shows "\<exists>h'. exec_op oper h = Some (Inr h') \<and> abs_heap h' = spec_op oper (abs_heap h)"
  using exec_refines[OF smart_run_ok[OF assms(1)] assms(2)] by blast

text \<open>
  C40. No object is deleted twice, none is lost and none is deleted under an owner: after any sequence of
  valid uses the deleted objects are, each once, those that no pointer owns, and \<open>use_count\<close> is
  the number of the owners.
\<close>

theorem deleted_with_last_owner:
  assumes "smart_run objs h"
  shows "distinct (sh_deleted h) \<and> set (sh_deleted h) = {p \<in> objs. \<forall>a. owner h a \<noteq> Some p} \<and>
    (\<forall>a. alive h a \<longrightarrow> use_count a h =
      Some (Inr (case owner h a of None \<Rightarrow> 0 | Some p \<Rightarrow> of_nat (card {b. owner h b = Some p}))))"
proof -
  have ok: "heap_ok objs h" by (rule smart_run_ok[OF assms])
  then obtain R where R: "rings h R" by (auto simp: heap_ok_def)
  have "fst (abs_heap h) a = Some (Some p) \<longleftrightarrow> owner h a = Some p" for a p
    by (auto simp: abs_heap_eq owner_alive)
  then have "distinct (sh_deleted h)" "set (sh_deleted h) = {p \<in> objs. \<forall>a. owner h a \<noteq> Some p}"
    using ok by (simp_all add: heap_ok_def shared_ok_def split_def abs_heap_def)
  then show ?thesis using use_count_owners[OF R] by blast
qed

text \<open>An object with two pointers, and what the destruction of one of them and an assignment to itself do.\<close>

definition sample_heap :: smart_heap where
  "sample_heap = \<lparr>sh_nodes = [0 \<mapsto> \<lparr>sn_ptr = Some 7, sn_next = Some 1\<rparr>, 1 \<mapsto> \<lparr>sn_ptr = Some 7, sn_next = Some 0\<rparr>], sh_deleted = []\<rparr>"

lemma sample_heap_run: "smart_run {7} sample_heap"
proof -
  let ?h0 = "\<lparr>sh_nodes = Map.empty, sh_deleted = []\<rparr> :: smart_heap" and ?h1 = "new_smart_ptr (Some 7) 0 \<lparr>sh_nodes = Map.empty, sh_deleted = []\<rparr>"
  have "smart_run ({} \<union> made (New (Some 7) 0)) ?h1"
    by (rule smart_run.step[OF smart_run.start]) (simp_all add: valid_op_def abs_heap_def exec_op_def)
  then have "smart_run {7} ?h1" by simp
  then have "smart_run ({7} \<union> made (Copy 1 0)) sample_heap"
    by (rule smart_run.step)
      (simp_all add: valid_op_def abs_heap_def exec_op_def copy_smart_ptr_def new_smart_ptr_def assign_def release_def
        node_def modify_node_def deref_def sample_heap_def fun_upd_twist)
  then show ?thesis by simp
qed

theorem smart_ptr_refines_witness:
  "\<exists>h'. exec_op (Destroy 0) sample_heap = Some (Inr h') \<and> abs_heap h' = spec_op (Destroy 0) (abs_heap sample_heap)"
  by (rule smart_ptr_refines[OF sample_heap_run]) (simp add: valid_op_def abs_heap_def sample_heap_def)

theorem deleted_with_last_owner_witness:
  "sh_deleted sample_heap = [] \<and> use_count 0 sample_heap = Some (Inr 2)"
proof -
  have "{b. owner sample_heap b = Some 7} = {0, 1}" by (auto simp: owner_def sample_heap_def split: if_splits)
  then show ?thesis
    using deleted_with_last_owner[OF sample_heap_run, THEN conjunct2, THEN conjunct2, rule_format, of 0]
    by (simp add: alive_def owner_def sample_heap_def)
qed

text \<open>
  Two uses that the class does not guard against: assigning the only owner to itself deletes the object, and
  \<open>reset_all\<close> between two pointers of the same object deletes it although both still own it.
\<close>

lemma self_assignment_deletes:
  assumes "smart_run objs h" "owner h a = Some p" "\<forall>b. b \<noteq> a \<longrightarrow> owner h b \<noteq> Some p"
  shows "\<exists>h'. assign a a h = Some (Inr h') \<and> sh_deleted h' = p # sh_deleted h \<and> owner h' a = None"
proof -
  obtain R where R: "rings h R" using smart_run_ok[OF assms(1)] by (auto simp: heap_ok_def)
  have a: "alive h a" by (rule owner_alive[OF assms(2)])
  from assign_step[OF R a a] assms(2,3) show ?thesis by auto
qed

lemma reset_all_same_object:
  "\<exists>h'. reset_all_to 1 0 sample_heap = Some (Inr h') \<and> owner h' 0 = Some 7 \<and> owner h' 1 = Some 7 \<and> sh_deleted h' = [7]"
  by (simp add: reset_all_to_def reset_all_def sample_heap_def node_def modify_node_def deref_def set_ring.simps
      find_prev.simps delete_obj_def owner_def Let_def)

section \<open>Pointers with a counter\<close>

text \<open>
  \<open>refcounted_ptr\<close>: the managed objects carry a counter and delete themselves when it reaches 0; following a
  pointer to a deleted one is an error. A pointer that is not alive has no entry.
\<close>

record counted_heap =
  ch_ptrs :: "nat \<rightharpoonup> nat option"
  ch_count :: "nat \<rightharpoonup> int"
  ch_fresh :: nat

definition acquire :: "nat \<Rightarrow> counted_heap \<Rightarrow> counted_heap res" where
  "acquire obj h = bindR (deref (ch_count h) obj) (\<lambda>c. Inr (h\<lparr>ch_count := (ch_count h)(obj \<mapsto> c + 1)\<rparr>))"

definition refcounted_release :: "nat \<Rightarrow> counted_heap \<Rightarrow> counted_heap res" where
  "refcounted_release obj h =
     bindR (deref (ch_count h) obj) (\<lambda>c. assertR (c > 0)
       (Inr (h\<lparr>ch_count := (ch_count h)(obj := (if c - 1 = 0 then None else Some (c - 1)))\<rparr>)))"

definition if_ptr :: "nat option \<Rightarrow> (nat \<Rightarrow> counted_heap \<Rightarrow> counted_heap res) \<Rightarrow> counted_heap \<Rightarrow> counted_heap res" where
  "if_ptr ptr f h = (case ptr of None \<Rightarrow> Inr h | Some obj \<Rightarrow> f obj h)"

definition new_refcounted_ptr :: "nat \<Rightarrow> counted_heap \<Rightarrow> counted_heap" where
  "new_refcounted_ptr this h = h\<lparr>ch_ptrs := (ch_ptrs h)(this \<mapsto> None)\<rparr>"

text \<open>\<open>make\<close>: \<open>new managed_obj_t\<close> starts at 0 and is acquired once.\<close>

definition make_refcounted_ptr :: "nat \<Rightarrow> counted_heap \<Rightarrow> counted_heap res" where
  "make_refcounted_ptr this h =
     (let obj = ch_fresh h;
          h = h\<lparr>ch_ptrs := (ch_ptrs h)(this \<mapsto> Some obj), ch_count := (ch_count h)(obj \<mapsto> 0), ch_fresh := obj + 1\<rparr>
      in acquire obj h)"

definition copy_assign :: "nat \<Rightarrow> nat \<Rightarrow> counted_heap \<Rightarrow> counted_heap res" where
  "copy_assign this other h =
     bindR (deref (ch_ptrs h) other) (\<lambda>op.
     bindR (deref (ch_ptrs h) this) (\<lambda>tp.
     bindR (if_ptr op acquire h) (\<lambda>h.
     bindR (if_ptr tp refcounted_release h) (\<lambda>h.
       Inr (h\<lparr>ch_ptrs := (ch_ptrs h)(this \<mapsto> op)\<rparr>)))))"

text \<open>The statement \<open>other.ptr_ == nullptr\<close> compares and does not assign.\<close>

definition move_assign :: "nat \<Rightarrow> nat \<Rightarrow> counted_heap \<Rightarrow> counted_heap res" where
  "move_assign this other h =
     bindR (deref (ch_ptrs h) other) (\<lambda>op. Inr (h\<lparr>ch_ptrs := (ch_ptrs h)(this \<mapsto> op)\<rparr>))"

definition destroy_refcounted_ptr :: "nat \<Rightarrow> counted_heap \<Rightarrow> counted_heap res" where
  "destroy_refcounted_ptr this h =
     bindR (deref (ch_ptrs h) this) (\<lambda>tp.
     bindR (if_ptr tp refcounted_release h) (\<lambda>h. Inr (h\<lparr>ch_ptrs := (ch_ptrs h)(this := None)\<rparr>)))"

definition refcounted_use_count :: "nat \<Rightarrow> counted_heap \<Rightarrow> u32 res" where
  "refcounted_use_count this h =
     bindR (deref (ch_ptrs h) this) (\<lambda>tp. case tp of
         None \<Rightarrow> Inr 0
       | Some obj \<Rightarrow> bindR (deref (ch_count h) obj) (\<lambda>c. Inr (word_of_int c)))"

text \<open>
  A pointer that was moved from keeps its object, while the move does not count the new owner: the
  destruction of both follows a pointer to a deleted object. A copy is counted.
\<close>

lemma move_assign_double_release:
  fixes h :: counted_heap
  assumes "make_refcounted_ptr 0 h0 = Inr h" "h1 = new_refcounted_ptr 1 h"
  shows "bindR (move_assign 1 0 h1) (\<lambda>h. bindR (destroy_refcounted_ptr 1 h) (destroy_refcounted_ptr 0)) = Inl Null_Deref"
    and "\<exists>h2. bindR (copy_assign 1 0 h1) (\<lambda>h. bindR (destroy_refcounted_ptr 1 h) (destroy_refcounted_ptr 0)) = Inr h2"
    and "bindR (copy_assign 1 0 h1) (refcounted_use_count 0) = Inr 2"
  using assms
  by (auto simp: make_refcounted_ptr_def new_refcounted_ptr_def move_assign_def copy_assign_def destroy_refcounted_ptr_def
      refcounted_use_count_def acquire_def refcounted_release_def if_ptr_def deref_def assertR_def Let_def)

end
