(* ===== verification/String_Utils.thy ===== *)
theory String_Utils
  imports Sim_Prelude
begin

text \<open>
  The string helpers of common/string_utils.cpp and the small classes of common/string_utils.h that go with
  them: splitting, identifiers made from names and from (demangled) type names, digits, the stream buffer that
  indents lines, separators, and the tracker of duplicates.
\<close>

section \<open>Splitting\<close>

text \<open>\<open>find\<close> from a position on; \<open>None\<close> is \<open>npos\<close>.\<close>

definition find_from :: "(char \<Rightarrow> bool) \<Rightarrow> string \<Rightarrow> nat \<Rightarrow> nat option" where
  "find_from P str pos = List.find (\<lambda>i. P (str ! i)) [pos..<length str]"

definition substr :: "nat \<Rightarrow> nat \<Rightarrow> string \<Rightarrow> string" where
  "substr pos n str = take n (drop pos str)"

lemma find_from_bounds: "find_from P str pos = Some i \<Longrightarrow> pos \<le> i \<and> i < length str \<and> P (str ! i)"
  by (auto simp: find_from_def find_Some_iff)

function split_loop :: "string \<Rightarrow> char \<Rightarrow> nat \<Rightarrow> string list \<Rightarrow> string list" where
  "split_loop str delimiter pos out =
     (if pos < length str then
        case find_from (\<lambda>c. c = delimiter) str pos of
          None \<Rightarrow> out @ [drop pos str]
        | Some index \<Rightarrow> split_loop str delimiter (index + 1) (out @ [substr pos (index - pos) str])
      else out @ [drop pos str])"
  by pat_completeness auto
termination
  by (relation "measure (\<lambda>(str, delimiter, pos, out). length str - pos)") (auto dest: find_from_bounds)

declare split_loop.simps [simp del]

definition split_string :: "string \<Rightarrow> char \<Rightarrow> string list" where
  "split_string str delimiter = split_loop str delimiter 0 []"

section \<open>Identifiers\<close>

definition isalnum :: "char \<Rightarrow> bool" where
  "isalnum c = (let n = of_char c :: nat in 48 \<le> n \<and> n \<le> 57 \<or> 65 \<le> n \<and> n \<le> 90 \<or> 97 \<le> n \<and> n \<le> 122)"

definition identifier_from_string :: "string \<Rightarrow> string" where
  "identifier_from_string name =
     map (\<lambda>x. if \<not> isalnum x \<and> x \<noteq> CHR ''_'' then CHR ''_'' else x) name"

text \<open>\<open>find_last_of\<close> up to and with a position; \<open>None\<close> is \<open>npos\<close>, also for the position.\<close>

definition find_last_of :: "char \<Rightarrow> string \<Rightarrow> nat option \<Rightarrow> nat option" where
  "find_last_of c str pos =
     (let n = (case pos of None \<Rightarrow> length str | Some p \<Rightarrow> min (Suc p) (length str))
      in List.find (\<lambda>i. str ! i = c) (rev [0..<n]))"

text \<open>The loop over the template arguments; \<open>ss\<close> is what the stream has.\<close>

function arguments_loop :: "string \<Rightarrow> nat \<Rightarrow> string \<Rightarrow> string" where
  "arguments_loop dt start ss =
     (case find_from (\<lambda>c. c \<in> set '' ,:<>'') dt start of
        None \<Rightarrow> ss
      | Some pos \<Rightarrow>
          arguments_loop dt (pos + 1)
            (if dt ! pos \<noteq> CHR '':'' \<and> pos \<noteq> start then ss @ ''_'' @ substr start (pos - start) dt else ss))"
  by pat_completeness auto
termination
  by (relation "measure (\<lambda>(dt, start, ss). length dt - start)") (auto dest: find_from_bounds)

declare arguments_loop.simps [simp del]

text \<open>\<open>dt\<close> is the demangled name, which a library function gives.\<close>

definition identifier_from_typeid :: "string \<Rightarrow> bool \<Rightarrow> string" where
  "identifier_from_typeid dt no_args =
     (let name_e = find_from (\<lambda>c. c = CHR ''<'') dt 0;
          name_s = (case find_last_of (CHR '':'') dt name_e of None \<Rightarrow> 0 | Some i \<Rightarrow> i + 1);
          ret = (case name_e of None \<Rightarrow> drop name_s dt | Some e \<Rightarrow> substr name_s (e - name_s) dt)
      in (case name_e of
            None \<Rightarrow> ret
          | Some e \<Rightarrow> if no_args then ret else ret @ arguments_loop dt (e + 1) []))"

section \<open>Digits\<close>

text \<open>An unknown base and a character that is no digit of the base throw.\<close>

definition char2int :: "char \<Rightarrow> nat \<Rightarrow> int res" where
  "char2int x base =
     (let n = int (of_char x) in
      if base = 2 then (if 48 \<le> n \<and> n \<le> 49 then Inr (n - 48) else Inl Invalid_Argument)
      else if base = 8 then (if 48 \<le> n \<and> n \<le> 55 then Inr (n - 48) else Inl Invalid_Argument)
      else if base = 16 then
        (if 48 \<le> n \<and> n \<le> 57 then Inr (n - 48)
         else if 65 \<le> n \<and> n \<le> 70 then Inr (n - 65 + 10)
         else if 97 \<le> n \<and> n \<le> 102 then Inr (n - 97 + 10)
         else Inl Invalid_Argument)
      else Inl Invalid_Argument)"

section \<open>Streams\<close>

text \<open>The buffer that indents the lines written through it; \<open>ai_out\<close> is what reached the stream.\<close>

record auto_indent =
  ai_indent :: int
  ai_add_indent :: bool
  ai_out :: string

definition new_auto_indent :: "int \<Rightarrow> string \<Rightarrow> auto_indent" where
  "new_auto_indent indent out = \<lparr>ai_indent = indent, ai_add_indent = True, ai_out = out\<rparr>"

definition push_indent :: "auto_indent \<Rightarrow> auto_indent res" where
  "push_indent b = failR (ai_indent b * 2 < - (2 ^ 31) \<or> ai_indent b * 2 \<ge> 2 ^ 31) Signed_Overflow
     (Inr (b\<lparr>ai_indent := ai_indent b * 2\<rparr>))"

definition pop_indent :: "auto_indent \<Rightarrow> auto_indent res" where
  "pop_indent b = assertR (ai_indent b > 0) (Inr (b\<lparr>ai_indent := ai_indent b div 2\<rparr>))"

text \<open>The loop \<open>for (int n = indent_; n--;)\<close> runs \<open>indent_\<close> times; a negative one never stops before it overflows.\<close>

definition overflow :: "char \<Rightarrow> auto_indent \<Rightarrow> auto_indent res" where
  "overflow ch b =
     (let newline = CHR 0x0A;
          ind = ai_add_indent b \<and> ch \<noteq> newline
      in failR (ind \<and> ai_indent b < 0) Signed_Overflow
        (Inr (b\<lparr>ai_add_indent := (ch = newline),
                 ai_out := ai_out b @ (if ind then replicate (nat (ai_indent b)) (CHR '' '') else []) @ [ch]\<rparr>)))"

text \<open>\<open>data\<close> of a separator: nothing the first time, the separator from then on.\<close>

definition separator_data :: "string \<times> bool \<Rightarrow> string \<times> (string \<times> bool)" where
  "separator_data s = (case s of (sep, enabled) \<Rightarrow> (if enabled then sep else [], (sep, True)))"

section \<open>Other helpers\<close>

text \<open>\<open>operator[]\<close> makes a missing entry 0; \<open>insert\<close> returns the number of earlier insertions.\<close>

definition dup_insert :: "'k \<Rightarrow> ('k \<rightharpoonup> u64) \<Rightarrow> u64 \<times> ('k \<rightharpoonup> u64)" where
  "dup_insert obj m = (let n = (case m obj of None \<Rightarrow> 0 | Some n \<Rightarrow> n) in (n, m(obj \<mapsto> n + 1)))"

definition dup_count :: "'k \<Rightarrow> ('k \<rightharpoonup> u64) \<Rightarrow> u64" where
  "dup_count obj m = (case m obj of None \<Rightarrow> 0 | Some n \<Rightarrow> n)"

definition dup_exists :: "'k \<Rightarrow> ('k \<rightharpoonup> u64) \<Rightarrow> bool" where
  "dup_exists obj m = (m obj \<noteq> None)"

fun find_distance_from :: "int \<Rightarrow> 'a list \<Rightarrow> 'a \<Rightarrow> int" where
  "find_distance_from index [] v = -1"
| "find_distance_from index (x # xs) v = (if x = v then index else find_distance_from (index + 1) xs v)"

definition find_distance :: "'a list \<Rightarrow> 'a \<Rightarrow> int" where
  "find_distance xs v = find_distance_from 0 xs v"

definition hash_combine :: "u64 \<Rightarrow> u64 \<Rightarrow> u64" where
  "hash_combine hash1 hash2 = hash1 XOR (hash2 * 0x9e3779b9 + push_bit 6 hash1 + drop_bit 2 hash1)"

section \<open>What they compute\<close>

definition join_strings :: "char \<Rightarrow> string list \<Rightarrow> string" where
  "join_strings c ss = (case ss of [] \<Rightarrow> [] | s # ss \<Rightarrow> s @ concat (map (\<lambda>t. c # t) ss))"

lemma find_from_None: "find_from P str pos = None \<Longrightarrow> \<forall>c \<in> set (drop pos str). \<not> P c"
  by (auto simp: find_from_def find_None_iff in_set_conv_nth)

lemma find_from_first: "find_from P str pos = Some i \<Longrightarrow> \<forall>c \<in> set (substr pos (i - pos) str). \<not> P c"
  by (auto simp: find_from_def find_Some_iff substr_def in_set_conv_nth)

lemma split_at: "find_from P str pos = Some i \<Longrightarrow> drop pos str = substr pos (i - pos) str @ str ! i # drop (i + 1) str"
  using find_from_bounds[of P str pos i]
  by (auto simp: substr_def Cons_nth_drop_Suc dest: less_imp_add_positive intro: append_take_drop_id[of "i - pos" "drop pos str", symmetric, THEN trans])

lemma split_loop_parts:
  "pos \<le> length str \<Longrightarrow> \<exists>ss. split_loop str d pos out = out @ ss \<and> ss \<noteq> [] \<and> join_strings d ss = drop pos str \<and>
     (\<forall>s \<in> set ss. d \<notin> set s)"
proof (induction str d pos out rule: split_loop.induct)
  case (1 str d pos out)
  show ?case
  proof (cases "pos < length str \<and> find_from (\<lambda>c. c = d) str pos \<noteq> None")
    case True
    then obtain i where i: "find_from (\<lambda>c. c = d) str pos = Some i" by auto
    note b = find_from_bounds[OF i]
    obtain ss where ss: "split_loop str d (i + 1) (out @ [substr pos (i - pos) str]) = (out @ [substr pos (i - pos) str]) @ ss"
        "ss \<noteq> []" "join_strings d ss = drop (i + 1) str" "\<forall>s \<in> set ss. d \<notin> set s"
      using 1(1)[OF _ i] True b by (auto simp: Suc_le_eq)
    have "split_loop str d pos out = out @ substr pos (i - pos) str # ss"
      using True i ss(1) by (subst split_loop.simps) simp
    moreover have "join_strings d (substr pos (i - pos) str # ss) = drop pos str"
      using ss(2,3) split_at[OF i] b by (cases ss) (simp_all add: join_strings_def)
    ultimately show ?thesis using ss(4) find_from_first[OF i] by (intro exI[of _ "substr pos (i - pos) str # ss"]) auto
  next
    case False
    then have "split_loop str d pos out = out @ [drop pos str]"
      by (subst split_loop.simps) (auto split: option.split)
    moreover have "d \<notin> set (drop pos str)" using False 1(2) find_from_None[of "\<lambda>c. c = d" str pos] by auto
    ultimately show ?thesis by (intro exI[of _ "[drop pos str]"]) (simp add: join_strings_def)
  qed
qed

text \<open>Joining what \<open>split\<close> gives restores the string, and no piece has the delimiter.\<close>

lemma split_join:
  "split_string str d \<noteq> []" "join_strings d (split_string str d) = str" "\<forall>s \<in> set (split_string str d). d \<notin> set s"
  using split_loop_parts[of 0 str d "[]"] by (auto simp: split_string_def)

text \<open>An identifier has the length of the name and only letters, digits and underscores; identifiers stay.\<close>

lemma identifier_chars:
  "\<forall>c \<in> set (identifier_from_string name). isalnum c \<or> c = CHR ''_''"
  "identifier_from_string (identifier_from_string name) = identifier_from_string name"
  by (auto simp: identifier_from_string_def)

lemma typeid_examples:
  "identifier_from_typeid ''ns::vec<int, std::pair<a, b> >'' False = ''vec_int_pair_a_b''"
  "identifier_from_typeid ''ns::vec<int>'' True = ''vec''"
  "identifier_from_typeid ''int'' False = ''int''"
  by (simp_all add: identifier_from_typeid_def find_from_def find_last_of_def arguments_loop.simps substr_def upt_rec)

text \<open>A digit of a base is less than the base.\<close>

lemma char2int_range: "char2int x base = Inr n \<Longrightarrow> 0 \<le> n \<and> n < int base"
  by (auto simp: char2int_def Let_def split: if_splits)

lemma find_distance_from_first:
  "find_distance_from k xs v = (if v \<in> set xs then k + int (length (takeWhile (\<lambda>x. x \<noteq> v) xs)) else -1)"
  by (induction xs arbitrary: k) auto

text \<open>Popping undoes pushing; an indentation of 0 stays for ever.\<close>

lemma pop_push: "0 < ai_indent b \<Longrightarrow> ai_indent b < 2 ^ 30 \<Longrightarrow> bindR (push_indent b) pop_indent = Inr b"
  by (simp add: pop_indent_def push_indent_def assertR_def failR_def)

lemma no_indent_stays: "ai_indent b = 0 \<Longrightarrow> push_indent b = Inr b \<and> pop_indent b = Inl Assert_Failed"
  by (cases b) (simp add: pop_indent_def push_indent_def assertR_def failR_def)

end
