(* ===== verification/Half_Float.thy ===== *)
theory Half_Float
  imports Vector_ISA
begin

text \<open>
  The conversions between 32-bit and 16-bit floats of isa/inc/OperandUtil.h, on the words that hold the
  values. All cases are selected with masks, without branches. Multiplication and the conversion from an
  integer are the machine's (\<open>fpu\<close>); \<open>cv\<close> is what the machine gives for the conversion of a float to \<open>int\<close>, which C++
  leaves undefined outside of the type and which the code also does for values whose result it then discards.
\<close>

text \<open>\<open>a ^= (b ^ a) & -c\<close>\<close>

definition select_if :: "bool \<Rightarrow> u32 \<Rightarrow> u32 \<Rightarrow> u32" where
  "select_if c b a = a XOR ((b XOR a) AND - of_bool c)"

definition Float32to16 :: "fpu \<Rightarrow> (u32 \<Rightarrow> u32) \<Rightarrow> u32 \<Rightarrow> u16" where
  "Float32to16 fp cv value =
     (let F_infN = 0x7F800000; F_maxN = 0x477FE000; F_minN = 0x38800000; F_signN = 0x80000000;
          F_infC = drop_bit 13 F_infN; F_nanN = push_bit 13 (F_infC + 1); F_maxC = drop_bit 13 F_maxN;
          F_minC = drop_bit 13 F_minN; F_mulN = 0x52000000; F_subC = 0x3FF;
          F_maxD = F_infC - F_maxC - 1; F_minD = F_minC - F_subC - 1;
          sign = value AND F_signN;
          v = value XOR sign;
          sign = drop_bit 16 sign;
          s = cv (f32_mul fp F_mulN v);
          v = select_if (sint F_minN > sint v) s v;
          v = select_if (sint F_infN > sint v \<and> sint v > sint F_maxN) F_infN v;
          v = select_if (sint F_nanN > sint v \<and> sint v > sint F_infN) F_nanN v;
          v = drop_bit 13 v;
          v = select_if (sint v > sint F_maxC) (v - F_maxD) v;
          v = select_if (sint v > sint F_subC) (v - F_minD) v
      in ucast (v OR sign))"

definition Float16to32 :: "fpu \<Rightarrow> u16 \<Rightarrow> u32" where
  "Float16to32 fp value =
     (let F_infN = 0x7F800000; F_maxN = 0x477FE000; F_minN = 0x38800000;
          F_infC = drop_bit 13 F_infN; F_maxC = drop_bit 13 F_maxN; F_minC = drop_bit 13 F_minN;
          F_signC = 0xFFFF8000; F_mulC = 0x33800000; F_subC = 0x3FF; F_norC = 0x400 :: u32;
          F_maxD = F_infC - F_maxC - 1; F_minD = F_minC - F_subC - 1;
          v = ucast value;
          sign = v AND F_signC;
          v = v XOR sign;
          sign = push_bit 16 sign;
          v = select_if (sint v > sint F_subC) (v + F_minD) v;
          v = select_if (sint v > sint F_maxC) (v + F_maxD) v;
          s = f32_mul fp F_mulC (f32_of_i32 fp v);
          small = sint F_norC > sint v;
          v = push_bit 13 v;
          v = select_if small s v
      in v OR sign)"

section \<open>The cases\<close>

lemma select_if [simp]: "select_if c b a = (if c then b else a)"
  by (cases c) (auto simp: select_if_def bit_simps intro!: bit_word_eqI)

lemma sint_of_nat: "n < 2 ^ 31 \<Longrightarrow> sint (of_nat n :: u32) = int n"
  by (simp add: sint_uint uint_nat unat_of_nat signed_take_bit_int_eq_self_iff)

lemma drop_of_nat: "n < 2 ^ 32 \<Longrightarrow> drop_bit k (of_nat n :: u32) = of_nat (n div 2 ^ k)"
  using order.strict_trans1[OF div_le_dividend[of n "2 ^ k"], of "2 ^ 32"]
  by (intro unsigned_word_eqI, subst unat_drop_bit_eq) (simp add: unat_of_nat drop_bit_eq_div)

text \<open>The magnitude of a float, and its sign.\<close>

lemma magnitude32: "v XOR (v AND 0x80000000) = of_nat (unat (v AND 0x7FFFFFFF))" for v :: u32
proof -
  have top: "bit (0x80000000 :: u32) k \<longleftrightarrow> k = 31" for k
  proof -
    have "(0x80000000 :: u32) = push_bit 31 1" by simp
    then have "bit (0x80000000 :: u32) k = bit (push_bit 31 1 :: u32) k" by (rule arg_cong)
    then show ?thesis by (simp only: bit_push_bit_iff bit_1_iff, simp) arith
  qed
  have low: "bit (0x7FFFFFFF :: u32) k \<longleftrightarrow> k < 31" for k
  proof -
    have "(0x7FFFFFFF :: u32) = mask 31" by (simp add: mask_eq_exp_minus_1)
    then have "bit (0x7FFFFFFF :: u32) k = bit (mask 31 :: u32) k" by (rule arg_cong)
    then show ?thesis by (simp only: bit_mask_iff, simp) arith
  qed
  have "v XOR (v AND 0x80000000) = v AND 0x7FFFFFFF"
  proof (rule bit_word_eqI)
    fix k assume "k < LENGTH(32)"
    then show "bit (v XOR (v AND 0x80000000)) k = bit (v AND 0x7FFFFFFF) k"
      by (simp only: bit_xor_iff bit_and_iff top low, simp) arith
  qed
  then show ?thesis by simp
qed

text \<open>
  A normal 32-bit value that a normal 16-bit value approximates loses the low bits of its fraction, one above becomes an
  infinity; infinities and values that are no numbers stay so.
\<close>

definition half_magnitude :: "nat \<Rightarrow> nat" where
  "half_magnitude n = (if n \<le> 0x477FE000 then n div 8192 - 0x1C000 else if n \<le> 0x7F800000 then 0x7C00
     else max n 0x7F802000 div 8192 - 0x38000)"

lemma Float32to16_normal:
  assumes "unat (v AND 0x7FFFFFFF) \<ge> 0x38800000"
  shows "Float32to16 fp cv v = ucast (of_nat (half_magnitude (unat (v AND 0x7FFFFFFF))) OR drop_bit 16 (v AND 0x80000000))"
proof -
  define n where "n = unat (v AND 0x7FFFFFFF)"
  have "v AND 0x7FFFFFFF \<le> 0x7FFFFFFF" by (rule word_and_le1)
  then have n: "0x38800000 \<le> n" "n < 2 ^ 31" using assms by (simp_all add: n_def word_le_nat_alt)
  define q where "q = n div 8192"
  have q: "0x1C400 \<le> q" "q < 0x40000" using n div_le_mono[OF n(1), of 8192] by (simp_all add: q_def)
  have x: "q \<le> 0x23BFF \<longleftrightarrow> n < 0x47800000" "q < 0x3FC00 \<longleftrightarrow> n < 0x7F800000"
    by (simp_all add: q_def less_mult_imp_div_less div_less_iff_less_mult less_Suc_eq_le[symmetric])
  have d: "drop_bit 13 (of_nat n :: u32) = of_nat q" using n by (simp add: drop_of_nat q_def)
  have minus: "(of_nat q :: u32) - of_nat k = of_nat (q - k)" if "k \<le> q" for k using that by simp
  note f = Float32to16_def[of fp cv v, unfolded Let_def magnitude32 n_def[symmetric] select_if]
  consider "n \<le> 0x477FE000" | "0x477FE000 < n" "n \<le> 0x7F800000" | "0x7F800000 < n" by linarith
  then show ?thesis
  proof cases
    case 1
    then have "q \<le> 0x23BFF" using x by simp
    then show ?thesis
      using 1 n q minus[of "0x1C000"] sint_of_nat[of q] by (simp add: f sint_of_nat d half_magnitude_def n_def[symmetric] q_def[symmetric])
  next
    case 2
    then show ?thesis
      using n by (cases "n = 0x7F800000") (simp_all add: f sint_of_nat half_magnitude_def n_def[symmetric])
  next
    case 3
    define r where "r = max n 0x7F802000 div 8192"
    have r: "0x3FC01 \<le> r" "r < 0x40000" using n by (auto simp: r_def max_def div_less_iff_less_mult)
    have "drop_bit 13 (of_nat (max n 0x7F802000) :: u32) = of_nat r"
      using n by (simp only: r_def) (subst drop_of_nat, auto simp: max_def)
    then have "drop_bit 13 (if n < 0x7F802000 then 0x7F802000 else of_nat n :: u32) = of_nat r"
      by (cases "n < 0x7F802000") (simp_all add: max_def)
    moreover have "(of_nat r :: u32) - 0x1C000 = of_nat (r - 0x1C000)" "(of_nat (r - 0x1C000) :: u32) - 0x1C000 = of_nat (r - 0x38000)"
      using r by simp_all
    moreover have "\<not> n < 0x7F802000 \<Longrightarrow> n div 8192 = r" by (simp add: r_def max_def)
    ultimately show ?thesis
      using 3 n r sint_of_nat[of r] sint_of_nat[of "r - 0x1C000"]
      by (cases "n < 0x7F802000") (simp_all add: f sint_of_nat half_magnitude_def n_def[symmetric] r_def[symmetric])
  qed
qed

end
