(* ===== verification/Vector_Rest.thy ===== *)
theory Vector_Rest
  imports VOP3_ISA Handler_Frames Bit_Utils
begin

text \<open>
  The remaining handlers of isa/InstructionVOP1.cpp and isa/InstructionVOP3A.cpp: sine and cosine, and the
  instructions whose handlers call \<open>ISAUnimplemented\<close>, which does nothing, so that a program that uses
  one goes on with the old value of its destination.
\<close>

section \<open>Sine and cosine\<close>

text \<open>
  The source is multiplied by the double \<open>2 * M_PI\<close> and rounded to a float; the test of its range converts it to
  \<open>int\<close>. Outside of the range an assert fails. \<open>fn\<close> is the function of the C library.
\<close>

definition normalized_angle :: "fpu \<Rightarrow> u32 \<Rightarrow> u32" where
  "normalized_angle fp s0 = f32_of_f64 fp (f64_mul fp (f64_of_f32 fp s0) 0x401921FB54442D18)"

definition trigonometric :: "fpu \<Rightarrow> (u32 \<Rightarrow> u32) \<Rightarrow> u32 \<Rightarrow> u32 res" where
  "trigonometric fp fn s0 =
     (let s0 = normalized_angle fp s0 in
      failR (f32_is_nan s0 \<or> f32_is_inf s0 \<or> f32_trunc s0 < - (2 ^ 31) \<or> f32_trunc s0 \<ge> 2 ^ 31) Undefined_Conversion
        (assertR (inRange (f32_trunc s0) (-256) 256) (Inr (fn s0))))"

definition V_SIN_F32 :: "fpu \<Rightarrow> (u32 \<Rightarrow> u32) \<Rightarrow> u32 \<Rightarrow> Instruction \<Rightarrow> Instruction res" where
  "V_SIN_F32 fp sinf = vunary (trigonometric fp sinf)"

definition V_COS_F32 :: "fpu \<Rightarrow> (u32 \<Rightarrow> u32) \<Rightarrow> u32 \<Rightarrow> Instruction \<Rightarrow> Instruction res" where
  "V_COS_F32 fp cosf = vunary (trigonometric fp cosf)"

section \<open>Unimplemented instructions\<close>

definition V_CVT_I32_F64 :: "u32 \<Rightarrow> 'm WarpState \<Rightarrow> 'm WarpState res" where
  "V_CVT_I32_F64 lane_id w = ISAUnimplemented w"

definition V_CVT_F64_U32 :: "u32 \<Rightarrow> 'm WarpState \<Rightarrow> 'm WarpState res" where
  "V_CVT_F64_U32 lane_id w = ISAUnimplemented w"

definition V_FLOOR_F32 :: "u32 \<Rightarrow> 'm WarpState \<Rightarrow> 'm WarpState res" where
  "V_FLOOR_F32 lane_id w = ISAUnimplemented w"

definition V_LOG_F32 :: "u32 \<Rightarrow> 'm WarpState \<Rightarrow> 'm WarpState res" where
  "V_LOG_F32 lane_id w = ISAUnimplemented w"

definition V_RCP_F64 :: "u32 \<Rightarrow> 'm WarpState \<Rightarrow> 'm WarpState res" where
  "V_RCP_F64 lane_id w = ISAUnimplemented w"

definition V_RSQ_F64 :: "u32 \<Rightarrow> 'm WarpState \<Rightarrow> 'm WarpState res" where
  "V_RSQ_F64 lane_id w = ISAUnimplemented w"

definition V_FFBH_U32 :: "u32 \<Rightarrow> 'm WarpState \<Rightarrow> 'm WarpState res" where
  "V_FFBH_U32 lane_id w = ISAUnimplemented w"

definition V_FRACT_F64 :: "u32 \<Rightarrow> 'm WarpState \<Rightarrow> 'm WarpState res" where
  "V_FRACT_F64 lane_id w = ISAUnimplemented w"

definition V_FMA_F64 :: "u32 \<Rightarrow> 'm WarpState \<Rightarrow> 'm WarpState res" where
  "V_FMA_F64 lane_id w = ISAUnimplemented w"

definition V_MIN_F64 :: "u32 \<Rightarrow> 'm WarpState \<Rightarrow> 'm WarpState res" where
  "V_MIN_F64 lane_id w = ISAUnimplemented w"

definition V_MAX_F64 :: "u32 \<Rightarrow> 'm WarpState \<Rightarrow> 'm WarpState res" where
  "V_MAX_F64 lane_id w = ISAUnimplemented w"

definition V_CMP_LE_F32_VOP3A :: "u32 \<Rightarrow> 'm WarpState \<Rightarrow> 'm WarpState res" where
  "V_CMP_LE_F32_VOP3A lane_id w = ISAUnimplemented w"

definition V_CMP_NLE_F32_VOP3A :: "u32 \<Rightarrow> 'm WarpState \<Rightarrow> 'm WarpState res" where
  "V_CMP_NLE_F32_VOP3A lane_id w = ISAUnimplemented w"

definition V_CMP_OP16_F64_VOP3A :: "u32 \<Rightarrow> 'm WarpState \<Rightarrow> 'm WarpState res" where
  "V_CMP_OP16_F64_VOP3A lane_id w = ISAUnimplemented w"

definition V_CMP_CLASS_F64_VOP3A :: "u32 \<Rightarrow> 'm WarpState \<Rightarrow> 'm WarpState res" where
  "V_CMP_CLASS_F64_VOP3A lane_id w = ISAUnimplemented w"

definition V_CMP_LT_U64_VOP3A :: "u32 \<Rightarrow> 'm WarpState \<Rightarrow> 'm WarpState res" where
  "V_CMP_LT_U64_VOP3A lane_id w = ISAUnimplemented w"

definition V_LDEXP_F64 :: "u32 \<Rightarrow> 'm WarpState \<Rightarrow> 'm WarpState res" where
  "V_LDEXP_F64 lane_id w = ISAUnimplemented w"

definition V_CSEL_B32 :: "u32 \<Rightarrow> 'm WarpState \<Rightarrow> 'm WarpState res" where
  "V_CSEL_B32 lane_id w = ISAUnimplemented w"

definition V_CSEL_B64 :: "u32 \<Rightarrow> 'm WarpState \<Rightarrow> 'm WarpState res" where
  "V_CSEL_B64 lane_id w = ISAUnimplemented w"

text \<open>They meet the contract of a handler, as does every operation on the operands.\<close>

interpretation vnothing: handler "warp_exec V_LOG_F32"
  by (rule warp_exec_handler) (auto simp: V_LOG_F32_def ISAUnimplemented_def intro: frames)

interpretation vsin: handler "operand_exec (\<lambda>_. V_SIN_F32 fp sinf)" for fp sinf
  unfolding V_SIN_F32_def by (rule vunary.handler_axioms)

end
