(* ===== verification/Old_Formats.thy ===== *)
theory Old_Formats
  imports Memory_ISA Scalar_ISA
begin

text \<open>
  The typed buffer instructions (isa/InstructionMTBUF.cpp) and the scalar memory instructions
  (isa/InstructionSMRD.cpp). The build leaves both files out; they are written for an older interface to the item
  that executes, and what of it is no longer in the repository is a parameter here. Scalar registers, buffer
  descriptors and memory pointers are those of the warp (\<open>getSreg\<close>, \<open>ReadBufferResource\<close>, \<open>getSregMemPtr\<close>).
\<close>

section \<open>The older interface\<close>

text \<open>
  Vector registers without a lane, memory accesses without a space, the lane of the item, the flag for scalar
  reads and the record of the last access.
\<close>

record 'm old_interface =
  oi_ReadVReg :: "u32 \<Rightarrow> 'm WarpState \<Rightarrow> u32 res"
  oi_WriteVReg :: "u32 \<Rightarrow> u32 \<Rightarrow> 'm WarpState \<Rightarrow> 'm WarpState res"
  oi_ReadMemory :: "u32 \<Rightarrow> nat \<Rightarrow> 'm WarpState \<Rightarrow> u8 list"
  oi_WriteMemory :: "u32 \<Rightarrow> u8 list \<Rightarrow> 'm WarpState \<Rightarrow> 'm WarpState"
  oi_laneId :: u32
  oi_scalar_read :: "'m WarpState \<Rightarrow> 'm WarpState"
  oi_record_access :: "u32 \<Rightarrow> u32 \<Rightarrow> 'm WarpState \<Rightarrow> 'm WarpState"

section \<open>Typed buffers\<close>

record BytesMTBUF =
  mtb_op :: u32
  mtb_offset :: u32
  mtb_offen :: u32
  mtb_idxen :: u32
  mtb_addr64 :: u32
  mtb_dfmt :: u32
  mtb_vaddr :: u32
  mtb_vdata :: u32
  mtb_srsrc :: u32
  mtb_slc :: u32
  mtb_tfe :: u32
  mtb_soffset :: u32

definition MTBUF_Decode :: "Instruction \<Rightarrow> Instruction" where
  "MTBUF_Decode ins = ins\<lparr>ins_m_size := 8, ins_m_decoded := True\<rparr>"

definition ISAGetNumElems :: "int \<Rightarrow> u32 res" where
  "ISAGetNumElems data_format =
     (if data_format \<in> {1, 2, 4} then Inr 1
      else if data_format \<in> {3, 5, 11} then Inr 2
      else if data_format = 13 then Inr 3
      else if data_format \<in> {10, 12, 14} then Inr 4
      else Inl Runtime_Error)"

definition ISAGetElemSize :: "int \<Rightarrow> u32 res" where
  "ISAGetElemSize data_format =
     (if data_format \<in> {1, 3, 10} then Inr 1
      else if data_format \<in> {2, 5, 12} then Inr 2
      else if data_format \<in> {4, 11, 13, 14} then Inr 4
      else Inl Runtime_Error)"

text \<open>The size of the access, for an instruction that wants \<open>n\<close> elements of four bytes.\<close>

definition tbuffer_bytes :: "u32 \<Rightarrow> BytesMTBUF \<Rightarrow> u32 res" where
  "tbuffer_bytes n b =
     bindR (ISAGetElemSize (sint (mtb_dfmt b))) (\<lambda>elem_size.
     bindR (ISAGetNumElems (sint (mtb_dfmt b))) (\<lambda>num_elems.
       assertR (num_elems = n) (assertR (elem_size = 4) (Inr (elem_size * num_elems)))))"

text \<open>The offset and the index that the instruction takes from vector registers.\<close>

definition tbuffer_offsets :: "'m old_interface \<Rightarrow> BytesMTBUF \<Rightarrow> 'm WarpState \<Rightarrow> (u32 \<times> u32) res" where
  "tbuffer_offsets oi b w =
     (if mtb_idxen b = 0 \<and> mtb_offen b \<noteq> 0 then
        bindR (oi_ReadVReg oi (mtb_vaddr b) w) (\<lambda>off_vgpr. Inr (off_vgpr, 0))
      else if mtb_idxen b \<noteq> 0 \<and> mtb_offen b = 0 then
        bindR (oi_ReadVReg oi (mtb_vaddr b) w) (\<lambda>idx_vgpr. Inr (0, idx_vgpr))
      else if mtb_idxen b \<noteq> 0 \<and> mtb_offen b \<noteq> 0 then
        bindR (oi_ReadVReg oi (mtb_vaddr b) w) (\<lambda>idx_vgpr.
        bindR (oi_ReadVReg oi (mtb_vaddr b + 1) w) (\<lambda>off_vgpr. Inr (off_vgpr, idx_vgpr)))
      else Inr (0, 0))"

text \<open>
  An index without a stride throws if \<open>strict\<close>; elsewhere the test is commented out, or
  its assert has a string for its condition and never fails. \<open>lane\<close> is added to the index.
\<close>

definition tbuffer_addr :: "'m old_interface \<Rightarrow> coasm \<Rightarrow> bool \<Rightarrow> u32 \<Rightarrow> BytesMTBUF \<Rightarrow> 'm WarpState \<Rightarrow> u32 res" where
  "tbuffer_addr oi cfg strict lane b w =
     bindR (ReadBufferResource cfg (mtb_srsrc b * 4) w) (\<lambda>buffer_descriptor.
     let base = desc_base_addr buffer_descriptor; stride = desc_stride buffer_descriptor in
     bindR (getSreg cfg (mtb_soffset b) w) (\<lambda>mem_offset.
     bindR (tbuffer_offsets oi b w) (\<lambda>(off_vgpr, idx_vgpr).
     failR (strict \<and> idx_vgpr \<noteq> 0 \<and> stride = 0) Runtime_Error
       (Inr (base + mem_offset + mtb_offset b + off_vgpr + stride * (idx_vgpr + lane))))))"

text \<open>Consecutive words of memory to consecutive vector registers; the loads do not add the lane.\<close>

definition tbuffer_load :: "nat \<Rightarrow> bool \<Rightarrow> 'm old_interface \<Rightarrow> coasm \<Rightarrow> BytesMTBUF \<Rightarrow> 'm WarpState \<Rightarrow> 'm WarpState res" where
  "tbuffer_load n strict oi cfg b w =
     assertR (mtb_addr64 b = 0)
    (bindR (tbuffer_bytes (of_nat n) b) (\<lambda>bytes_to_read.
     bindR (tbuffer_addr oi cfg strict 0 b w) (\<lambda>addr.
     bindR (forR n (\<lambda>i w.
         oi_WriteVReg oi (mtb_vdata b + of_nat i) (bytes_u32 (oi_ReadMemory oi (addr + 4 * of_nat i) 4 w)) w) w) (\<lambda>w.
       Inr (oi_record_access oi addr bytes_to_read w)))))"

definition TBUFFER_LOAD_FORMAT_X :: "'m old_interface \<Rightarrow> coasm \<Rightarrow> BytesMTBUF \<Rightarrow> 'm WarpState \<Rightarrow> 'm WarpState res" where
  "TBUFFER_LOAD_FORMAT_X oi cfg b w =
     assertR (mtb_addr64 b = 0 \<and> mtb_tfe b = 0 \<and> mtb_slc b = 0) (tbuffer_load 1 True oi cfg b w)"

definition TBUFFER_LOAD_FORMAT_XY :: "'m old_interface \<Rightarrow> coasm \<Rightarrow> BytesMTBUF \<Rightarrow> 'm WarpState \<Rightarrow> 'm WarpState res" where
  "TBUFFER_LOAD_FORMAT_XY = tbuffer_load 2 True"

definition TBUFFER_LOAD_FORMAT_XYZ :: "'m WarpState \<Rightarrow> 'm WarpState res" where
  "TBUFFER_LOAD_FORMAT_XYZ w = Inr w"

definition TBUFFER_LOAD_FORMAT_XYZW :: "'m old_interface \<Rightarrow> coasm \<Rightarrow> BytesMTBUF \<Rightarrow> 'm WarpState \<Rightarrow> 'm WarpState res" where
  "TBUFFER_LOAD_FORMAT_XYZW = tbuffer_load 4 False"

definition tbuffer_store :: "nat \<Rightarrow> 'm old_interface \<Rightarrow> coasm \<Rightarrow> BytesMTBUF \<Rightarrow> 'm WarpState \<Rightarrow> 'm WarpState res" where
  "tbuffer_store n oi cfg b w =
     assertR (mtb_addr64 b = 0)
    (bindR (tbuffer_bytes (of_nat n) b) (\<lambda>bytes_to_write.
     bindR (tbuffer_addr oi cfg False (oi_laneId oi) b w) (\<lambda>addr.
     bindR (forR n (\<lambda>i w.
         bindR (oi_ReadVReg oi (mtb_vdata b + of_nat i) w) (\<lambda>value.
           Inr (oi_WriteMemory oi (addr + 4 * of_nat i) (u32_bytes value) w))) w) (\<lambda>w.
       Inr (oi_record_access oi addr bytes_to_write w)))))"

definition TBUFFER_STORE_FORMAT_X :: "'m old_interface \<Rightarrow> coasm \<Rightarrow> BytesMTBUF \<Rightarrow> 'm WarpState \<Rightarrow> 'm WarpState res" where
  "TBUFFER_STORE_FORMAT_X = tbuffer_store 1"

definition TBUFFER_STORE_FORMAT_XY :: "'m old_interface \<Rightarrow> coasm \<Rightarrow> BytesMTBUF \<Rightarrow> 'm WarpState \<Rightarrow> 'm WarpState res" where
  "TBUFFER_STORE_FORMAT_XY = tbuffer_store 2"

definition TBUFFER_STORE_FORMAT_XYZW :: "'m old_interface \<Rightarrow> coasm \<Rightarrow> BytesMTBUF \<Rightarrow> 'm WarpState \<Rightarrow> 'm WarpState res" where
  "TBUFFER_STORE_FORMAT_XYZW = tbuffer_store 4"

section \<open>Scalar memory instructions\<close>

record BytesSMRD =
  smr_op :: u32
  smr_imm :: u32
  smr_sbase :: u32
  smr_offset :: u32
  smr_sdst :: u32

definition SMRD_Decode :: "Instruction \<Rightarrow> Instruction" where
  "SMRD_Decode ins = ins\<lparr>ins_m_size := 4, ins_m_is_warp_op := True, ins_m_decoded := True\<rparr>"

text \<open>Consecutive words of memory to consecutive scalar registers.\<close>

definition smrd_words :: "nat \<Rightarrow> u32 \<Rightarrow> 'm old_interface \<Rightarrow> coasm \<Rightarrow> BytesSMRD \<Rightarrow> u32 \<Rightarrow> 'm WarpState \<Rightarrow> 'm WarpState res" where
  "smrd_words n access_size oi cfg b addr w =
     bindR (forR n (\<lambda>i w.
         setSreg cfg (smr_sdst b + of_nat i) (bytes_u32 (oi_ReadMemory oi (addr + of_nat i * 4) 4 w)) w) w) (\<lambda>w.
       Inr (oi_record_access oi addr access_size w))"

definition smrd_offset :: "coasm \<Rightarrow> BytesSMRD \<Rightarrow> 'm WarpState \<Rightarrow> u32 res" where
  "smrd_offset cfg b w = (if smr_imm b \<noteq> 0 then Inr (smr_offset b * 4) else getSreg cfg (smr_offset b) w)"

text \<open>The load of one word takes its base from a buffer descriptor, the others from a memory pointer.\<close>

definition S_BUFFER_LOAD_DWORD :: "'m old_interface \<Rightarrow> coasm \<Rightarrow> BytesSMRD \<Rightarrow> 'm WarpState \<Rightarrow> 'm WarpState res" where
  "S_BUFFER_LOAD_DWORD oi cfg b w =
     (let w = oi_scalar_read oi w in
      bindR (ReadBufferResource cfg (push_bit 1 (smr_sbase b)) w) (\<lambda>buffer_descriptor.
      let m_base = desc_base_addr buffer_descriptor in
      bindR (smrd_offset cfg b w) (\<lambda>m_offset. smrd_words 1 4 oi cfg b (m_base + m_offset) w)))"

definition smrd_buffer_load :: "nat \<Rightarrow> u32 \<Rightarrow> 'm old_interface \<Rightarrow> coasm \<Rightarrow> BytesSMRD \<Rightarrow> 'm WarpState \<Rightarrow> 'm WarpState res" where
  "smrd_buffer_load n access_size oi cfg b w =
     (let w = oi_scalar_read oi w in
      bindR (getSregMemPtr cfg (push_bit 1 (smr_sbase b)) w) (\<lambda>memory_pointer.
      let m_base = ucast (mem_ptr_addr memory_pointer) :: u32 in
      bindR (smrd_offset cfg b w) (\<lambda>m_offset. smrd_words n access_size oi cfg b (m_base + m_offset) w)))"

definition S_BUFFER_LOAD_DWORDX2 :: "'m old_interface \<Rightarrow> coasm \<Rightarrow> BytesSMRD \<Rightarrow> 'm WarpState \<Rightarrow> 'm WarpState res" where
  "S_BUFFER_LOAD_DWORDX2 = smrd_buffer_load 2 (4 * 2)"

definition S_BUFFER_LOAD_DWORDX4 :: "'m old_interface \<Rightarrow> coasm \<Rightarrow> BytesSMRD \<Rightarrow> 'm WarpState \<Rightarrow> 'm WarpState res" where
  "S_BUFFER_LOAD_DWORDX4 = smrd_buffer_load 4 (4 * 4)"

definition S_BUFFER_LOAD_DWORDX8 :: "'m old_interface \<Rightarrow> coasm \<Rightarrow> BytesSMRD \<Rightarrow> 'm WarpState \<Rightarrow> 'm WarpState res" where
  "S_BUFFER_LOAD_DWORDX8 = smrd_buffer_load 8 (4 * 8)"

definition S_BUFFER_LOAD_DWORDX16 :: "'m old_interface \<Rightarrow> coasm \<Rightarrow> BytesSMRD \<Rightarrow> 'm WarpState \<Rightarrow> 'm WarpState res" where
  "S_BUFFER_LOAD_DWORDX16 = smrd_buffer_load 16 (4 * 16)"

definition smrd_load :: "nat \<Rightarrow> u32 \<Rightarrow> 'm old_interface \<Rightarrow> coasm \<Rightarrow> BytesSMRD \<Rightarrow> 'm WarpState \<Rightarrow> 'm WarpState res" where
  "smrd_load n access_size oi cfg b w =
     (let w = oi_scalar_read oi w in
      assertR (smr_imm b \<noteq> 0)
     (bindR (getSregMemPtr cfg (push_bit 1 (smr_sbase b)) w) (\<lambda>memory_pointer.
      let m_base = ucast (mem_ptr_addr memory_pointer) :: u32;
          m_addr = m_base + smr_offset b * 4
      in assertR (m_addr AND 3 = 0) (smrd_words n access_size oi cfg b m_addr w))))"

definition S_LOAD_DWORD_SMRD :: "'m old_interface \<Rightarrow> coasm \<Rightarrow> BytesSMRD \<Rightarrow> 'm WarpState \<Rightarrow> 'm WarpState res" where
  "S_LOAD_DWORD_SMRD = smrd_load 1 (4 * 2)"

definition S_LOAD_DWORDX2_SMRD :: "'m old_interface \<Rightarrow> coasm \<Rightarrow> BytesSMRD \<Rightarrow> 'm WarpState \<Rightarrow> 'm WarpState res" where
  "S_LOAD_DWORDX2_SMRD = smrd_load 2 (4 * 2)"

definition S_LOAD_DWORDX4_SMRD :: "'m old_interface \<Rightarrow> coasm \<Rightarrow> BytesSMRD \<Rightarrow> 'm WarpState \<Rightarrow> 'm WarpState res" where
  "S_LOAD_DWORDX4_SMRD = smrd_load 4 (4 * 4)"

definition S_LOAD_DWORDX8_SMRD :: "'m old_interface \<Rightarrow> coasm \<Rightarrow> BytesSMRD \<Rightarrow> 'm WarpState \<Rightarrow> 'm WarpState res" where
  "S_LOAD_DWORDX8_SMRD = smrd_load 8 (4 * 8)"

definition S_LOAD_DWORDX16_SMRD :: "'m old_interface \<Rightarrow> coasm \<Rightarrow> BytesSMRD \<Rightarrow> 'm WarpState \<Rightarrow> 'm WarpState res" where
  "S_LOAD_DWORDX16_SMRD = smrd_load 16 (4 * 16)"

section \<open>What they share with the formats in use\<close>

text \<open>Each typed access works for exactly one data format, the one of its words.\<close>

lemma tbuffer_formats:
  "tbuffer_bytes 1 b = Inr n \<longleftrightarrow> sint (mtb_dfmt b) = 4 \<and> n = 4"
  "tbuffer_bytes 2 b = Inr n \<longleftrightarrow> sint (mtb_dfmt b) = 11 \<and> n = 8"
  "tbuffer_bytes 4 b = Inr n \<longleftrightarrow> sint (mtb_dfmt b) = 14 \<and> n = 16"
  by (auto simp: tbuffer_bytes_def ISAGetElemSize_def ISAGetNumElems_def assertR_def)

text \<open>A lane stores its own element, but loads the element of lane 0.\<close>

lemma tbuffer_store_addr:
  "tbuffer_addr oi cfg True 0 b w = Inr a \<Longrightarrow>
   \<exists>stride. tbuffer_addr oi cfg False lane b w = Inr (a + stride * lane)"
  by (auto simp: tbuffer_addr_def res_simps Let_def failR_def algebra_simps split: if_splits prod.splits)

text \<open>
  The interface that the present scalar loads use, and the loads of the two formats agree under it.
\<close>

definition sls_interface :: "'m old_interface \<Rightarrow> 'm old_interface" where
  "sls_interface oi = oi\<lparr>oi_ReadMemory := (\<lambda>a n. readSMEM (ucast a) (of_nat n) undefined_space),
     oi_scalar_read := (\<lambda>w. w\<lparr>wst_smem_read_counter := wst_smem_read_counter w + 1\<rparr>),
     oi_record_access := (\<lambda>a n w. w\<lparr>wst_global_memory_access_address := ucast a, wst_global_memory_access_size := ucast n\<rparr>)\<rparr>"

lemma smrd_as_sls:
  "smrd_load n k (sls_interface oi) cfg \<lparr>smr_op = opc, smr_imm = imm, smr_sbase = sbase, smr_offset = offset, smr_sdst = sdst\<rparr> =
   sls_load n (ucast k) cfg \<lparr>sls_imm = imm, sls_sbase = sbase, sls_offset = offset, sls_sdst = sdst\<rparr>"
  by (rule ext) (simp add: smrd_load_def sls_load_def smrd_words_def sls_interface_def Let_def)

end
