(* ===== verification/Spec2Isabelle.thy ===== *)
theory Spec2Isabelle
  imports Sim_Prelude Simt_Stack Kernel_Info Block_State Thread_Pool Mem_Common Thread_Item Warp_State Exec_Types Operands Scalar_ISA Bit_Utils Sample_State Scalar_Facts Vector_ISA VOP3_ISA Thread_Block Thread_Block_Facts Block_Invariant Block_Run Handler_Frames Block_Launch Block_Theorems Executor Launch_Theorems Memory_ISA Memory_Facts Operand_Facts VOP3_Facts Branch_Facts Checkpoint Block_Checkpoint Int_Math Kernel_Streams Decode_Tables Smart_Ptr String_Utils Half_Float Vector_Rest Old_Formats
begin

text \<open>
  isasim is a functional simulator of a SIMT processor, written in C++: it executes the kernels of a
  GPU program, instruction by instruction. This library models its core, file by file, in definitions
  that follow the code, and proves what makes them correct.

  The parts of the program, and how they interact. \<open>Executor.cpp\<close> launches a kernel
  (\<open>KernelInfo\<close>, \<open>KernelState\<close>): it writes the constant registers that the kernel's control word asks for,
  walks over the grid, allocates a running block of the compute unit (\<open>CUResource\<close>) for each block and gives its
  execution to a pool of host threads (\<open>ThreadPool\<close>). A task executes one \<open>ThreadBlock\<close>: it creates the threads
  (\<open>ThreadItem\<close>) and the warps, and then gives every warp that is not blocked a turn, until no thread is live. In a turn
  the warp fetches the instruction at the program counter of the top of its reconvergence stack (\<open>Warp\<close>), executes
  it in the active lanes on the state of the warp (\<open>WarpState\<close>: registers, constants, memories) and
  updates the stack by the lanes' next program counters. An instruction (\<open>Instruction\<close>, \<open>Operand\<close>) is decoded
  from its encoding and has a handler per opcode, in one file per format.

  Which theory models what:
  \<^item> Sim_Prelude: results (every failing assert, exception, null pointer, access out of range and undefined
    operation of the code is an error value), loops, C++ vectors, bytes; the interface locales \<open>walk\<close> (an object
    stepped through positions) and \<open>reg_file\<close> (a register file).
  \<^item> Simt_Stack: model/Warp.cpp. Kernel_Info: model/KernelInfo.cpp and KernelState.h. Block_State: model/BlockState.cpp
    and CUResource.h. Thread_Pool: common/ThreadPool.h. Mem_Common: isa/MemCommon.cpp. Thread_Item:
    model/ThreadItem.cpp. Warp_State: model/WarpState.cpp. Exec_Types: isa/inc/ExecTypes.h, isa/ExecCommon.cpp and
    common/DataTypes.h. Bit_Utils and Half_Float: the integer helpers of common/string_utils.h and isa/inc/OperandUtil.h
    and the conversions of 16-bit floats. Int_Math: common/intmath.h. String_Utils and Smart_Ptr: common/string_utils.cpp and
    the classes of common/string_utils.h, the pointers on an explicit heap of linked nodes.
  \<^item> Decode_Tables: the opcode tables of isa/inc/Instruction.h and the choice of the format in isa/Instruction.cpp.
    Kernel_Streams: model/Kernel.cpp and Kernel.h. Checkpoint: the checkpoint files of model/Warp.cpp, written and read as text.
    Block_Checkpoint: the paths of model/ThreadBlock.cpp that store and resume a checkpoint.
  \<^item> Operands: isa/inc/Instruction.h and isa/DecodeCommon.cpp. Scalar_ISA: SOP2, SOPC, SOPK, SOP1, SOPP and SLS.
    Vector_ISA: VOP2, VOPC and VOP1. VOP3_ISA: VOP3A and VOP3B. Vector_Rest: sine, cosine and the handlers
    of both that are unimplemented. Memory_ISA: VLS, DLS and VMUBUF. Old_Formats: MTBUF and SMRD, which the build leaves out.
  \<^item> Thread_Block: model/ThreadBlock.cpp and \<open>ThreadItem::Execute\<close>. Executor: model/Executor.cpp.
  The state of a class is a record with the members of the class, an operation is a function from the state
  to a result with the new state, with the guards in the code's order; a type keeps its width and wraps.
  The interleavings of host threads are step relations (\<open>pool_reach\<close>, \<open>launch_run\<close>).

  What the lemmas show:
  \<^item> The reconvergence stack (Simt_Stack): an update moves every lane to its own next program counter, loses and
    duplicates none, and any run agrees with lanes that step alone; divergence and calls come back.
  \<^item> The thread block (Thread_Block_Facts: the locale \<open>handler\<close>, the contract between the block and the handlers of the
    instructions, and one lane's turn under it; Handler_Frames: that the handlers of the instruction theories meet
    it; Block_Invariant, Block_Run, Block_Launch: the invariant of a block, its steps and its set-up;
    Block_Theorems): a block returns only when all its threads are done.
  \<^item> The launch (Executor, Launch_Theorems, Thread_Pool): the readable constants, and that in every interleaving
    the launch ends and each block of the grid has been executed exactly once.
  \<^item> The instructions: the types of operands and the refinement of the lane-wise instruction by the data path
    (Operand_Facts); branches (Branch_Facts); scalar arithmetic, flags and loads (Scalar_Facts); carries, median and
    maximum (VOP3_Facts); memory round trips and the atomic addition (Memory_Facts).
  \<^item> Decoding through the lazily filled tables is a plain lookup in the rows (Decode_Tables). A checkpoint of a stack reads
    back (Checkpoint); what a block that resumes finds, and that without checkpoints the paths change nothing
    (Block_Checkpoint). Every stream of a kernel is destroyed once (Kernel_Streams).
  \<^item> The shared pointers refine a map from pointers to objects, and an object is deleted with its last owner (Smart_Ptr).
  \<^item> Round trips and values of the helpers: addresses, widths, bit fields, powers of two, alignments, half floats, split and
    joined strings (Mem_Common, Exec_Types, Bit_Utils, Int_Math, Half_Float, String_Utils).
  Sample_State holds a concrete warp that the examples of the properties run on.

  Bounds and fuel. Loops whose number of turns the code fixes are structural recursions. The loop over the rounds of a
  block may not end (a program may loop), so it is a \<open>partial_function\<close> whose value is \<open>None\<close> then; the collection of the
  paths in \<open>Warp::update\<close> is a function whose measure is the lanes that are left. The loops over a ring of shared pointers
  end only in well-formed rings, so they are \<open>partial_function\<close>s too, and their ending is proved. Nothing runs on fuel.

  Parameters. What is not in the repository is an argument of the definitions: the values of the header coasm_define.h
  (the record \<open>coasm\<close>), the opcode numbers of opcodes.def (the \<open>Opcode\<close> records) and its
  rows (name, handler and type per opcode), the bit layouts of encodings (records of fields), the memories of the
  libcuda library (read and write functions, with the law that a read finds what was written where a property needs
  it), the floating-point arithmetic of the machine and the hardware operators (\<open>fpu\<close>), sine, cosine and
  undefined conversions, the interface that the two old formats were written for, the content of uninitialised
  storage, and the value of a shift that C++ leaves undefined.

  Not modelled: printing, dumps (also the dump of the global memory into a checkpoint, a function of the external library)
  and the waveform; ExecContext.cpp, an earlier copy of Warp.cpp that the build does not list; the front end to gem5; the
  circuits of hwop, written for an external hardware library; the macros of common/macros.h and the templates of common/string_utils.h, which the compiler evaluates;
  printf-like formatting and the demangling of names, which are the C library's.
\<close>

end
